theory Spec2Isabelle
  imports Main
begin

section \<open>Types of the expression language\<close>

text \<open>
  The checker's \<open>Type\<close> value (common/type.h) as a datatype, one constructor per kind.
  \<open>FunctionType\<close>, \<open>EnumType\<close> and \<open>UnknownType\<close> are the kinds that the switches of
  the checker leave to their \<open>default\<close> branch. Equality of types is structural, as
  \<open>operator==\<close> on \<open>Type\<close> is.
\<close>

datatype cel_type =
    DynType
  | ErrorType
  | NullType
  | BoolType
  | IntType
  | UintType
  | DoubleType
  | StringType
  | BytesType
  | DurationType
  | TimestampType
  | AnyType
  | BoolWrapperType
  | IntWrapperType
  | UintWrapperType
  | DoubleWrapperType
  | StringWrapperType
  | BytesWrapperType
  | ListType cel_type
  | MapType cel_type cel_type
  | StructType string
  | OpaqueType string "cel_type list"
  | TypeType "cel_type list"
  | TypeParamType string
  | FunctionType cel_type "cel_type list"
  | EnumType string
  | UnknownType

datatype type_kind =
    kDyn | kError | kNull | kBool | kInt | kUint | kDouble | kString | kBytes
  | kDuration | kTimestamp | kAny
  | kBoolWrapper | kIntWrapper | kUintWrapper | kDoubleWrapper | kStringWrapper
  | kBytesWrapper
  | kList | kMap | kStruct | kOpaque | kType | kTypeParam
  | kFunction | kEnum | kUnknown

fun kind :: "cel_type \<Rightarrow> type_kind" where
  "kind DynType = kDyn"
| "kind ErrorType = kError"
| "kind NullType = kNull"
| "kind BoolType = kBool"
| "kind IntType = kInt"
| "kind UintType = kUint"
| "kind DoubleType = kDouble"
| "kind StringType = kString"
| "kind BytesType = kBytes"
| "kind DurationType = kDuration"
| "kind TimestampType = kTimestamp"
| "kind AnyType = kAny"
| "kind BoolWrapperType = kBoolWrapper"
| "kind IntWrapperType = kIntWrapper"
| "kind UintWrapperType = kUintWrapper"
| "kind DoubleWrapperType = kDoubleWrapper"
| "kind StringWrapperType = kStringWrapper"
| "kind BytesWrapperType = kBytesWrapper"
| "kind (ListType e) = kList"
| "kind (MapType k v) = kMap"
| "kind (StructType n) = kStruct"
| "kind (OpaqueType n ps) = kOpaque"
| "kind (TypeType ps) = kType"
| "kind (TypeParamType n) = kTypeParam"
| "kind (FunctionType r ps) = kFunction"
| "kind (EnumType n) = kEnum"
| "kind UnknownType = kUnknown"

text \<open>
  Modelled from the spec: \<open>optional(T)\<close> is the opaque type named \<open>optional_type\<close> with the
  one parameter \<open>T\<close> (section 3); \<open>Type::IsOptional\<close>, \<open>OptionalType::GetParameter\<close> and
  the constructor \<open>OptionalType(arena, T)\<close> of common/type.h are not in the sources.
\<close>

definition OptionalType :: "cel_type \<Rightarrow> cel_type" where
  "OptionalType t = OpaqueType ''optional_type'' [t]"

fun IsOptional :: "cel_type \<Rightarrow> bool" where
  "IsOptional (OpaqueType n ps) = (n = ''optional_type'' \<and> length ps = 1)"
| "IsOptional _ = False"

fun GetOptionalParameter :: "cel_type \<Rightarrow> cel_type" where
  "GetOptionalParameter (OpaqueType n (p # ps)) = p"
| "GetOptionalParameter t = DynType"

section \<open>Source locations\<close>

text \<open>
  \<open>SourceInfo\<close> of the AST: \<open>positions\<close> maps an expression id to its absolute position,
  \<open>line_offsets\<close> is the list of line offsets. Both hold \<open>int32_t\<close> values; they are
  modelled as \<open>int\<close>, and the arithmetic of \<open>ComputeSourceLocation\<close> stays inside
  \<open>int32_t\<close> for positions and offsets between 0 and \<open>2^31 - 2\<close>.
  \<open>SourceLocation{}\<close> (common/source.h, not in the sources) has line and column -1.
\<close>

record source_info =
  positions :: "int \<rightharpoonup> int"
  line_offsets :: "int list"

record source_location =
  line :: int
  column :: int

definition default_source_location :: source_location where
  "default_source_location = \<lparr>line = - 1, column = - 1\<rparr>"

text \<open>
  The loop of \<open>ComputeSourceLocation\<close>:
  \<^verbatim>\<open>for (int32_t offset : line_offsets) { if (absolute_position >= offset) break; ++line_idx; }\<close>
\<close>

fun line_idx_loop :: "int \<Rightarrow> int list \<Rightarrow> int \<Rightarrow> int" where
  "line_idx_loop absolute_position [] line_idx = line_idx"
| "line_idx_loop absolute_position (offset # rest) line_idx =
     (if absolute_position \<ge> offset then line_idx
      else line_idx_loop absolute_position rest (line_idx + 1))"

definition ComputeSourceLocation :: "source_info \<Rightarrow> int \<Rightarrow> source_location" where
  "ComputeSourceLocation si expr_id =
     (case positions si expr_id of
        None \<Rightarrow> default_source_location
      | Some absolute_position \<Rightarrow>
          (let line_idx = line_idx_loop absolute_position (line_offsets si) (- 1) in
           if line_idx < 0 \<or> line_idx \<ge> int (length (line_offsets si))
           then \<lparr>line = 1, column = absolute_position\<rparr>
           else \<lparr>line = line_idx + 1,
                 column = absolute_position - (line_offsets si ! nat line_idx) + 1\<rparr>))"

text \<open>
  The location as the specification words it (section 6): the line is the index of the
  greatest line offset that is at most the absolute position, plus one; the column is the
  absolute position minus that line offset, plus one. \<open>None\<close> when no line offset is at
  most the position.
\<close>

definition spec_line_index :: "int list \<Rightarrow> int \<Rightarrow> nat option" where
  "spec_line_index offs pos =
     (case filter (\<lambda>i. offs ! i \<le> pos) [0..<length offs] of
        [] \<Rightarrow> None
      | i # rest \<Rightarrow> Some (fold (\<lambda>j best. if offs ! best < offs ! j then j else best) rest i))"

definition spec_location :: "source_info \<Rightarrow> int \<Rightarrow> source_location option" where
  "spec_location si expr_id =
     (case positions si expr_id of
        None \<Rightarrow> None
      | Some pos \<Rightarrow>
          (case spec_line_index (line_offsets si) pos of
             None \<Rightarrow> None
           | Some i \<Rightarrow> Some \<lparr>line = int i + 1, column = pos - (line_offsets si ! i) + 1\<rparr>))"

section \<open>The abstract syntax tree\<close>

text \<open>
  \<open>Expr\<close> of common/expr.h: an id and one of the expression kinds. The visitor keys its
  tables by \<open>const Expr*\<close>, so every node also carries the address \<open>addr\<close> of its object;
  address 0 is the static default instance that the accessors of an expression return for
  a kind it does not hold. A constant is modelled by its kind only (the checker reads
  nothing else of it).
\<close>

datatype cel_constant =
    UnspecifiedConstant
  | NullConstant
  | BoolConstant
  | IntConstant
  | UintConstant
  | DoubleConstant
  | BytesConstant
  | StringConstant
  | DurationConstant
  | TimestampConstant

datatype expr = Expr (addr: nat) (expr_id: int) (expr_kind: expr_kind)
and expr_kind =
    UnspecifiedExpr
  | ConstExpr cel_constant
  | IdentExpr string
  | SelectExpr expr string bool
  | CallExpr string "expr option" "expr list"
  | ListExpr "list_expr_element list"
  | StructExpr string "struct_expr_field list"
  | MapExpr "map_expr_entry list"
  | ComprehensionExpr string expr string expr expr expr expr
and list_expr_element = ListExprElement (element_expr: expr) (element_optional: bool)
and struct_expr_field =
  StructExprField (field_id: int) (field_name: string) (field_value: expr) (field_optional: bool)
and map_expr_entry =
  MapExprEntry (entry_id: int) (entry_key: expr) (entry_value: expr) (entry_optional: bool)

text \<open>
  \<open>SelectExpr operand field test_only\<close>, \<open>CallExpr function target args\<close> and
  \<open>ComprehensionExpr iter_var iter_range accu_var accu_init loop_condition loop_step result\<close>.
\<close>

definition default_expr :: expr where
  "default_expr = Expr 0 0 UnspecifiedExpr"

fun has_call_expr :: "expr \<Rightarrow> bool" where
  "has_call_expr (Expr a i (CallExpr f t args)) = True"
| "has_call_expr e = False"

fun has_select_expr :: "expr \<Rightarrow> bool" where
  "has_select_expr (Expr a i (SelectExpr operand field test_only)) = True"
| "has_select_expr e = False"

fun has_struct_expr :: "expr \<Rightarrow> bool" where
  "has_struct_expr (Expr a i (StructExpr n fs)) = True"
| "has_struct_expr e = False"

fun select_operand :: "expr \<Rightarrow> expr" where
  "select_operand (Expr a i (SelectExpr operand field test_only)) = operand"
| "select_operand e = default_expr"

fun select_field :: "expr \<Rightarrow> string" where
  "select_field (Expr a i (SelectExpr operand field test_only)) = field"
| "select_field e = []"

fun select_test_only :: "expr \<Rightarrow> bool" where
  "select_test_only (Expr a i (SelectExpr operand field test_only)) = test_only"
| "select_test_only e = False"

fun call_function :: "expr \<Rightarrow> string" where
  "call_function (Expr a i (CallExpr f t args)) = f"
| "call_function e = []"

fun call_has_target :: "expr \<Rightarrow> bool" where
  "call_has_target (Expr a i (CallExpr f (Some t) args)) = True"
| "call_has_target e = False"

fun call_target :: "expr \<Rightarrow> expr" where
  "call_target (Expr a i (CallExpr f (Some t) args)) = t"
| "call_target e = default_expr"

fun call_args :: "expr \<Rightarrow> expr list" where
  "call_args (Expr a i (CallExpr f t args)) = args"
| "call_args e = []"

text \<open>\<open>&parent->call_expr().target() == root_candidate\<close>: the target object is the candidate.\<close>

fun is_call_target :: "expr \<Rightarrow> expr \<Rightarrow> bool" where
  "is_call_target (Expr a i (CallExpr f (Some t) args)) root_candidate =
     (addr t = addr root_candidate)"
| "is_call_target parent root_candidate = False"

datatype comprehension_arg = ITER_RANGE | ACCU_INIT | LOOP_CONDITION | LOOP_STEP | RESULT

section \<open>Declarations, environment and collaborators\<close>

record variable_decl =
  var_name :: string
  var_type :: cel_type

record overload_decl =
  ovl_id :: string
  ovl_member :: bool
  ovl_args :: "cel_type list"
  ovl_result :: cel_type

record function_decl =
  fn_name :: string
  fn_overloads :: "overload_decl list"

record struct_type_field =
  stf_name :: string
  stf_type :: cel_type

definition MakeVariableDecl :: "string \<Rightarrow> cel_type \<Rightarrow> variable_decl" where
  "MakeVariableDecl n t = \<lparr>var_name = n, var_type = t\<rparr>"

text \<open>
  \<open>absl::Status\<close>: OK or an error with its message. \<open>Update\<close> keeps the first error.
  A \<open>StatusOr<T>\<close> is \<open>string + T\<close>, \<open>Inl\<close> the message of its error status.
\<close>

datatype status = OkStatus | ErrorStatus string

fun Update :: "status \<Rightarrow> status \<Rightarrow> status" where
  "Update OkStatus new_status = new_status"
| "Update (ErrorStatus m) new_status = ErrorStatus m"

definition InternalError :: "string \<Rightarrow> status" where
  "InternalError m = ErrorStatus m"

text \<open>
  \<open>TypeCheckEnv\<close> (checker/internal/type\_check\_env.h, not in the sources) is read through
  its lookups: the container, the declared variables and functions, the type names and
  the struct fields. The two type lookups can fail with a status.
\<close>

record type_check_env =
  container :: string
  env_LookupVariable :: "string \<Rightarrow> variable_decl option"
  LookupFunction :: "string \<Rightarrow> function_decl option"
  LookupTypeName :: "string \<Rightarrow> string + cel_type option"
  LookupStructField :: "string \<Rightarrow> string \<Rightarrow> string + struct_type_field option"

text \<open>
  \<open>NamespaceGenerator\<close> (not in the sources) calls its callback on one candidate after
  the other until the callback returns false; the candidates do not depend on what the
  callback answers, so a generator is the list of its candidates: for a name, and for a
  list of qualifiers with the index of the last qualifier segment each candidate ends at
  (an index below the length of the qualifier list).
\<close>

record namespace_generator =
  GenerateCandidates :: "string \<Rightarrow> string list"
  GenerateQualifiedCandidates :: "string list \<Rightarrow> (string \<times> nat) list"

record overload_resolution =
  result_type :: cel_type
  overloads :: "overload_decl list"

text \<open>
  The collaborators whose code is not in the sources are parameters of the model:
  \<open>TypeInferenceContext\<close> (its state is the type \<open>'c\<close>; \<open>InstantiateTypeParams\<close>,
  \<open>IsAssignable\<close> and \<open>ResolveOverload\<close> may change it), \<open>Type::DebugString\<close>,
  \<open>FunctionDecl::AddOverload\<close>, \<open>IsWellKnownMessageType\<close> and
  \<open>NamespaceGenerator::Create\<close>.
\<close>

record 'c collaborators =
  InstantiateTypeParams :: "cel_type \<Rightarrow> 'c \<Rightarrow> cel_type \<times> 'c"
  IsAssignable :: "cel_type \<Rightarrow> cel_type \<Rightarrow> 'c \<Rightarrow> bool \<times> 'c"
  ResolveOverload ::
    "function_decl \<Rightarrow> cel_type list \<Rightarrow> bool \<Rightarrow> 'c \<Rightarrow> overload_resolution option \<times> 'c"
  FinalizeType :: "cel_type \<Rightarrow> 'c \<Rightarrow> cel_type"
  DebugString :: "cel_type \<Rightarrow> string"
  AddOverload :: "overload_decl \<Rightarrow> function_decl \<Rightarrow> string + function_decl"
  IsWellKnownMessageType :: "string \<Rightarrow> bool"
  NamespaceGenerator_Create :: "string \<Rightarrow> string + namespace_generator"
  new_context :: 'c

text \<open>The members of \<open>ResolveVisitor\<close> that a traversal only reads.\<close>

record 'c resolve_visitor =
  collab :: "'c collaborators"
  generator :: namespace_generator
  env :: type_check_env
  ast_source_info :: source_info

section \<open>Issues\<close>

datatype severity = kError | kWarning

record type_check_issue =
  issue_severity :: severity
  issue_location :: source_location
  issue_message :: string

definition TypeCheckIssue :: "severity \<Rightarrow> source_location \<Rightarrow> string \<Rightarrow> type_check_issue" where
  "TypeCheckIssue sev loc msg =
     \<lparr>issue_severity = sev, issue_location = loc, issue_message = msg\<rparr>"

definition CreateError :: "source_location \<Rightarrow> string \<Rightarrow> type_check_issue" where
  "CreateError loc msg = TypeCheckIssue kError loc msg"

definition quote :: string where
  "quote = [CHR 0x27]"

fun StrJoin :: "string list \<Rightarrow> string \<Rightarrow> string" where
  "StrJoin [] sep = []"
| "StrJoin [x] sep = x"
| "StrJoin (x # y # ys) sep = x @ sep @ StrJoin (y # ys) sep"

definition FormatCandidate :: "string list \<Rightarrow> string" where
  "FormatCandidate qualifiers = StrJoin qualifiers ''.''"

section \<open>Variable scopes\<close>

text \<open>
  Modelled from the spec: \<open>VariableScope\<close> (checker/internal/type\_check\_env.h, not in the
  sources) is a chain (section 3): a node stores a mapping from names to declarations and
  a parent link, \<open>LookupVariable\<close> walks up and ends at the environment. The scope objects
  live in a store, \<open>root_scope_\<close> at index 0 followed by \<open>comprehension_vars_\<close>, and a
  \<open>VariableScope*\<close> is an index into it. A parent is created before its children, so the
  walk goes to smaller indices; it finds nothing at an index outside the store.
  A \<open>const VariableDecl*\<close> is the declaration together with the scope that owns it
  (\<open>None\<close> when the environment does).
\<close>

record variable_scope =
  variables :: "string \<rightharpoonup> variable_decl"
  parent_scope :: "nat option"

type_synonym variable_ref = "nat option \<times> variable_decl"

function LookupVariable ::
  "type_check_env \<Rightarrow> variable_scope list \<Rightarrow> nat \<Rightarrow> string \<Rightarrow> variable_ref option" where
  "LookupVariable E scs p n =
     (if p < length scs then
        (case variables (scs ! p) n of
           Some d \<Rightarrow> Some (Some p, d)
         | None \<Rightarrow>
             (case parent_scope (scs ! p) of
                Some q \<Rightarrow> (if q < p then LookupVariable E scs q n else None)
              | None \<Rightarrow>
                  (case env_LookupVariable E n of
                     Some d \<Rightarrow> Some (None, d)
                   | None \<Rightarrow> None)))
      else None)"
  by pat_completeness auto
termination
  by (relation "measure (\<lambda>(E, scs, p, n). p)") auto

declare LookupVariable.simps [simp del]

definition MakeVariableScope :: variable_scope where
  "MakeVariableScope = \<lparr>variables = Map.empty, parent_scope = None\<rparr>"

definition MakeNestedScope :: "nat \<Rightarrow> variable_scope" where
  "MakeNestedScope p = \<lparr>variables = Map.empty, parent_scope = Some p\<rparr>"

definition InsertVariableIfAbsent ::
  "variable_decl \<Rightarrow> nat \<Rightarrow> variable_scope list \<Rightarrow> variable_scope list" where
  "InsertVariableIfAbsent d p scs =
     (if p < length scs \<and> variables (scs ! p) (var_name d) = None
      then scs[p := (scs ! p)\<lparr>variables := (variables (scs ! p))(var_name d \<mapsto> d)\<rparr>]
      else scs)"

section \<open>The state of the resolving visitor\<close>

record function_resolution =
  decl :: function_decl
  namespace_rewrite :: bool

record comprehension_scope =
  comprehension_expr :: nat
  parent :: nat
  accu_scope :: nat
  iter_scope :: nat

text \<open>
  The members of \<open>ResolveVisitor\<close> that change during a traversal, with the inference
  context and the issue list it points to. The two vectors used as stacks,
  \<open>expr_stack_\<close> and \<open>comprehension_scopes_\<close>, have their back at the head of the list.
\<close>

record 'c visitor_state =
  inference_context :: 'c
  issues :: "type_check_issue list"
  current_scope :: nat
  expr_stack :: "expr list"
  maybe_namespaced_functions :: "nat \<rightharpoonup> string list"
  deferred_select_operations :: "nat set"
  status :: status
  scopes :: "variable_scope list"
  comprehension_scopes :: "comprehension_scope list"
  functions_map :: "nat \<rightharpoonup> function_resolution"
  attributes :: "nat \<rightharpoonup> variable_ref"
  struct_types :: "nat \<rightharpoonup> string"
  types :: "nat \<rightharpoonup> cel_type"

definition initial_state :: "'c \<Rightarrow> 'c visitor_state" where
  "initial_state c =
     \<lparr>inference_context = c, issues = [], current_scope = 0, expr_stack = [],
      maybe_namespaced_functions = Map.empty, deferred_select_operations = {},
      status = OkStatus, scopes = [MakeVariableScope], comprehension_scopes = [],
      functions_map = Map.empty, attributes = Map.empty, struct_types = Map.empty,
      types = Map.empty\<rparr>"

definition add_issue :: "type_check_issue \<Rightarrow> 'c visitor_state \<Rightarrow> 'c visitor_state" where
  "add_issue i s = s\<lparr>issues := issues s @ [i]\<rparr>"

definition GetTypeOrDyn :: "'c visitor_state \<Rightarrow> expr \<Rightarrow> cel_type" where
  "GetTypeOrDyn s e = (case types s (addr e) of Some t \<Rightarrow> t | None \<Rightarrow> DynType)"

definition PreVisitExpr :: "expr \<Rightarrow> 'c visitor_state \<Rightarrow> 'c visitor_state" where
  "PreVisitExpr e s = s\<lparr>expr_stack := e # expr_stack s\<rparr>"

definition PostVisitExpr :: "expr \<Rightarrow> 'c visitor_state \<Rightarrow> 'c visitor_state" where
  "PostVisitExpr e s =
     (case expr_stack s of [] \<Rightarrow> s | e' # rest \<Rightarrow> s\<lparr>expr_stack := rest\<rparr>)"

definition ReportMissingReference ::
  "'c resolve_visitor \<Rightarrow> expr \<Rightarrow> string \<Rightarrow> 'c visitor_state \<Rightarrow> 'c visitor_state" where
  "ReportMissingReference V e n s =
     add_issue
       (CreateError (ComputeSourceLocation (ast_source_info V) (expr_id e))
          (''undeclared reference to '' @ quote @ n @ quote @ '' (in container '' @ quote
             @ container (env V) @ quote @ '')''))
       s"

definition ReportUndefinedField ::
  "'c resolve_visitor \<Rightarrow> int \<Rightarrow> string \<Rightarrow> string \<Rightarrow> 'c visitor_state \<Rightarrow> 'c visitor_state" where
  "ReportUndefinedField V eid fname struct_name s =
     add_issue
       (CreateError (ComputeSourceLocation (ast_source_info V) eid)
          (''undefined field '' @ quote @ fname @ quote @ '' not found in struct '' @ quote
             @ struct_name @ quote))
       s"

section \<open>Select operations\<close>

text \<open>
  The lambda \<open>impl\<close> of \<open>ResolveSelectOperation\<close>: the type of the selected field, or
  nothing after an issue or a failed lookup.
\<close>

definition unsupported_operand ::
  "'c resolve_visitor \<Rightarrow> expr \<Rightarrow> cel_type \<Rightarrow> 'c visitor_state \<Rightarrow> 'c visitor_state" where
  "unsupported_operand V e operand_type s =
     add_issue
       (CreateError (ComputeSourceLocation (ast_source_info V) (expr_id e))
          (''expression of type '' @ quote @ DebugString (collab V) operand_type @ quote
             @ '' cannot be the operand of a select operation''))
       s"

fun select_impl ::
  "'c resolve_visitor \<Rightarrow> expr \<Rightarrow> string \<Rightarrow> cel_type \<Rightarrow> 'c visitor_state
     \<Rightarrow> cel_type option \<times> 'c visitor_state" where
  "select_impl V e field DynType s = (Some DynType, s)"
| "select_impl V e field AnyType s = (Some DynType, s)"
| "select_impl V e field (StructType struct_name) s =
     (case LookupStructField (env V) struct_name field of
        Inl err \<Rightarrow> (None, s\<lparr>status := Update (status s) (ErrorStatus err)\<rparr>)
      | Inr None \<Rightarrow> (None, ReportUndefinedField V (expr_id e) field struct_name s)
      | Inr (Some field_info) \<Rightarrow> (Some (stf_type field_info), s))"
| "select_impl V e field (MapType key_type value_type) s =
     (case IsAssignable (collab V) StringType key_type (inference_context s) of
        (True, c) \<Rightarrow> (Some value_type, s\<lparr>inference_context := c\<rparr>)
      | (False, c) \<Rightarrow>
          (None, unsupported_operand V e (MapType key_type value_type)
                   (s\<lparr>inference_context := c\<rparr>)))"
| "select_impl V e field operand_type s = (None, unsupported_operand V e operand_type s)"

definition ResolveSelectOperation ::
  "'c resolve_visitor \<Rightarrow> expr \<Rightarrow> string \<Rightarrow> expr \<Rightarrow> 'c visitor_state \<Rightarrow> 'c visitor_state" where
  "ResolveSelectOperation V e field operand s =
     (let operand_type = GetTypeOrDyn s operand in
      case (if IsOptional operand_type
            then select_impl V e field (GetOptionalParameter operand_type) s
            else select_impl V e field operand_type s) of
        (None, s1) \<Rightarrow> s1
      | (Some t, s1) \<Rightarrow>
          (if select_test_only e
           then s1\<lparr>types := (types s1)(addr e \<mapsto> BoolType)\<rparr>
           else s1\<lparr>types := (types s1)(addr e \<mapsto> t)\<rparr>))"

definition PostVisitSelect ::
  "'c resolve_visitor \<Rightarrow> expr \<Rightarrow> 'c visitor_state \<Rightarrow> 'c visitor_state" where
  "PostVisitSelect V e s =
     (if addr e \<notin> deferred_select_operations s
      then ResolveSelectOperation V e (select_field e) (select_operand e) s
      else s)"

section \<open>Identifiers\<close>

text \<open>
  A generator stops at the first candidate for which the callback returns false: here,
  the first candidate that the lookup finds.
\<close>

fun first_candidate :: "(string \<Rightarrow> 'a option) \<Rightarrow> string list \<Rightarrow> 'a option" where
  "first_candidate look [] = None"
| "first_candidate look (c # cs) =
     (case look c of Some d \<Rightarrow> Some d | None \<Rightarrow> first_candidate look cs)"

fun first_qualified_candidate ::
  "(string \<Rightarrow> 'a option) \<Rightarrow> (string \<times> nat) list \<Rightarrow> ('a \<times> nat) option" where
  "first_qualified_candidate look [] = None"
| "first_qualified_candidate look ((c, segment_index) # cs) =
     (case look c of
        Some d \<Rightarrow> Some (d, segment_index)
      | None \<Rightarrow> first_qualified_candidate look cs)"

definition ResolveSimpleIdentifier ::
  "'c resolve_visitor \<Rightarrow> expr \<Rightarrow> string \<Rightarrow> 'c visitor_state \<Rightarrow> 'c visitor_state" where
  "ResolveSimpleIdentifier V e n s =
     (case first_candidate (LookupVariable (env V) (scopes s) (current_scope s))
             (GenerateCandidates (generator V) n) of
        None \<Rightarrow> ReportMissingReference V e n s
      | Some d \<Rightarrow>
          (case InstantiateTypeParams (collab V) (var_type (snd d)) (inference_context s) of
             (t, c) \<Rightarrow>
               s\<lparr>inference_context := c,
                 attributes := (attributes s)(addr e \<mapsto> d),
                 types := (types s)(addr e \<mapsto> t)\<rparr>))"

text \<open>
  The first loop of \<open>ResolveQualifiedIdentifier\<close>: the select operations from \<open>expr\<close>
  down, outermost first, and the root below them.
\<close>

fun select_chain :: "nat \<Rightarrow> expr \<Rightarrow> expr list \<times> expr" where
  "select_chain 0 root = ([], root)"
| "select_chain (Suc k) root =
     (case select_chain k (select_operand root) of
        (select_opts, r) \<Rightarrow> (root # select_opts, r))"

fun resolve_selects ::
  "'c resolve_visitor \<Rightarrow> expr list \<Rightarrow> 'c visitor_state \<Rightarrow> 'c visitor_state" where
  "resolve_selects V [] s = s"
| "resolve_selects V (e # es) s =
     resolve_selects V es (ResolveSelectOperation V e (select_field e) (select_operand e) s)"

definition ResolveQualifiedIdentifier ::
  "'c resolve_visitor \<Rightarrow> expr \<Rightarrow> string list \<Rightarrow> 'c visitor_state \<Rightarrow> 'c visitor_state" where
  "ResolveQualifiedIdentifier V e qualifiers s =
     (if length qualifiers = 1 then ResolveSimpleIdentifier V e (qualifiers ! 0) s
      else
        (case first_qualified_candidate (LookupVariable (env V) (scopes s) (current_scope s))
                (GenerateQualifiedCandidates (generator V) qualifiers) of
           None \<Rightarrow> ReportMissingReference V e (FormatCandidate qualifiers) s
         | Some (d, segment_index_out) \<Rightarrow>
             (let num_select_opts = length qualifiers - segment_index_out - 1 in
              case select_chain num_select_opts e of
                (select_opts, root) \<Rightarrow>
                  (case InstantiateTypeParams (collab V) (var_type (snd d))
                          (inference_context s) of
                     (t, c) \<Rightarrow>
                       resolve_selects V (rev select_opts)
                         (s\<lparr>inference_context := c,
                            attributes := (attributes s)(addr root \<mapsto> d),
                            types := (types s)(addr root \<mapsto> t)\<rparr>)))))"

text \<open>
  The loop of \<open>PostVisitIdent\<close> over the parents of the identifier, nearest first. It
  returns the receiver call when it stops at one, the root candidate, the qualifiers and
  the deferred select operations.
\<close>

fun walk_up ::
  "expr list \<Rightarrow> expr \<Rightarrow> string list \<Rightarrow> nat set
     \<Rightarrow> expr option \<times> expr \<times> string list \<times> nat set" where
  "walk_up [] root_candidate qualifiers deferred =
     (None, root_candidate, qualifiers, deferred)"
| "walk_up (parent_expr # ancestors) root_candidate qualifiers deferred =
     (if has_call_expr parent_expr \<and> is_call_target parent_expr root_candidate
      then (Some parent_expr, root_candidate, qualifiers, deferred)
      else if \<not> has_select_expr parent_expr
      then (None, root_candidate, qualifiers, deferred)
      else if select_test_only parent_expr
      then (None, parent_expr, qualifiers @ [select_field parent_expr], insert (addr parent_expr) deferred)
      else walk_up ancestors parent_expr (qualifiers @ [select_field parent_expr])
             (insert (addr parent_expr) deferred))"

text \<open>
  With an empty \<open>expr_stack_\<close> the source reads \<open>expr_stack_[-1]\<close>; \<open>PreVisitExpr\<close> has
  pushed the identifier before, and the model leaves the state as it is there.
\<close>

definition PostVisitIdent ::
  "'c resolve_visitor \<Rightarrow> expr \<Rightarrow> string \<Rightarrow> 'c visitor_state \<Rightarrow> 'c visitor_state" where
  "PostVisitIdent V e ident_name s =
     (if length (expr_stack s) = 1 then ResolveSimpleIdentifier V e ident_name s
      else
        (case expr_stack s of
           [] \<Rightarrow> s
         | e' # parents \<Rightarrow>
             (case walk_up parents e' [ident_name] (deferred_select_operations s) of
                (None, root_candidate, qualifiers, deferred) \<Rightarrow>
                  ResolveQualifiedIdentifier V root_candidate qualifiers
                    (s\<lparr>deferred_select_operations := deferred\<rparr>)
              | (Some receiver_call, root_candidate, qualifiers, deferred) \<Rightarrow>
                  s\<lparr>deferred_select_operations := deferred,
                    maybe_namespaced_functions :=
                      (maybe_namespaced_functions s)(addr receiver_call \<mapsto> qualifiers)\<rparr>)))"

section \<open>Constants, lists and maps\<close>

text \<open>
  The default branch of \<open>PostVisitConst\<close> is reached by a constant that holds no value,
  the alternative of index 0.
\<close>

fun constant_type :: "cel_constant \<Rightarrow> cel_type option" where
  "constant_type NullConstant = Some NullType"
| "constant_type BoolConstant = Some BoolType"
| "constant_type IntConstant = Some IntType"
| "constant_type UintConstant = Some UintType"
| "constant_type DoubleConstant = Some DoubleType"
| "constant_type BytesConstant = Some BytesType"
| "constant_type StringConstant = Some StringType"
| "constant_type DurationConstant = Some DurationType"
| "constant_type TimestampConstant = Some TimestampType"
| "constant_type UnspecifiedConstant = None"

definition PostVisitConst ::
  "'c resolve_visitor \<Rightarrow> expr \<Rightarrow> cel_constant \<Rightarrow> 'c visitor_state \<Rightarrow> 'c visitor_state" where
  "PostVisitConst V e c s =
     (case constant_type c of
        Some t \<Rightarrow> s\<lparr>types := (types s)(addr e \<mapsto> t)\<rparr>
      | None \<Rightarrow>
          add_issue
            (CreateError (ComputeSourceLocation (ast_source_info V) (expr_id e))
               ''unsupported constant type: 0'')
            s)"

definition FreeListType :: cel_type where
  "FreeListType = ListType (TypeParamType ''element_type'')"

definition FreeMapType :: cel_type where
  "FreeMapType = MapType (TypeParamType ''key_type'') (TypeParamType ''value_type'')"

fun IsSupportedKeyType :: "cel_type \<Rightarrow> bool" where
  "IsSupportedKeyType BoolType = True"
| "IsSupportedKeyType IntType = True"
| "IsSupportedKeyType UintType = True"
| "IsSupportedKeyType StringType = True"
| "IsSupportedKeyType DynType = True"
| "IsSupportedKeyType t = False"

text \<open>
  One step of the widening that \<open>PostVisitMap\<close> and \<open>PostVisitList\<close> write out for
  \<open>overall_key_type\<close> and \<open>overall_value_type\<close>: the first type is kept, a different
  type turns the overall type into \<open>dyn\<close>.
\<close>

definition widen :: "cel_type option \<Rightarrow> cel_type \<Rightarrow> cel_type option" where
  "widen overall t =
     (case overall of
        Some overall_type \<Rightarrow> (if t \<noteq> overall_type then Some DynType else Some overall_type)
      | None \<Rightarrow> Some t)"

text \<open>An optional element or entry of optional type contributes the optional's parameter.\<close>

definition peel_optional :: "bool \<Rightarrow> cel_type \<Rightarrow> cel_type" where
  "peel_optional is_optional value_type =
     (if is_optional \<and> IsOptional value_type then GetOptionalParameter value_type
      else value_type)"

definition unsupported_key ::
  "'c resolve_visitor \<Rightarrow> expr \<Rightarrow> cel_type \<Rightarrow> type_check_issue" where
  "unsupported_key V key key_type =
     TypeCheckIssue kWarning (ComputeSourceLocation (ast_source_info V) (expr_id key))
       (''unsupported map key type: '' @ DebugString (collab V) key_type)"

text \<open>The key type and the value type that a map entry contributes.\<close>

definition entry_key_type :: "'c visitor_state \<Rightarrow> map_expr_entry \<Rightarrow> cel_type" where
  "entry_key_type s entry = GetTypeOrDyn s (entry_key entry)"

definition entry_value_type :: "'c visitor_state \<Rightarrow> map_expr_entry \<Rightarrow> cel_type" where
  "entry_value_type s entry =
     peel_optional (entry_optional entry) (GetTypeOrDyn s (entry_value entry))"

fun map_entries_loop ::
  "'c resolve_visitor \<Rightarrow> map_expr_entry list \<Rightarrow> cel_type option \<Rightarrow> cel_type option
     \<Rightarrow> 'c visitor_state \<Rightarrow> cel_type option \<times> cel_type option \<times> 'c visitor_state" where
  "map_entries_loop V [] overall_key_type overall_value_type s =
     (overall_key_type, overall_value_type, s)"
| "map_entries_loop V (entry # rest) overall_key_type overall_value_type s =
     (let key_type = entry_key_type s entry;
          s1 = (if \<not> IsSupportedKeyType key_type
                then add_issue (unsupported_key V (entry_key entry) key_type) s
                else s);
          value_type = entry_value_type s1 entry
      in map_entries_loop V rest (widen overall_key_type key_type)
           (widen overall_value_type value_type) s1)"

definition instantiate_type ::
  "'c resolve_visitor \<Rightarrow> expr \<Rightarrow> cel_type \<Rightarrow> 'c visitor_state \<Rightarrow> 'c visitor_state" where
  "instantiate_type V e t s =
     (case InstantiateTypeParams (collab V) t (inference_context s) of
        (t', c) \<Rightarrow> s\<lparr>inference_context := c, types := (types s)(addr e \<mapsto> t')\<rparr>)"

definition PostVisitMap ::
  "'c resolve_visitor \<Rightarrow> expr \<Rightarrow> map_expr_entry list \<Rightarrow> 'c visitor_state
     \<Rightarrow> 'c visitor_state" where
  "PostVisitMap V e entries s =
     (case map_entries_loop V entries None None s of
        (Some overall_key_type, Some overall_value_type, s1) \<Rightarrow>
          s1\<lparr>types := (types s1)(addr e \<mapsto> MapType overall_key_type overall_value_type)\<rparr>
      | (None, None, s1) \<Rightarrow> instantiate_type V e FreeMapType s1
      | (overall_key_type, overall_value_type, s1) \<Rightarrow>
          s1\<lparr>status := Update (status s1)
              (InternalError ''Map has mismatched key and value type inference resolution'')\<rparr>)"

text \<open>The type that a list element contributes.\<close>

definition element_type :: "'c visitor_state \<Rightarrow> list_expr_element \<Rightarrow> cel_type" where
  "element_type s element =
     peel_optional (element_optional element) (GetTypeOrDyn s (element_expr element))"

fun list_elements_loop ::
  "'c visitor_state \<Rightarrow> list_expr_element list \<Rightarrow> cel_type option \<Rightarrow> cel_type option" where
  "list_elements_loop s [] overall_value_type = overall_value_type"
| "list_elements_loop s (element # rest) overall_value_type =
     list_elements_loop s rest (widen overall_value_type (element_type s element))"

definition PostVisitList ::
  "'c resolve_visitor \<Rightarrow> expr \<Rightarrow> list_expr_element list \<Rightarrow> 'c visitor_state
     \<Rightarrow> 'c visitor_state" where
  "PostVisitList V e elements s =
     (case list_elements_loop s elements None of
        Some overall_value_type \<Rightarrow>
          s\<lparr>types := (types s)(addr e \<mapsto> ListType overall_value_type)\<rparr>
      | None \<Rightarrow> instantiate_type V e FreeListType s)"

section \<open>Struct creation\<close>

fun CheckFieldAssignments ::
  "'c resolve_visitor \<Rightarrow> struct_expr_field list \<Rightarrow> string \<Rightarrow> 'c visitor_state
     \<Rightarrow> status \<times> 'c visitor_state" where
  "CheckFieldAssignments V [] resolved_name s = (OkStatus, s)"
| "CheckFieldAssignments V (field # rest) resolved_name s =
     (let value_type = GetTypeOrDyn s (field_value field) in
      case LookupStructField (env V) resolved_name (field_name field) of
        Inl err \<Rightarrow> (ErrorStatus err, s)
      | Inr None \<Rightarrow>
          CheckFieldAssignments V rest resolved_name
            (ReportUndefinedField V (field_id field) (field_name field) resolved_name s)
      | Inr (Some field_info) \<Rightarrow>
          (let field_type =
                 (if field_optional field then OptionalType (stf_type field_info)
                  else stf_type field_info)
           in case IsAssignable (collab V) value_type field_type (inference_context s) of
                (True, c) \<Rightarrow>
                  CheckFieldAssignments V rest resolved_name (s\<lparr>inference_context := c\<rparr>)
              | (False, c) \<Rightarrow>
                  CheckFieldAssignments V rest resolved_name
                    (add_issue
                       (CreateError
                          (ComputeSourceLocation (ast_source_info V) (field_id field))
                          (''expected type of field '' @ quote @ stf_name field_info @ quote
                             @ '' is '' @ quote @ DebugString (collab V) field_type @ quote
                             @ '' but provided type is '' @ quote
                             @ DebugString (collab V) value_type @ quote))
                       (s\<lparr>inference_context := c\<rparr>))))"

text \<open>
  The callback of \<open>PostVisitStruct\<close> over the candidates: the status of a failed lookup,
  or the first candidate that names a type (the empty name and the default type when none
  does).
\<close>

fun lookup_type_candidates ::
  "type_check_env \<Rightarrow> string list \<Rightarrow> status \<times> string \<times> cel_type" where
  "lookup_type_candidates E [] = (OkStatus, [], DynType)"
| "lookup_type_candidates E (c # cs) =
     (case LookupTypeName E c of
        Inl err \<Rightarrow> (ErrorStatus err, [], DynType)
      | Inr (Some t) \<Rightarrow> (OkStatus, c, t)
      | Inr None \<Rightarrow> lookup_type_candidates E cs)"

definition PostVisitStruct ::
  "'c resolve_visitor \<Rightarrow> expr \<Rightarrow> string \<Rightarrow> struct_expr_field list \<Rightarrow> 'c visitor_state
     \<Rightarrow> 'c visitor_state" where
  "PostVisitStruct V e struct_name struct_fields s =
     (case lookup_type_candidates (env V) (GenerateCandidates (generator V) struct_name) of
        (st, resolved_name, resolved_type) \<Rightarrow>
          (if st \<noteq> OkStatus then s\<lparr>status := Update (status s) st\<rparr>
           else if resolved_name = [] then ReportMissingReference V e struct_name s
           else if kind resolved_type \<noteq> kStruct
                   \<and> \<not> IsWellKnownMessageType (collab V) resolved_name
           then add_issue
                  (CreateError (ComputeSourceLocation (ast_source_info V) (expr_id e))
                     (''type '' @ quote @ resolved_name @ quote
                        @ '' does not support message creation''))
                  s
           else
             (case CheckFieldAssignments V struct_fields resolved_name
                     (s\<lparr>types := (types s)(addr e \<mapsto> resolved_type),
                        struct_types := (struct_types s)(addr e \<mapsto> resolved_name)\<rparr>) of
                (st', s2) \<Rightarrow> s2\<lparr>status := Update (status s2) st'\<rparr>)))"

section \<open>Function calls\<close>

definition shape_matches :: "function_decl \<Rightarrow> nat \<Rightarrow> bool \<Rightarrow> bool" where
  "shape_matches fdecl arg_count is_receiver =
     list_ex (\<lambda>ovl. ovl_member ovl = is_receiver \<and> length (ovl_args ovl) = arg_count)
       (fn_overloads fdecl)"

fun call_shape_candidates ::
  "type_check_env \<Rightarrow> string list \<Rightarrow> nat \<Rightarrow> bool \<Rightarrow> function_decl option" where
  "call_shape_candidates E [] arg_count is_receiver = None"
| "call_shape_candidates E (candidate # cs) arg_count is_receiver =
     (case LookupFunction E candidate of
        None \<Rightarrow> call_shape_candidates E cs arg_count is_receiver
      | Some fdecl \<Rightarrow>
          (if shape_matches fdecl arg_count is_receiver then Some fdecl
           else call_shape_candidates E cs arg_count is_receiver))"

definition ResolveFunctionCallShape ::
  "'c resolve_visitor \<Rightarrow> string \<Rightarrow> nat \<Rightarrow> bool \<Rightarrow> function_decl option" where
  "ResolveFunctionCallShape V function_name arg_count is_receiver =
     call_shape_candidates (env V) (GenerateCandidates (generator V) function_name)
       arg_count is_receiver"

fun add_overloads ::
  "'c collaborators \<Rightarrow> overload_decl list \<Rightarrow> function_decl \<Rightarrow> status
     \<Rightarrow> function_decl \<times> status" where
  "add_overloads K [] result_decl st = (result_decl, st)"
| "add_overloads K (ovl # rest) result_decl st =
     (case AddOverload K ovl result_decl of
        Inl err \<Rightarrow>
          add_overloads K rest result_decl
            (Update st
               (InternalError
                  (''failed to add overload to resolved function declaration: '' @ err)))
      | Inr result_decl' \<Rightarrow> add_overloads K rest result_decl' st)"

definition call_arg_types :: "'c visitor_state \<Rightarrow> expr \<Rightarrow> bool \<Rightarrow> cel_type list" where
  "call_arg_types s e is_receiver =
     (if is_receiver then [GetTypeOrDyn s (call_target e)] else [])
       @ map (GetTypeOrDyn s) (call_args e)"

definition no_matching_overload ::
  "'c resolve_visitor \<Rightarrow> expr \<Rightarrow> function_decl \<Rightarrow> cel_type list \<Rightarrow> type_check_issue" where
  "no_matching_overload V e fdecl arg_types =
     CreateError (ComputeSourceLocation (ast_source_info V) (expr_id e))
       (''found no matching overload for '' @ quote @ fn_name fdecl @ quote
          @ '' applied to ('' @ StrJoin (map (DebugString (collab V)) arg_types) '', ''
          @ '')'')"

definition ResolveFunctionOverloads ::
  "'c resolve_visitor \<Rightarrow> expr \<Rightarrow> function_decl \<Rightarrow> nat \<Rightarrow> bool \<Rightarrow> bool \<Rightarrow> 'c visitor_state
     \<Rightarrow> 'c visitor_state" where
  "ResolveFunctionOverloads V e fdecl arg_count is_receiver is_namespaced s =
     (let arg_types = call_arg_types s e is_receiver in
      case ResolveOverload (collab V) fdecl arg_types is_receiver (inference_context s) of
        (None, c) \<Rightarrow>
          add_issue (no_matching_overload V e fdecl arg_types) (s\<lparr>inference_context := c\<rparr>)
      | (Some resolution, c) \<Rightarrow>
          (case add_overloads (collab V) (overloads resolution)
                  \<lparr>fn_name = fn_name fdecl, fn_overloads = []\<rparr> (status s) of
             (result_decl, st) \<Rightarrow>
               s\<lparr>inference_context := c,
                 status := st,
                 functions_map := (functions_map s)(addr e \<mapsto>
                   \<lparr>decl = result_decl, namespace_rewrite = is_namespaced\<rparr>),
                 types := (types s)(addr e \<mapsto> result_type resolution)\<rparr>))"

text \<open>The part of \<open>PostVisitCall\<close> after the disambiguation of namespaced functions.\<close>

definition resolve_call ::
  "'c resolve_visitor \<Rightarrow> expr \<Rightarrow> 'c visitor_state \<Rightarrow> 'c visitor_state" where
  "resolve_call V e s =
     (let arg_count = length (call_args e) + (if call_has_target e then 1 else 0) in
      case ResolveFunctionCallShape V (call_function e) arg_count (call_has_target e) of
        Some fdecl \<Rightarrow>
          ResolveFunctionOverloads V e fdecl arg_count (call_has_target e) False s
      | None \<Rightarrow> ReportMissingReference V e (call_function e) s)"

definition PostVisitCall ::
  "'c resolve_visitor \<Rightarrow> expr \<Rightarrow> 'c visitor_state \<Rightarrow> 'c visitor_state" where
  "PostVisitCall V e s =
     (case maybe_namespaced_functions s (addr e) of
        Some qualifiers \<Rightarrow>
          (let namespaced_name = FormatCandidate qualifiers @ ''.'' @ call_function e in
           case ResolveFunctionCallShape V namespaced_name (length (call_args e)) False of
             Some fdecl \<Rightarrow>
               ResolveFunctionOverloads V e fdecl (length (call_args e)) False True s
           | None \<Rightarrow>
               resolve_call V e (ResolveQualifiedIdentifier V (call_target e) qualifiers s))
      | None \<Rightarrow> resolve_call V e s)"

section \<open>Comprehensions\<close>

fun iter_var :: "expr \<Rightarrow> string" where
  "iter_var (Expr a i (ComprehensionExpr iv ir av ai lc ls r)) = iv"
| "iter_var e = []"

fun iter_range :: "expr \<Rightarrow> expr" where
  "iter_range (Expr a i (ComprehensionExpr iv ir av ai lc ls r)) = ir"
| "iter_range e = default_expr"

fun accu_var :: "expr \<Rightarrow> string" where
  "accu_var (Expr a i (ComprehensionExpr iv ir av ai lc ls r)) = av"
| "accu_var e = []"

fun accu_init :: "expr \<Rightarrow> expr" where
  "accu_init (Expr a i (ComprehensionExpr iv ir av ai lc ls r)) = ai"
| "accu_init e = default_expr"

fun comprehension_result :: "expr \<Rightarrow> expr" where
  "comprehension_result (Expr a i (ComprehensionExpr iv ir av ai lc ls r)) = r"
| "comprehension_result e = default_expr"

fun loop_condition :: "expr \<Rightarrow> expr" where
  "loop_condition (Expr a i (ComprehensionExpr iv ir av ai lc ls r)) = lc"
| "loop_condition e = default_expr"

fun loop_step :: "expr \<Rightarrow> expr" where
  "loop_step (Expr a i (ComprehensionExpr iv ir av ai lc ls r)) = ls"
| "loop_step e = default_expr"

definition PreVisitComprehension ::
  "'c resolve_visitor \<Rightarrow> expr \<Rightarrow> 'c visitor_state \<Rightarrow> 'c visitor_state" where
  "PreVisitComprehension V e s =
     (let accu_scope_ptr = length (scopes s);
          iter_scope_ptr = Suc (length (scopes s))
      in s\<lparr>scopes :=
             scopes s @ [MakeNestedScope (current_scope s), MakeNestedScope accu_scope_ptr],
           comprehension_scopes :=
             \<lparr>comprehension_expr = addr e, parent = current_scope s,
              accu_scope = accu_scope_ptr, iter_scope = iter_scope_ptr\<rparr>
             # comprehension_scopes s\<rparr>)"

text \<open>
  \<open>pop_back\<close> on an empty \<open>comprehension_scopes_\<close> is undefined in the source;
  \<open>PreVisitComprehension\<close> has pushed before, and the model leaves the empty stack empty.
\<close>

definition PostVisitComprehension ::
  "'c resolve_visitor \<Rightarrow> expr \<Rightarrow> 'c visitor_state \<Rightarrow> 'c visitor_state" where
  "PostVisitComprehension V e s =
     s\<lparr>comprehension_scopes := tl (comprehension_scopes s),
       types := (types s)(addr e \<mapsto> GetTypeOrDyn s (comprehension_result e))\<rparr>"

definition scope_for :: "comprehension_arg \<Rightarrow> comprehension_scope \<Rightarrow> nat" where
  "scope_for arg scope =
     (case arg of
        LOOP_CONDITION \<Rightarrow> accu_scope scope
      | LOOP_STEP \<Rightarrow> iter_scope scope
      | RESULT \<Rightarrow> accu_scope scope
      | _ \<Rightarrow> parent scope)"

definition PreVisitComprehensionSubexpression ::
  "'c resolve_visitor \<Rightarrow> expr \<Rightarrow> comprehension_arg \<Rightarrow> 'c visitor_state \<Rightarrow> 'c visitor_state"
  where
  "PreVisitComprehensionSubexpression V e arg s =
     (case comprehension_scopes s of
        [] \<Rightarrow>
          s\<lparr>status := Update (status s)
              (InternalError ''Comprehension scope stack is empty in comprehension'')\<rparr>
      | scope # rest \<Rightarrow>
          (if comprehension_expr scope \<noteq> addr e
           then s\<lparr>status := Update (status s)
                   (InternalError ''Comprehension scope stack broken'')\<rparr>
           else s\<lparr>current_scope := scope_for arg scope\<rparr>))"

text \<open>
  The switch of \<open>PostVisitComprehensionSubexpression\<close> on the kind of the range type:
  the type of the iteration variable, or nothing for a range that is no list, map or dyn.
\<close>

fun range_iter_type :: "cel_type \<Rightarrow> cel_type option" where
  "range_iter_type (ListType element) = Some element"
| "range_iter_type (MapType key_type value_type) = Some key_type"
| "range_iter_type DynType = Some DynType"
| "range_iter_type t = None"

definition unsupported_range ::
  "'c resolve_visitor \<Rightarrow> expr \<Rightarrow> cel_type \<Rightarrow> type_check_issue" where
  "unsupported_range V e range_type =
     CreateError (ComputeSourceLocation (ast_source_info V) (expr_id e))
       (''expression of type '' @ quote @ DebugString (collab V) range_type @ quote
          @ '' cannot be the range of a comprehension (must be list, map, or dynamic)'')"

definition PostVisitComprehensionSubexpression ::
  "'c resolve_visitor \<Rightarrow> expr \<Rightarrow> comprehension_arg \<Rightarrow> 'c visitor_state \<Rightarrow> 'c visitor_state"
  where
  "PostVisitComprehensionSubexpression V e arg s =
     (case comprehension_scopes s of
        [] \<Rightarrow>
          s\<lparr>status := Update (status s)
              (InternalError ''Comprehension scope stack is empty in comprehension'')\<rparr>
      | scope # rest \<Rightarrow>
          (if comprehension_expr scope \<noteq> addr e
           then s\<lparr>status := Update (status s)
                   (InternalError ''Comprehension scope stack broken'')\<rparr>
           else
             (let s1 = s\<lparr>current_scope := parent scope\<rparr> in
              case arg of
                ACCU_INIT \<Rightarrow>
                  s1\<lparr>scopes :=
                       InsertVariableIfAbsent
                         (MakeVariableDecl (accu_var e) (GetTypeOrDyn s1 (accu_init e)))
                         (accu_scope scope) (scopes s1)\<rparr>
              | ITER_RANGE \<Rightarrow>
                  (let range_type = GetTypeOrDyn s1 (iter_range e);
                       s2 = (case range_iter_type range_type of
                               Some t \<Rightarrow> s1
                             | None \<Rightarrow> add_issue (unsupported_range V e range_type) s1);
                       iter_type = (case range_iter_type range_type of
                                      Some t \<Rightarrow> t
                                    | None \<Rightarrow> DynType)
                   in s2\<lparr>scopes :=
                          InsertVariableIfAbsent (MakeVariableDecl (iter_var e) iter_type)
                            (iter_scope scope) (scopes s2)\<rparr>)
              | RESULT \<Rightarrow> s1\<lparr>types := (types s1)(addr e \<mapsto> GetTypeOrDyn s1 e)\<rparr>
              | _ \<Rightarrow> s1)))"

section \<open>The traversal\<close>

text \<open>
  Modelled from the spec: \<open>AstTraverse\<close> (common/ast\_traverse, not in the sources) with
  \<open>use_comprehension_callbacks\<close>. The traversal is post-order with pre and post hooks
  (sections 4.7 and 9): an expression is pushed by \<open>PreVisitExpr\<close>, its children are
  visited in the order of the source text (the operand of a select; the target of a call,
  then its arguments; the elements of a list; the values of the fields of a struct; key
  and value of each map entry; of a comprehension the range, the initial accumulator, the
  loop condition, the loop step and the result, each between its two subexpression
  hooks), then its own post hook and \<open>PostVisitExpr\<close> run.
\<close>

fun traverse :: "'c resolve_visitor \<Rightarrow> expr \<Rightarrow> 'c visitor_state \<Rightarrow> 'c visitor_state"
and traverse_kind ::
  "'c resolve_visitor \<Rightarrow> expr \<Rightarrow> expr_kind \<Rightarrow> 'c visitor_state \<Rightarrow> 'c visitor_state"
and traverse_exprs :: "'c resolve_visitor \<Rightarrow> expr list \<Rightarrow> 'c visitor_state \<Rightarrow> 'c visitor_state"
and traverse_elements ::
  "'c resolve_visitor \<Rightarrow> list_expr_element list \<Rightarrow> 'c visitor_state \<Rightarrow> 'c visitor_state"
and traverse_fields ::
  "'c resolve_visitor \<Rightarrow> struct_expr_field list \<Rightarrow> 'c visitor_state \<Rightarrow> 'c visitor_state"
and traverse_entries ::
  "'c resolve_visitor \<Rightarrow> map_expr_entry list \<Rightarrow> 'c visitor_state \<Rightarrow> 'c visitor_state"
where
  "traverse V (Expr a i k) s =
     PostVisitExpr (Expr a i k) (traverse_kind V (Expr a i k) k (PreVisitExpr (Expr a i k) s))"
| "traverse_kind V e UnspecifiedExpr s = s"
| "traverse_kind V e (ConstExpr c) s = PostVisitConst V e c s"
| "traverse_kind V e (IdentExpr n) s = PostVisitIdent V e n s"
| "traverse_kind V e (SelectExpr operand field test_only) s =
     PostVisitSelect V e (traverse V operand s)"
| "traverse_kind V e (CallExpr f None args) s = PostVisitCall V e (traverse_exprs V args s)"
| "traverse_kind V e (CallExpr f (Some target) args) s =
     PostVisitCall V e (traverse_exprs V args (traverse V target s))"
| "traverse_kind V e (ListExpr elements) s =
     PostVisitList V e elements (traverse_elements V elements s)"
| "traverse_kind V e (StructExpr n struct_fields) s =
     PostVisitStruct V e n struct_fields (traverse_fields V struct_fields s)"
| "traverse_kind V e (MapExpr entries) s =
     PostVisitMap V e entries (traverse_entries V entries s)"
| "traverse_kind V e (ComprehensionExpr iv ir av ai lc ls r) s =
     PostVisitComprehension V e
       (PostVisitComprehensionSubexpression V e RESULT
         (traverse V r
           (PreVisitComprehensionSubexpression V e RESULT
             (PostVisitComprehensionSubexpression V e LOOP_STEP
               (traverse V ls
                 (PreVisitComprehensionSubexpression V e LOOP_STEP
                   (PostVisitComprehensionSubexpression V e LOOP_CONDITION
                     (traverse V lc
                       (PreVisitComprehensionSubexpression V e LOOP_CONDITION
                         (PostVisitComprehensionSubexpression V e ACCU_INIT
                           (traverse V ai
                             (PreVisitComprehensionSubexpression V e ACCU_INIT
                               (PostVisitComprehensionSubexpression V e ITER_RANGE
                                 (traverse V ir
                                   (PreVisitComprehensionSubexpression V e ITER_RANGE
                                     (PreVisitComprehension V e s))))))))))))))))"
| "traverse_exprs V [] s = s"
| "traverse_exprs V (x # xs) s = traverse_exprs V xs (traverse V x s)"
| "traverse_elements V [] s = s"
| "traverse_elements V (ListExprElement x opt # xs) s =
     traverse_elements V xs (traverse V x s)"
| "traverse_fields V [] s = s"
| "traverse_fields V (StructExprField fid fname x opt # xs) s =
     traverse_fields V xs (traverse V x s)"
| "traverse_entries V [] s = s"
| "traverse_entries V (MapExprEntry eid key val opt # xs) s =
     traverse_entries V xs (traverse V val (traverse V key s))"

section \<open>Flattened types\<close>

text \<open>
  \<open>ast_internal::Type\<close> (base/ast\_internal/expr.h, not in the sources): the flattened
  form of a type in the checked AST, section 6 of the specification.
\<close>

datatype primitive_type = kPrimBool | kPrimInt64 | kPrimUint64 | kPrimDouble | kPrimString | kPrimBytes

datatype well_known_type = kWktAny | kWktDuration | kWktTimestamp

datatype ast_type =
    AstUnspecified
  | AstDynamicType
  | AstErrorType
  | AstNullValue
  | AstPrimitiveType primitive_type
  | AstPrimitiveTypeWrapper primitive_type
  | AstWellKnownType well_known_type
  | AstListType ast_type
  | AstMapType ast_type ast_type
  | AstMessageType string
  | AstAbstractType string "ast_type list"
  | AstTypeOfType ast_type

definition unsupported_type :: "(cel_type \<Rightarrow> string) \<Rightarrow> cel_type \<Rightarrow> string + ast_type" where
  "unsupported_type debug_string t = Inl (''Unsupported type: '' @ debug_string t)"

fun FlattenType :: "(cel_type \<Rightarrow> string) \<Rightarrow> cel_type \<Rightarrow> string + ast_type"
and FlattenTypes :: "(cel_type \<Rightarrow> string) \<Rightarrow> cel_type list \<Rightarrow> string + ast_type list"
where
  "FlattenType ds DynType = Inr AstDynamicType"
| "FlattenType ds ErrorType = Inr AstErrorType"
| "FlattenType ds NullType = Inr AstNullValue"
| "FlattenType ds BoolType = Inr (AstPrimitiveType kPrimBool)"
| "FlattenType ds IntType = Inr (AstPrimitiveType kPrimInt64)"
| "FlattenType ds UintType = Inr (AstPrimitiveType kPrimUint64)"
| "FlattenType ds DoubleType = Inr (AstPrimitiveType kPrimDouble)"
| "FlattenType ds StringType = Inr (AstPrimitiveType kPrimString)"
| "FlattenType ds BytesType = Inr (AstPrimitiveType kPrimBytes)"
| "FlattenType ds DurationType = Inr (AstWellKnownType kWktDuration)"
| "FlattenType ds TimestampType = Inr (AstWellKnownType kWktTimestamp)"
| "FlattenType ds (StructType n) = Inr (AstMessageType n)"
| "FlattenType ds (ListType element) =
     (case FlattenType ds element of
        Inl err \<Rightarrow> Inl err
      | Inr elem \<Rightarrow> Inr (AstListType elem))"
| "FlattenType ds (MapType key_type value_type) =
     (case FlattenType ds key_type of
        Inl err \<Rightarrow> Inl err
      | Inr k \<Rightarrow>
          (case FlattenType ds value_type of
             Inl err \<Rightarrow> Inl err
           | Inr v \<Rightarrow> Inr (AstMapType k v)))"
| "FlattenType ds (OpaqueType n ps) =
     (case FlattenTypes ds ps of
        Inl err \<Rightarrow> Inl err
      | Inr parameter_types \<Rightarrow> Inr (AstAbstractType n parameter_types))"
| "FlattenType ds BoolWrapperType = Inr (AstPrimitiveTypeWrapper kPrimBool)"
| "FlattenType ds IntWrapperType = Inr (AstPrimitiveTypeWrapper kPrimInt64)"
| "FlattenType ds UintWrapperType = Inr (AstPrimitiveTypeWrapper kPrimUint64)"
| "FlattenType ds DoubleWrapperType = Inr (AstPrimitiveTypeWrapper kPrimDouble)"
| "FlattenType ds StringWrapperType = Inr (AstPrimitiveTypeWrapper kPrimString)"
| "FlattenType ds BytesWrapperType = Inr (AstPrimitiveTypeWrapper kPrimBytes)"
| "FlattenType ds (TypeParamType n) = Inr AstDynamicType"
| "FlattenType ds (TypeType []) = Inr (AstTypeOfType AstUnspecified)"
| "FlattenType ds (TypeType [p]) =
     (case FlattenType ds p of
        Inl err \<Rightarrow> Inl err
      | Inr param \<Rightarrow> Inr (AstTypeOfType param))"
| "FlattenType ds (TypeType (p # q # ps)) = unsupported_type ds (TypeType (p # q # ps))"
| "FlattenType ds AnyType = Inr (AstWellKnownType kWktAny)"
| "FlattenType ds (FunctionType r ps) = unsupported_type ds (FunctionType r ps)"
| "FlattenType ds (EnumType n) = unsupported_type ds (EnumType n)"
| "FlattenType ds UnknownType = unsupported_type ds UnknownType"
| "FlattenTypes ds [] = Inr []"
| "FlattenTypes ds (p # ps) =
     (case FlattenType ds p of
        Inl err \<Rightarrow> Inl err
      | Inr param_type \<Rightarrow>
          (case FlattenTypes ds ps of
             Inl err \<Rightarrow> Inl err
           | Inr parameter_types \<Rightarrow> Inr (param_type # parameter_types)))"

section \<open>The rewriter\<close>

record reference =
  ref_name :: string
  ref_overload_id :: "string list"

record rewriter_state =
  rw_status :: status
  rw_reference_map :: "int \<rightharpoonup> reference"
  rw_type_map :: "int \<rightharpoonup> ast_type"

text \<open>\<open>reference_map_[expr.id()]\<close> makes an empty reference where the map has none.\<close>

definition reference_at :: "rewriter_state \<Rightarrow> int \<Rightarrow> reference" where
  "reference_at rs i =
     (case rw_reference_map rs i of
        Some r \<Rightarrow> r
      | None \<Rightarrow> \<lparr>ref_name = [], ref_overload_id = []\<rparr>)"

text \<open>
  The mutable accessors of \<open>Expr\<close>: \<open>mutable_ident_expr\<close> and \<open>mutable_call_expr\<close> give
  the expression that kind, empty, when it holds another one.
\<close>

fun set_ident_name :: "string \<Rightarrow> expr \<Rightarrow> expr" where
  "set_ident_name n (Expr a i k) = Expr a i (IdentExpr n)"

fun set_call_function :: "string \<Rightarrow> expr \<Rightarrow> expr" where
  "set_call_function n (Expr a i (CallExpr f t args)) = Expr a i (CallExpr n t args)"
| "set_call_function n (Expr a i k) = Expr a i (CallExpr n None [])"

fun clear_call_target :: "expr \<Rightarrow> expr" where
  "clear_call_target (Expr a i (CallExpr f t args)) = Expr a i (CallExpr f None args)"
| "clear_call_target e = e"

fun set_struct_name :: "string \<Rightarrow> expr \<Rightarrow> expr" where
  "set_struct_name n (Expr a i (StructExpr m fs)) = Expr a i (StructExpr n fs)"
| "set_struct_name n e = e"

text \<open>
  \<open>ResolveRewriter::PostVisitRewrite\<close>, first the reference of the expression and then
  its type. The rewritten expression and the state of the rewriter are returned; the
  boolean result of the source, which \<open>Check\<close> does not read, is left out.
\<close>

definition rewrite_reference ::
  "'c visitor_state \<Rightarrow> expr \<Rightarrow> rewriter_state \<Rightarrow> expr \<times> rewriter_state" where
  "rewrite_reference vs e rs =
     (case attributes vs (addr e) of
        Some d \<Rightarrow>
          (set_ident_name (var_name (snd d)) e,
           rs\<lparr>rw_reference_map := (rw_reference_map rs)(expr_id e \<mapsto>
                (reference_at rs (expr_id e))\<lparr>ref_name := var_name (snd d)\<rparr>)\<rparr>)
      | None \<Rightarrow>
          (case functions_map vs (addr e) of
             Some fr \<Rightarrow>
               (let e1 = set_call_function (fn_name (decl fr)) e in
                (if namespace_rewrite fr \<and> call_has_target e1 then clear_call_target e1
                 else e1,
                 rs\<lparr>rw_reference_map := (rw_reference_map rs)(expr_id e \<mapsto>
                      \<lparr>ref_name = fn_name (decl fr),
                       ref_overload_id =
                         ref_overload_id (reference_at rs (expr_id e))
                           @ map ovl_id (fn_overloads (decl fr))\<rparr>)\<rparr>))
           | None \<Rightarrow>
               (case struct_types vs (addr e) of
                  Some n \<Rightarrow>
                    (if has_struct_expr e then set_struct_name n e else e,
                     rs\<lparr>rw_reference_map := (rw_reference_map rs)(expr_id e \<mapsto>
                          (reference_at rs (expr_id e))\<lparr>ref_name := n\<rparr>)\<rparr>)
                | None \<Rightarrow> (e, rs))))"

definition PostVisitRewrite ::
  "'c collaborators \<Rightarrow> 'c visitor_state \<Rightarrow> expr \<Rightarrow> rewriter_state \<Rightarrow> expr \<times> rewriter_state"
  where
  "PostVisitRewrite K vs e rs =
     (case rewrite_reference vs e rs of
        (e1, rs1) \<Rightarrow>
          (case types vs (addr e) of
             None \<Rightarrow> (e1, rs1)
           | Some t \<Rightarrow>
               (case FlattenType (DebugString K) (FinalizeType K t (inference_context vs)) of
                  Inl err \<Rightarrow> (e1, rs1\<lparr>rw_status := Update (rw_status rs1) (ErrorStatus err)\<rparr>)
                | Inr flattened_type \<Rightarrow>
                    (e1, rs1\<lparr>rw_type_map := (rw_type_map rs1)(expr_id e \<mapsto> flattened_type)\<rparr>))))"

text \<open>
  Modelled from the spec: \<open>AstRewrite\<close> (common/ast\_rewrite, not in the sources) walks the
  AST in post-order (section 4.8: the rewriter writes back for every node), the children
  in the order of the traversal, and calls \<open>PostVisitRewrite\<close> on a node after its
  children.
\<close>

fun AstRewrite ::
  "'c collaborators \<Rightarrow> 'c visitor_state \<Rightarrow> expr \<Rightarrow> rewriter_state \<Rightarrow> expr \<times> rewriter_state"
and rewrite_kind ::
  "'c collaborators \<Rightarrow> 'c visitor_state \<Rightarrow> expr_kind \<Rightarrow> rewriter_state
     \<Rightarrow> expr_kind \<times> rewriter_state"
and rewrite_exprs ::
  "'c collaborators \<Rightarrow> 'c visitor_state \<Rightarrow> expr list \<Rightarrow> rewriter_state
     \<Rightarrow> expr list \<times> rewriter_state"
and rewrite_elements ::
  "'c collaborators \<Rightarrow> 'c visitor_state \<Rightarrow> list_expr_element list \<Rightarrow> rewriter_state
     \<Rightarrow> list_expr_element list \<times> rewriter_state"
and rewrite_fields ::
  "'c collaborators \<Rightarrow> 'c visitor_state \<Rightarrow> struct_expr_field list \<Rightarrow> rewriter_state
     \<Rightarrow> struct_expr_field list \<times> rewriter_state"
and rewrite_entries ::
  "'c collaborators \<Rightarrow> 'c visitor_state \<Rightarrow> map_expr_entry list \<Rightarrow> rewriter_state
     \<Rightarrow> map_expr_entry list \<times> rewriter_state"
where
  "AstRewrite K vs (Expr a i k) rs =
     (case rewrite_kind K vs k rs of (k', rs1) \<Rightarrow> PostVisitRewrite K vs (Expr a i k') rs1)"
| "rewrite_kind K vs UnspecifiedExpr rs = (UnspecifiedExpr, rs)"
| "rewrite_kind K vs (ConstExpr c) rs = (ConstExpr c, rs)"
| "rewrite_kind K vs (IdentExpr n) rs = (IdentExpr n, rs)"
| "rewrite_kind K vs (SelectExpr operand field test_only) rs =
     (case AstRewrite K vs operand rs of
        (operand', rs1) \<Rightarrow> (SelectExpr operand' field test_only, rs1))"
| "rewrite_kind K vs (CallExpr f None args) rs =
     (case rewrite_exprs K vs args rs of (args', rs1) \<Rightarrow> (CallExpr f None args', rs1))"
| "rewrite_kind K vs (CallExpr f (Some target) args) rs =
     (case AstRewrite K vs target rs of
        (target', rs1) \<Rightarrow>
          (case rewrite_exprs K vs args rs1 of
             (args', rs2) \<Rightarrow> (CallExpr f (Some target') args', rs2)))"
| "rewrite_kind K vs (ListExpr elements) rs =
     (case rewrite_elements K vs elements rs of
        (elements', rs1) \<Rightarrow> (ListExpr elements', rs1))"
| "rewrite_kind K vs (StructExpr n struct_fields) rs =
     (case rewrite_fields K vs struct_fields rs of
        (struct_fields', rs1) \<Rightarrow> (StructExpr n struct_fields', rs1))"
| "rewrite_kind K vs (MapExpr entries) rs =
     (case rewrite_entries K vs entries rs of (entries', rs1) \<Rightarrow> (MapExpr entries', rs1))"
| "rewrite_kind K vs (ComprehensionExpr iv ir av ai lc ls r) rs =
     (case AstRewrite K vs ir rs of
        (ir', rs1) \<Rightarrow>
          (case AstRewrite K vs ai rs1 of
             (ai', rs2) \<Rightarrow>
               (case AstRewrite K vs lc rs2 of
                  (lc', rs3) \<Rightarrow>
                    (case AstRewrite K vs ls rs3 of
                       (ls', rs4) \<Rightarrow>
                         (case AstRewrite K vs r rs4 of
                            (r', rs5) \<Rightarrow>
                              (ComprehensionExpr iv ir' av ai' lc' ls' r', rs5))))))"
| "rewrite_exprs K vs [] rs = ([], rs)"
| "rewrite_exprs K vs (x # xs) rs =
     (case AstRewrite K vs x rs of
        (x', rs1) \<Rightarrow> (case rewrite_exprs K vs xs rs1 of (xs', rs2) \<Rightarrow> (x' # xs', rs2)))"
| "rewrite_elements K vs [] rs = ([], rs)"
| "rewrite_elements K vs (ListExprElement x opt # xs) rs =
     (case AstRewrite K vs x rs of
        (x', rs1) \<Rightarrow>
          (case rewrite_elements K vs xs rs1 of
             (xs', rs2) \<Rightarrow> (ListExprElement x' opt # xs', rs2)))"
| "rewrite_fields K vs [] rs = ([], rs)"
| "rewrite_fields K vs (StructExprField fid fname x opt # xs) rs =
     (case AstRewrite K vs x rs of
        (x', rs1) \<Rightarrow>
          (case rewrite_fields K vs xs rs1 of
             (xs', rs2) \<Rightarrow> (StructExprField fid fname x' opt # xs', rs2)))"
| "rewrite_entries K vs [] rs = ([], rs)"
| "rewrite_entries K vs (MapExprEntry eid key val opt # xs) rs =
     (case AstRewrite K vs key rs of
        (key', rs1) \<Rightarrow>
          (case AstRewrite K vs val rs1 of
             (val', rs2) \<Rightarrow>
               (case rewrite_entries K vs xs rs2 of
                  (xs', rs3) \<Rightarrow> (MapExprEntry eid key' val' opt # xs', rs3))))"

section \<open>The type checker\<close>

text \<open>
  \<open>AstImpl\<close> and \<open>ValidationResult\<close> (checker/validation\_result.h, not in the sources):
  a result holds the issues and, when the check went through, the checked AST.
\<close>

record ast_impl =
  root_expr :: expr
  source_info :: source_info
  reference_map :: "int \<rightharpoonup> reference"
  type_map :: "int \<rightharpoonup> ast_type"
  is_checked :: bool

record validation_result =
  result_ast :: "ast_impl option"
  result_issues :: "type_check_issue list"

definition make_visitor ::
  "'c collaborators \<Rightarrow> namespace_generator \<Rightarrow> type_check_env \<Rightarrow> ast_impl
     \<Rightarrow> 'c resolve_visitor" where
  "make_visitor K gen E ast =
     \<lparr>collab = K, generator = gen, env = E, ast_source_info = source_info ast\<rparr>"

definition has_error :: "type_check_issue list \<Rightarrow> bool" where
  "has_error is = list_ex (\<lambda>issue. issue_severity issue = kError) is"

text \<open>
  \<open>TypeCheckerImpl::Check\<close>. \<open>Inl\<close> is the error status that \<open>CEL_ASSIGN_OR_RETURN\<close> and
  \<open>CEL_RETURN_IF_ERROR\<close> return.
\<close>

definition Check ::
  "'c collaborators \<Rightarrow> type_check_env \<Rightarrow> ast_impl \<Rightarrow> string + validation_result" where
  "Check K E ast =
     (case NamespaceGenerator_Create K (container E) of
        Inl err \<Rightarrow> Inl err
      | Inr gen \<Rightarrow>
          (let vs = traverse (make_visitor K gen E ast) (root_expr ast)
                      (initial_state (new_context K))
           in case status vs of
                ErrorStatus err \<Rightarrow> Inl err
              | OkStatus \<Rightarrow>
                  (if has_error (issues vs)
                   then Inr \<lparr>result_ast = None, result_issues = issues vs\<rparr>
                   else
                     (case AstRewrite K vs (root_expr ast)
                             \<lparr>rw_status = OkStatus, rw_reference_map = reference_map ast,
                              rw_type_map = type_map ast\<rparr> of
                        (root', rs) \<Rightarrow>
                          (case rw_status rs of
                             ErrorStatus err \<Rightarrow> Inl err
                           | OkStatus \<Rightarrow>
                               Inr \<lparr>result_ast =
                                      Some (ast\<lparr>root_expr := root',
                                                reference_map := rw_reference_map rs,
                                                type_map := rw_type_map rs,
                                                is_checked := True\<rparr>),
                                    result_issues = issues vs\<rparr>)))))"

section \<open>The collaborators as the specification describes them\<close>

text \<open>
  Modelled from the spec: \<open>NamespaceGenerator\<close> (checker/internal/namespace\_generator, not
  in the sources), section 4.1. For the container \<open>c1.c2\<close> and the name \<open>N\<close> the
  candidates are \<open>c1.c2.N\<close>, \<open>c1.N\<close>, \<open>N\<close>. For a list of qualifiers the longest
  qualifier prefix is tried first, each prefix with the full container search; a candidate
  comes with the index of its last qualifier segment, which is how
  \<open>ResolveQualifiedIdentifier\<close> reads it.
\<close>

fun split_dots :: "string \<Rightarrow> string \<Rightarrow> string list" where
  "split_dots [] seg = [seg]"
| "split_dots (ch # rest) seg =
     (if ch = CHR ''.'' then seg # split_dots rest [] else split_dots rest (seg @ [ch]))"

definition container_prefixes :: "string \<Rightarrow> string list" where
  "container_prefixes c =
     (if c = [] then [[]]
      else map (\<lambda>k. StrJoin (take k (split_dots c [])) ''.'' @ ''.'')
             (rev [1..<Suc (length (split_dots c []))]) @ [[]])"

definition spec_candidates :: "string \<Rightarrow> string \<Rightarrow> string list" where
  "spec_candidates c n = map (\<lambda>pre. pre @ n) (container_prefixes c)"

definition spec_qualified_candidates :: "string \<Rightarrow> string list \<Rightarrow> (string \<times> nat) list" where
  "spec_qualified_candidates c qualifiers =
     concat (map (\<lambda>j. map (\<lambda>pre. (pre @ StrJoin (take (Suc j) qualifiers) ''.'', j))
                          (container_prefixes c))
                 (rev [0..<length qualifiers]))"

definition spec_generator :: "string \<Rightarrow> namespace_generator" where
  "spec_generator c =
     \<lparr>GenerateCandidates = spec_candidates c,
      GenerateQualifiedCandidates = spec_qualified_candidates c\<rparr>"

text \<open>
  Modelled from the spec: \<open>TypeInferenceContext\<close> (checker/internal/type\_inference\_context,
  not in the sources), sections 3 and 4.3. The context is the number of type variables
  handed out so far and the assignments of the bound ones. The variable number \<open>n\<close> is
  named \<open>T%\<close> followed by \<open>n\<close> marks.
\<close>

record inference_ctx =
  next_var :: nat
  bindings :: "(string \<times> cel_type) list"

definition fresh_name :: "nat \<Rightarrow> string" where
  "fresh_name n = ''T%'' @ replicate n (CHR ''i'')"

text \<open>
  \<open>InstantiateTypeParams\<close>: every distinct \<open>type_param(name)\<close> of the type is replaced by
  a fresh unbound variable.
\<close>

fun instantiate ::
  "cel_type \<Rightarrow> (string \<times> string) list \<times> nat \<Rightarrow> cel_type \<times> (string \<times> string) list \<times> nat"
and instantiate_list ::
  "cel_type list \<Rightarrow> (string \<times> string) list \<times> nat
     \<Rightarrow> cel_type list \<times> (string \<times> string) list \<times> nat"
where
  "instantiate (TypeParamType v) (m, n) =
     (case map_of m v of
        Some w \<Rightarrow> (TypeParamType w, m, n)
      | None \<Rightarrow> (TypeParamType (fresh_name n), (v, fresh_name n) # m, Suc n))"
| "instantiate (ListType element) st =
     (case instantiate element st of (element', st') \<Rightarrow> (ListType element', st'))"
| "instantiate (MapType key_type value_type) st =
     (case instantiate key_type st of
        (key_type', st') \<Rightarrow>
          (case instantiate value_type st' of
             (value_type', st'') \<Rightarrow> (MapType key_type' value_type', st'')))"
| "instantiate (OpaqueType nm ps) st =
     (case instantiate_list ps st of (ps', st') \<Rightarrow> (OpaqueType nm ps', st'))"
| "instantiate (TypeType ps) st =
     (case instantiate_list ps st of (ps', st') \<Rightarrow> (TypeType ps', st'))"
| "instantiate (FunctionType r ps) st =
     (case instantiate r st of
        (r', st') \<Rightarrow>
          (case instantiate_list ps st' of (ps', st'') \<Rightarrow> (FunctionType r' ps', st'')))"
| "instantiate t st = (t, st)"
| "instantiate_list [] st = ([], st)"
| "instantiate_list (p # ps) st =
     (case instantiate p st of
        (p', st') \<Rightarrow>
          (case instantiate_list ps st' of (ps', st'') \<Rightarrow> (p' # ps', st'')))"

definition spec_InstantiateTypeParams :: "cel_type \<Rightarrow> inference_ctx \<Rightarrow> cel_type \<times> inference_ctx"
  where
  "spec_InstantiateTypeParams t c =
     (case instantiate t ([], next_var c) of (t', m, n) \<Rightarrow> (t', c\<lparr>next_var := n\<rparr>))"

text \<open>
  \<open>IsAssignable(actual, declared)\<close>: \<open>dyn\<close> accepts and yields anything without binding;
  a type variable on either side is unified with the other side, the declared one first;
  \<open>null\<close> is assignable to any wrapper and to \<open>any\<close>; a wrapper is assignable from its
  primitive; two compound types are assignable when their heads match and their
  parameters are pairwise assignable; other types must be equal. The first argument
  bounds the depth of the walk through types and assignments.
\<close>

fun wrapped_primitive :: "cel_type \<Rightarrow> cel_type option" where
  "wrapped_primitive BoolWrapperType = Some BoolType"
| "wrapped_primitive IntWrapperType = Some IntType"
| "wrapped_primitive UintWrapperType = Some UintType"
| "wrapped_primitive DoubleWrapperType = Some DoubleType"
| "wrapped_primitive StringWrapperType = Some StringType"
| "wrapped_primitive BytesWrapperType = Some BytesType"
| "wrapped_primitive t = None"

fun type_param_name :: "cel_type \<Rightarrow> string option" where
  "type_param_name (TypeParamType v) = Some v"
| "type_param_name t = None"

text \<open>The head and the parameters of a compound type.\<close>

fun compound_parts :: "cel_type \<Rightarrow> (string \<times> cel_type list) option" where
  "compound_parts (ListType element) = Some (''list'', [element])"
| "compound_parts (MapType k v) = Some (''map'', [k, v])"
| "compound_parts (OpaqueType nm ps) = Some (''opaque '' @ nm, ps)"
| "compound_parts (TypeType ps) = Some (''type'', ps)"
| "compound_parts t = None"

fun unify ::
  "nat \<Rightarrow> cel_type \<Rightarrow> cel_type \<Rightarrow> (string \<times> cel_type) list \<Rightarrow> (string \<times> cel_type) list option"
and unify_list ::
  "nat \<Rightarrow> cel_type list \<Rightarrow> cel_type list \<Rightarrow> (string \<times> cel_type) list
     \<Rightarrow> (string \<times> cel_type) list option"
where
  "unify 0 actual declared b = None"
| "unify (Suc fuel) actual declared b =
     (if actual = DynType \<or> declared = DynType then Some b
      else
        (case type_param_name declared of
           Some v \<Rightarrow>
             (case map_of b v of
                Some t \<Rightarrow> unify fuel actual t b
              | None \<Rightarrow> (if actual = declared then Some b else Some ((v, actual) # b)))
         | None \<Rightarrow>
             (case type_param_name actual of
                Some v \<Rightarrow>
                  (case map_of b v of
                     Some t \<Rightarrow> unify fuel t declared b
                   | None \<Rightarrow> Some ((v, declared) # b))
              | None \<Rightarrow>
                  (if actual = NullType
                        \<and> (wrapped_primitive declared \<noteq> None \<or> declared = AnyType)
                   then Some b
                   else if wrapped_primitive declared = Some actual then Some b
                   else
                     (case (compound_parts actual, compound_parts declared) of
                        (Some (h, ps), Some (h', ps')) \<Rightarrow>
                          (if h = h' then unify_list fuel ps ps' b else None)
                      | _ \<Rightarrow> (if actual = declared then Some b else None))))))"
| "unify_list 0 ps ps' b = None"
| "unify_list (Suc fuel) [] [] b = Some b"
| "unify_list (Suc fuel) (p # ps) (p' # ps') b =
     (case unify fuel p p' b of
        None \<Rightarrow> None
      | Some b' \<Rightarrow> unify_list fuel ps ps' b')"
| "unify_list (Suc fuel) ps ps' b = None"

definition unify_depth :: nat where
  "unify_depth = 64"

definition spec_IsAssignable ::
  "cel_type \<Rightarrow> cel_type \<Rightarrow> inference_ctx \<Rightarrow> bool \<times> inference_ctx" where
  "spec_IsAssignable actual declared c =
     (case unify unify_depth actual declared (bindings c) of
        None \<Rightarrow> (False, c)
      | Some b \<Rightarrow> (True, c\<lparr>bindings := b\<rparr>))"

text \<open>
  \<open>FinalizeType\<close>: every bound variable is replaced by its assignment, a variable that
  is still free by \<open>dyn\<close>.
\<close>

fun finalize :: "nat \<Rightarrow> (string \<times> cel_type) list \<Rightarrow> cel_type \<Rightarrow> cel_type" where
  "finalize 0 b t = DynType"
| "finalize (Suc fuel) b (TypeParamType v) =
     (case map_of b v of Some t \<Rightarrow> finalize fuel b t | None \<Rightarrow> DynType)"
| "finalize (Suc fuel) b (ListType element) = ListType (finalize fuel b element)"
| "finalize (Suc fuel) b (MapType k v) = MapType (finalize fuel b k) (finalize fuel b v)"
| "finalize (Suc fuel) b (OpaqueType nm ps) = OpaqueType nm (map (finalize fuel b) ps)"
| "finalize (Suc fuel) b (TypeType ps) = TypeType (map (finalize fuel b) ps)"
| "finalize (Suc fuel) b t = t"

definition spec_FinalizeType :: "cel_type \<Rightarrow> inference_ctx \<Rightarrow> cel_type" where
  "spec_FinalizeType t c = finalize unify_depth (bindings c) t"

text \<open>
  \<open>ResolveOverload\<close>, the four steps of section 4.3: the overloads of the call style and
  arity are tried one after the other, each with fresh type parameters and a rollback of
  the context when an argument is not assignable; without a survivor there is no
  resolution; the result type is the common result type of the survivors, or \<open>dyn\<close>.
\<close>

fun assign_args ::
  "cel_type list \<Rightarrow> cel_type list \<Rightarrow> inference_ctx \<Rightarrow> inference_ctx option" where
  "assign_args [] [] c = Some c"
| "assign_args (a # as) (p # ps) c =
     (case spec_IsAssignable a p c of
        (True, c') \<Rightarrow> assign_args as ps c'
      | (False, c') \<Rightarrow> None)"
| "assign_args as ps c = None"

fun try_overloads ::
  "overload_decl list \<Rightarrow> cel_type list \<Rightarrow> bool \<Rightarrow> inference_ctx
     \<Rightarrow> (overload_decl \<times> cel_type) list \<times> inference_ctx" where
  "try_overloads [] arg_types is_receiver c = ([], c)"
| "try_overloads (ovl # rest) arg_types is_receiver c =
     (if ovl_member ovl = is_receiver \<and> length (ovl_args ovl) = length arg_types
      then
        (case instantiate_list (ovl_result ovl # ovl_args ovl) ([], next_var c) of
           (instantiated, m, n) \<Rightarrow>
             (case assign_args arg_types (tl instantiated) (c\<lparr>next_var := n\<rparr>) of
                None \<Rightarrow> try_overloads rest arg_types is_receiver c
              | Some c' \<Rightarrow>
                  (case try_overloads rest arg_types is_receiver c' of
                     (survivors, c'') \<Rightarrow> ((ovl, hd instantiated) # survivors, c''))))
      else try_overloads rest arg_types is_receiver c)"

definition spec_ResolveOverload ::
  "function_decl \<Rightarrow> cel_type list \<Rightarrow> bool \<Rightarrow> inference_ctx
     \<Rightarrow> overload_resolution option \<times> inference_ctx" where
  "spec_ResolveOverload fdecl arg_types is_receiver c =
     (case try_overloads (fn_overloads fdecl) arg_types is_receiver c of
        ([], c') \<Rightarrow> (None, c')
      | ((ovl, t) # survivors, c') \<Rightarrow>
          (Some \<lparr>result_type = (if list_all (\<lambda>(o', t'). t' = t) survivors then t else DynType),
                 overloads = ovl # map fst survivors\<rparr>,
           c'))"

text \<open>
  Modelled from the spec: \<open>Type::DebugString\<close> writes a type as sections 3 and 8 do
  (\<open>int\<close>, \<open>string\<close>, \<open>list(T)\<close>, \<open>map(K, V)\<close>, the name of a struct or type variable).
\<close>

fun spec_DebugString :: "cel_type \<Rightarrow> string" where
  "spec_DebugString DynType = ''dyn''"
| "spec_DebugString ErrorType = ''*error*''"
| "spec_DebugString NullType = ''null_type''"
| "spec_DebugString BoolType = ''bool''"
| "spec_DebugString IntType = ''int''"
| "spec_DebugString UintType = ''uint''"
| "spec_DebugString DoubleType = ''double''"
| "spec_DebugString StringType = ''string''"
| "spec_DebugString BytesType = ''bytes''"
| "spec_DebugString DurationType = ''google.protobuf.Duration''"
| "spec_DebugString TimestampType = ''google.protobuf.Timestamp''"
| "spec_DebugString AnyType = ''google.protobuf.Any''"
| "spec_DebugString BoolWrapperType = ''google.protobuf.BoolValue''"
| "spec_DebugString IntWrapperType = ''google.protobuf.Int64Value''"
| "spec_DebugString UintWrapperType = ''google.protobuf.UInt64Value''"
| "spec_DebugString DoubleWrapperType = ''google.protobuf.DoubleValue''"
| "spec_DebugString StringWrapperType = ''google.protobuf.StringValue''"
| "spec_DebugString BytesWrapperType = ''google.protobuf.BytesValue''"
| "spec_DebugString (ListType element) = ''list('' @ spec_DebugString element @ '')''"
| "spec_DebugString (MapType k v) =
     ''map('' @ spec_DebugString k @ '', '' @ spec_DebugString v @ '')''"
| "spec_DebugString (StructType n) = n"
| "spec_DebugString (OpaqueType n ps) =
     n @ ''('' @ StrJoin (map spec_DebugString ps) '', '' @ '')''"
| "spec_DebugString (TypeType ps) =
     ''type('' @ StrJoin (map spec_DebugString ps) '', '' @ '')''"
| "spec_DebugString (TypeParamType n) = n"
| "spec_DebugString (FunctionType r ps) =
     ''('' @ StrJoin (map spec_DebugString ps) '', '' @ '') -> '' @ spec_DebugString r"
| "spec_DebugString (EnumType n) = n"
| "spec_DebugString UnknownType = ''*unknown*''"

text \<open>
  Modelled from the spec: \<open>FunctionDecl::AddOverload\<close> keeps the invariant of section 3,
  no two overloads of a declaration with the same id or the same member flag and
  parameter types.
\<close>

definition spec_AddOverload :: "overload_decl \<Rightarrow> function_decl \<Rightarrow> string + function_decl" where
  "spec_AddOverload ovl fdecl =
     (if list_ex (\<lambda>o'. ovl_id o' = ovl_id ovl
                       \<or> (ovl_member o' = ovl_member ovl \<and> ovl_args o' = ovl_args ovl))
           (fn_overloads fdecl)
      then Inl (''overload collides: '' @ ovl_id ovl)
      else Inr (fdecl\<lparr>fn_overloads := fn_overloads fdecl @ [ovl]\<rparr>))"

text \<open>
  Modelled from the spec: \<open>IsWellKnownMessageType\<close> recognises the well-known message
  wrappers of section 4.4 by their names.
\<close>

definition spec_IsWellKnownMessageType :: "string \<Rightarrow> bool" where
  "spec_IsWellKnownMessageType n =
     (n \<in> set [''google.protobuf.Any'', ''google.protobuf.Duration'',
               ''google.protobuf.Timestamp'', ''google.protobuf.Value'',
               ''google.protobuf.ListValue'', ''google.protobuf.Struct'',
               ''google.protobuf.BoolValue'', ''google.protobuf.Int32Value'',
               ''google.protobuf.Int64Value'', ''google.protobuf.UInt32Value'',
               ''google.protobuf.UInt64Value'', ''google.protobuf.FloatValue'',
               ''google.protobuf.DoubleValue'', ''google.protobuf.StringValue'',
               ''google.protobuf.BytesValue''])"

definition spec_collaborators :: "inference_ctx collaborators" where
  "spec_collaborators =
     \<lparr>InstantiateTypeParams = spec_InstantiateTypeParams,
      IsAssignable = spec_IsAssignable,
      ResolveOverload = spec_ResolveOverload,
      FinalizeType = spec_FinalizeType,
      DebugString = spec_DebugString,
      AddOverload = spec_AddOverload,
      IsWellKnownMessageType = spec_IsWellKnownMessageType,
      NamespaceGenerator_Create = (\<lambda>c. Inr (spec_generator c)),
      new_context = \<lparr>next_var = 0, bindings = []\<rparr>\<rparr>"

section \<open>An environment for the examples\<close>

text \<open>
  The environment of the scenarios of section 8, in the container \<open>pkg\<close>: the struct
  \<open>pkg.M\<close> with the field \<open>f\<close> of type int, some variables, the function \<open>a.b.c\<close> that
  takes an int, a function \<open>f\<close> that takes an int and the member function \<open>size\<close> of
  lists.
\<close>

definition example_env :: type_check_env where
  "example_env =
     \<lparr>container = ''pkg'',
      env_LookupVariable =
        [''x'' \<mapsto> MakeVariableDecl ''x'' IntType,
         ''m'' \<mapsto> MakeVariableDecl ''m'' (MapType StringType IntType),
         ''xs'' \<mapsto> MakeVariableDecl ''xs'' (ListType IntType),
         ''msg'' \<mapsto> MakeVariableDecl ''msg'' (StructType ''pkg.M'')],
      LookupFunction =
        [''a.b.c'' \<mapsto>
           \<lparr>fn_name = ''a.b.c'',
            fn_overloads =
              [\<lparr>ovl_id = ''a_b_c_int'', ovl_member = False, ovl_args = [IntType],
                ovl_result = IntType\<rparr>]\<rparr>,
         ''f'' \<mapsto>
           \<lparr>fn_name = ''f'',
            fn_overloads =
              [\<lparr>ovl_id = ''f_int'', ovl_member = False, ovl_args = [IntType],
                ovl_result = IntType\<rparr>]\<rparr>,
         ''size'' \<mapsto>
           \<lparr>fn_name = ''size'',
            fn_overloads =
              [\<lparr>ovl_id = ''list_size'', ovl_member = True,
                ovl_args = [ListType (TypeParamType ''T'')], ovl_result = IntType\<rparr>]\<rparr>],
      LookupTypeName = (\<lambda>n. Inr ([''pkg.M'' \<mapsto> StructType ''pkg.M''] n)),
      LookupStructField =
        (\<lambda>n f. Inr (if n = ''pkg.M'' \<and> f = ''f''
                      then Some \<lparr>stf_name = ''f'', stf_type = IntType\<rparr> else None))\<rparr>"

definition example_source_info :: source_info where
  "example_source_info = \<lparr>positions = (\<lambda>i. Some i), line_offsets = []\<rparr>"

definition example_visitor :: "inference_ctx resolve_visitor" where
  "example_visitor =
     \<lparr>collab = spec_collaborators, generator = spec_generator ''pkg'', env = example_env,
      ast_source_info = example_source_info\<rparr>"

definition example_state :: "inference_ctx visitor_state" where
  "example_state = initial_state (new_context spec_collaborators)"

definition example_ast :: "expr \<Rightarrow> ast_impl" where
  "example_ast e =
     \<lparr>root_expr = e, source_info = example_source_info, reference_map = Map.empty,
      type_map = Map.empty, is_checked = False\<rparr>"

text \<open>The literals \<open>1\<close> and \<open>'a'\<close>, an identifier, and the lists \<open>[1, 'a', 1]\<close> and \<open>[]\<close>.\<close>

definition int_literal :: "nat \<Rightarrow> expr" where
  "int_literal a = Expr a (int a) (ConstExpr IntConstant)"

definition string_literal :: "nat \<Rightarrow> expr" where
  "string_literal a = Expr a (int a) (ConstExpr StringConstant)"

definition ident :: "nat \<Rightarrow> string \<Rightarrow> expr" where
  "ident a n = Expr a (int a) (IdentExpr n)"

text \<open>The test-only selects \<open>has(1.f)\<close> and \<open>has(msg.f)\<close>.\<close>

definition has_int :: expr where
  "has_int = Expr 2 2 (SelectExpr (int_literal 1) ''f'' True)"

definition has_msg_f :: expr where
  "has_msg_f = Expr 2 2 (SelectExpr (ident 1 ''msg'') ''f'' True)"

text \<open>The test-only select \<open>has(msg.f)\<close> as the target of a call of \<open>size\<close>.\<close>

definition has_msg_f_size :: expr where
  "has_msg_f_size = Expr 3 3 (CallExpr ''size'' (Some has_msg_f) [])"

text \<open>
  The calls \<open>a.b.c(1)\<close> and \<open>xs.size()\<close>, each in the state after its children were
  visited.
\<close>

definition call_a_b_c :: expr where
  "call_a_b_c =
     Expr 4 4 (CallExpr ''c'' (Some (Expr 2 2 (SelectExpr (ident 1 ''a'') ''b'' False)))
                 [int_literal 3])"

definition call_xs_size :: expr where
  "call_xs_size = Expr 2 2 (CallExpr ''size'' (Some (ident 1 ''xs'')) [])"

definition a_b_c_state :: "inference_ctx visitor_state" where
  "a_b_c_state =
     example_state\<lparr>maybe_namespaced_functions := [4 \<mapsto> [''a'', ''b'']],
                   types := [3 \<mapsto> IntType]\<rparr>"

definition xs_size_state :: "inference_ctx visitor_state" where
  "xs_size_state = example_state\<lparr>maybe_namespaced_functions := [2 \<mapsto> [''xs'']]\<rparr>"

text \<open>
  A comprehension over \<open>[x]\<close> with the iteration variable \<open>x\<close> and the accumulator
  \<open>acc\<close>; its loop step is \<open>x\<close> and its result is \<open>acc\<close>.
\<close>

definition comp_range :: expr where
  "comp_range = Expr 2 2 (ListExpr [ListExprElement (ident 1 ''x'') False])"

definition comp_example :: expr where
  "comp_example =
     Expr 7 7 (ComprehensionExpr ''x'' comp_range ''acc'' (Expr 3 3 (ConstExpr BoolConstant))
                 (Expr 4 4 (ConstExpr BoolConstant)) (ident 5 ''x'') (ident 6 ''acc''))"

definition after_range :: "inference_ctx visitor_state" where
  "after_range =
     traverse example_visitor comp_range
       (PreVisitComprehensionSubexpression example_visitor comp_example ITER_RANGE
          (PreVisitComprehension example_visitor comp_example example_state))"

text \<open>
  The calls \<open>f(1, 2)\<close>, \<open>f('a')\<close> and \<open>g(1)\<close>, and the declaration of \<open>f\<close> in the
  environment.
\<close>

definition call_f_1_2 :: expr where
  "call_f_1_2 = Expr 3 3 (CallExpr ''f'' None [int_literal 1, int_literal 2])"

definition call_f_a :: expr where
  "call_f_a = Expr 2 2 (CallExpr ''f'' None [string_literal 1])"

definition call_g_1 :: expr where
  "call_g_1 = Expr 2 2 (CallExpr ''g'' None [int_literal 1])"

definition f_decl :: function_decl where
  "f_decl = \<lparr>fn_name = ''f'',
            fn_overloads =
              [\<lparr>ovl_id = ''f_int'', ovl_member = False, ovl_args = [IntType],
                ovl_result = IntType\<rparr>]\<rparr>"

text \<open>
  The receiver calls \<open>x.f()\<close> and \<open>x.size()\<close> on the variable \<open>x\<close>, recorded as possibly
  namespaced by \<open>PostVisitIdent\<close>; the state in which \<open>a.b.c('s')\<close> is resolved; and the
  declarations of \<open>a.b.c\<close> and \<open>size\<close> in the environment.
\<close>

definition call_x_f :: expr where
  "call_x_f = Expr 2 2 (CallExpr ''f'' (Some (ident 1 ''x'')) [])"

definition call_x_size :: expr where
  "call_x_size = Expr 2 2 (CallExpr ''size'' (Some (ident 1 ''x'')) [])"

definition x_receiver_state :: "inference_ctx visitor_state" where
  "x_receiver_state = example_state\<lparr>maybe_namespaced_functions := [2 \<mapsto> [''x'']]\<rparr>"

definition a_b_c_string_state :: "inference_ctx visitor_state" where
  "a_b_c_string_state =
     example_state\<lparr>maybe_namespaced_functions := [4 \<mapsto> [''a'', ''b'']],
                   types := [3 \<mapsto> StringType]\<rparr>"

definition a_b_c_decl :: function_decl where
  "a_b_c_decl = \<lparr>fn_name = ''a.b.c'',
                fn_overloads =
                  [\<lparr>ovl_id = ''a_b_c_int'', ovl_member = False, ovl_args = [IntType],
                    ovl_result = IntType\<rparr>]\<rparr>"

definition size_decl :: function_decl where
  "size_decl = \<lparr>fn_name = ''size'',
               fn_overloads =
                 [\<lparr>ovl_id = ''list_size'', ovl_member = True,
                   ovl_args = [ListType (TypeParamType ''T'')], ovl_result = IntType\<rparr>]\<rparr>"

text \<open>The map literals \<open>{1.5: 'a'}\<close> and \<open>{1: 'a'}\<close>.\<close>

definition double_key_entry :: map_expr_entry where
  "double_key_entry =
     MapExprEntry 4 (Expr 1 1 (ConstExpr DoubleConstant)) (string_literal 2) False"

definition int_key_entry :: map_expr_entry where
  "int_key_entry = MapExprEntry 4 (int_literal 1) (string_literal 2) False"

definition map_double_key :: expr where
  "map_double_key = Expr 3 3 (MapExpr [double_key_entry])"

definition map_int_key :: expr where
  "map_int_key = Expr 3 3 (MapExpr [int_key_entry])"

definition double_key_state :: "inference_ctx visitor_state" where
  "double_key_state = example_state\<lparr>types := [1 \<mapsto> DoubleType, 2 \<mapsto> StringType]\<rparr>"

definition int_key_state :: "inference_ctx visitor_state" where
  "int_key_state = example_state\<lparr>types := [1 \<mapsto> IntType, 2 \<mapsto> StringType]\<rparr>"

section \<open>Notions for the invariants of a traversal\<close>

text \<open>
  What a traversal of a subexpression leaves as it was: the two stacks, the current scope
  and the scopes that existed before (new scopes are appended behind them).
\<close>

definition frame :: "'c visitor_state \<Rightarrow> 'c visitor_state \<Rightarrow> bool" where
  "frame s s' \<longleftrightarrow>
     expr_stack s' = expr_stack s \<and> comprehension_scopes s' = comprehension_scopes s
     \<and> current_scope s' = current_scope s
     \<and> take (length (scopes s)) (scopes s') = scopes s"

text \<open>
  Between the hooks of the comprehension with the scope record \<open>E\<close>, entered in the state
  \<open>s0\<close>: the record is on top of the stack of comprehension scopes.
\<close>

definition in_comprehension ::
  "comprehension_scope \<Rightarrow> 'c visitor_state \<Rightarrow> 'c visitor_state \<Rightarrow> bool" where
  "in_comprehension E s0 s \<longleftrightarrow>
     expr_stack s = expr_stack s0
     \<and> comprehension_scopes s = E # comprehension_scopes s0
     \<and> take (length (scopes s0)) (scopes s) = scopes s0"

text \<open>
  The addresses of the nodes of an expression, the node itself first. Two nodes of one
  tree are two objects: in a tree of the source this list is distinct and does not hold
  the address \<open>0\<close> of the default instance.
\<close>

fun addr_list :: "expr \<Rightarrow> nat list"
and addr_list_kind :: "expr_kind \<Rightarrow> nat list"
and addr_list_exprs :: "expr list \<Rightarrow> nat list"
and addr_list_elements :: "list_expr_element list \<Rightarrow> nat list"
and addr_list_fields :: "struct_expr_field list \<Rightarrow> nat list"
and addr_list_entries :: "map_expr_entry list \<Rightarrow> nat list"
where
  "addr_list (Expr a i k) = a # addr_list_kind k"
| "addr_list_kind UnspecifiedExpr = []"
| "addr_list_kind (ConstExpr c) = []"
| "addr_list_kind (IdentExpr n) = []"
| "addr_list_kind (SelectExpr operand field test_only) = addr_list operand"
| "addr_list_kind (CallExpr f None args) = addr_list_exprs args"
| "addr_list_kind (CallExpr f (Some target) args) = addr_list target @ addr_list_exprs args"
| "addr_list_kind (ListExpr elements) = addr_list_elements elements"
| "addr_list_kind (StructExpr n struct_fields) = addr_list_fields struct_fields"
| "addr_list_kind (MapExpr entries) = addr_list_entries entries"
| "addr_list_kind (ComprehensionExpr iv ir av ai lc ls r) =
     addr_list ir @ addr_list ai @ addr_list lc @ addr_list ls @ addr_list r"
| "addr_list_exprs [] = []"
| "addr_list_exprs (x # xs) = addr_list x @ addr_list_exprs xs"
| "addr_list_elements [] = []"
| "addr_list_elements (ListExprElement x opt # xs) = addr_list x @ addr_list_elements xs"
| "addr_list_fields [] = []"
| "addr_list_fields (StructExprField fid fname x opt # xs) =
     addr_list x @ addr_list_fields xs"
| "addr_list_entries [] = []"
| "addr_list_entries (MapExprEntry eid key val opt # xs) =
     addr_list key @ addr_list val @ addr_list_entries xs"


text \<open>
  The scopes that \<open>LookupVariable\<close> walks through from the scope \<open>p\<close>, over the parent
  links of the store.
\<close>

function reach :: "nat option list \<Rightarrow> nat \<Rightarrow> nat set" where
  "reach links p =
     (if p < length links
      then insert p (case links ! p of
                       Some q \<Rightarrow> (if q < p then reach links q else {})
                     | None \<Rightarrow> {})
      else {})"
  by pat_completeness auto
termination
  by (relation "measure (\<lambda>(links, p). p)") auto

declare reach.simps [simp del]

definition scope_links :: "'c visitor_state \<Rightarrow> nat option list" where
  "scope_links s = map parent_scope (scopes s)"


text \<open>
  No recorded reference is to a variable owned by a scope of \<open>F\<close>; and a state from which
  no lookup can reach a scope of \<open>F\<close>: the current scope exists, the scopes of \<open>F\<close> exist
  and none of them is on the way from the current scope to the root.
\<close>

definition good_attributes :: "nat set \<Rightarrow> 'c visitor_state \<Rightarrow> bool" where
  "good_attributes F s \<longleftrightarrow> (\<forall>a k d. attributes s a = Some (Some k, d) \<longrightarrow> k \<notin> F)"

definition hygienic :: "nat set \<Rightarrow> 'c visitor_state \<Rightarrow> bool" where
  "hygienic F s \<longleftrightarrow>
     current_scope s < length (scopes s)
     \<and> reach (scope_links s) (current_scope s) \<inter> F = {}
     \<and> (\<forall>k\<in>F. k < length (scopes s))
     \<and> good_attributes F s"


text \<open>
  The walk of \<open>PostVisitIdent\<close> up the stack stops at the first parent that is no select
  operation.
\<close>

definition barrier :: "expr list \<Rightarrow> bool" where
  "barrier st = (case st of [] \<Rightarrow> True | b # rest \<Rightarrow> \<not> has_select_expr b)"

text \<open>
  The states in which the traversal enters the five subexpressions of a comprehension:
  the prefixes of the equation of \<open>traverse_kind\<close> for a comprehension, each ending with
  the hook \<open>PreVisitComprehensionSubexpression\<close> of the subexpression.
\<close>

definition enter_iter_range ::
  "'c resolve_visitor \<Rightarrow> expr \<Rightarrow> 'c visitor_state \<Rightarrow> 'c visitor_state" where
  "enter_iter_range V e s =
     PreVisitComprehensionSubexpression V e ITER_RANGE (PreVisitComprehension V e s)"

definition enter_accu_init ::
  "'c resolve_visitor \<Rightarrow> expr \<Rightarrow> 'c visitor_state \<Rightarrow> 'c visitor_state" where
  "enter_accu_init V e s =
     PreVisitComprehensionSubexpression V e ACCU_INIT
       (PostVisitComprehensionSubexpression V e ITER_RANGE
          (traverse V (iter_range e) (enter_iter_range V e s)))"

definition enter_loop_condition ::
  "'c resolve_visitor \<Rightarrow> expr \<Rightarrow> 'c visitor_state \<Rightarrow> 'c visitor_state" where
  "enter_loop_condition V e s =
     PreVisitComprehensionSubexpression V e LOOP_CONDITION
       (PostVisitComprehensionSubexpression V e ACCU_INIT
          (traverse V (accu_init e) (enter_accu_init V e s)))"

definition enter_loop_step ::
  "'c resolve_visitor \<Rightarrow> expr \<Rightarrow> 'c visitor_state \<Rightarrow> 'c visitor_state" where
  "enter_loop_step V e s =
     PreVisitComprehensionSubexpression V e LOOP_STEP
       (PostVisitComprehensionSubexpression V e LOOP_CONDITION
          (traverse V (loop_condition e) (enter_loop_condition V e s)))"

definition enter_result ::
  "'c resolve_visitor \<Rightarrow> expr \<Rightarrow> 'c visitor_state \<Rightarrow> 'c visitor_state" where
  "enter_result V e s =
     PreVisitComprehensionSubexpression V e RESULT
       (PostVisitComprehensionSubexpression V e LOOP_STEP
          (traverse V (loop_step e) (enter_loop_step V e s)))"

section \<open>Properties of the source locations\<close>

lemma line_idx_loop_first:
  "offs \<noteq> [] \<Longrightarrow> hd offs \<le> pos \<Longrightarrow> line_idx_loop pos offs k = k"
  by (cases offs) simp_all

text \<open>
  Claim C2 (the reported location is 1-based: the line is the index of the greatest line
  offset at most the absolute position, plus one, the column is the absolute position
  minus that offset, plus one). The code does not compute this: its loop leaves at the
  first line offset that is at most the position, so with the line offsets 0, 10, 20 and
  an expression at position 12 it reports line 1, column 12, where the specification
  gives line 2, column 3.
\<close>

theorem ComputeSourceLocation_second_line:
  "ComputeSourceLocation \<lparr>positions = [1 \<mapsto> 12], line_offsets = [0, 10, 20]\<rparr> 1
     = \<lparr>line = 1, column = 12\<rparr>
   \<and> spec_location \<lparr>positions = [1 \<mapsto> 12], line_offsets = [0, 10, 20]\<rparr> 1
     = Some \<lparr>line = 2, column = 3\<rparr>"
  by (simp add: ComputeSourceLocation_def spec_location_def spec_line_index_def upt_rec)

section \<open>Lists and maps\<close>

lemma widen_Some: "widen (Some t) u = Some (if u = t then t else DynType)"
  by (simp add: widen_def)

lemma foldl_widen_Some:
  "foldl widen (Some t) ts = Some (if list_all (\<lambda>u. u = t) ts then t else DynType)"
proof (induction ts arbitrary: t)
  case Nil
  then show ?case by simp
next
  case (Cons u ts)
  show ?case
  proof (cases "u = t")
    case True
    then show ?thesis using Cons.IH [of t] by (simp add: widen_Some)
  next
    case False
    then show ?thesis using Cons.IH [of DynType] by (simp add: widen_Some)
  qed
qed

lemma list_elements_loop_foldl:
  "list_elements_loop s els overall = foldl widen overall (map (element_type s) els)"
  by (induction els arbitrary: overall) simp_all

lemma fresh_name_inject: "fresh_name k = fresh_name n \<Longrightarrow> k = n"
  by (auto simp: fresh_name_def dest: arg_cong [where f = length])

text \<open>
  Claim C8. The type of a list literal with a first element is \<open>list(T)\<close>, where \<open>T\<close> is
  the type of the first element when every later element has that type and \<open>dyn\<close>
  otherwise (the statement holds for every list, so for every prefix of the elements: the
  running type turns into \<open>dyn\<close> at the first element that differs and stays \<open>dyn\<close>).
  An optional element whose type is an optional contributes the parameter of the optional,
  every other element its own type. The empty list gets the instantiated type
  \<open>list(element_type)\<close>; with \<open>InstantiateTypeParams\<close> as the specification describes it
  this is \<open>list(alpha)\<close> for the next variable \<open>alpha\<close> of the context, a variable that
  was not handed out before.
\<close>

theorem PostVisitList_infers:
  "PostVisitList V e (el # rest) s =
     s\<lparr>types := (types s)(addr e \<mapsto>
        ListType (if list_all (\<lambda>x. element_type s x = element_type s el) rest
                  then element_type s el else DynType))\<rparr>
   \<and> element_type s (ListExprElement x opt) =
       (if opt \<and> IsOptional (GetTypeOrDyn s x) then GetOptionalParameter (GetTypeOrDyn s x)
        else GetTypeOrDyn s x)
   \<and> IsOptional (OptionalType t) \<and> GetOptionalParameter (OptionalType t) = t
   \<and> PostVisitList V e [] s = instantiate_type V e FreeListType s
   \<and> (InstantiateTypeParams (collab W) = spec_InstantiateTypeParams \<longrightarrow>
        PostVisitList W e [] sw =
          sw\<lparr>inference_context :=
                (inference_context sw)\<lparr>next_var := Suc (next_var (inference_context sw))\<rparr>,
             types := (types sw)(addr e \<mapsto>
               ListType (TypeParamType (fresh_name (next_var (inference_context sw)))))\<rparr>
        \<and> (k < next_var (inference_context sw) \<longrightarrow>
             fresh_name k \<noteq> fresh_name (next_var (inference_context sw))))"
proof -
  have "PostVisitList V e (el # rest) s =
     s\<lparr>types := (types s)(addr e \<mapsto>
        ListType (if list_all (\<lambda>x. element_type s x = element_type s el) rest
                  then element_type s el else DynType))\<rparr>"
    by (simp add: PostVisitList_def list_elements_loop_foldl widen_def foldl_widen_Some
        list_all_iff)
  moreover have "element_type s (ListExprElement x opt) =
       (if opt \<and> IsOptional (GetTypeOrDyn s x) then GetOptionalParameter (GetTypeOrDyn s x)
        else GetTypeOrDyn s x)"
    by (simp add: element_type_def peel_optional_def)
  moreover have "IsOptional (OptionalType t) \<and> GetOptionalParameter (OptionalType t) = t"
    by (simp add: OptionalType_def)
  moreover have "PostVisitList V e [] s = instantiate_type V e FreeListType s"
    by (simp add: PostVisitList_def)
  moreover have "InstantiateTypeParams (collab W) = spec_InstantiateTypeParams \<longrightarrow>
        PostVisitList W e [] sw =
          sw\<lparr>inference_context :=
                (inference_context sw)\<lparr>next_var := Suc (next_var (inference_context sw))\<rparr>,
             types := (types sw)(addr e \<mapsto>
               ListType (TypeParamType (fresh_name (next_var (inference_context sw)))))\<rparr>
        \<and> (k < next_var (inference_context sw) \<longrightarrow>
             fresh_name k \<noteq> fresh_name (next_var (inference_context sw)))"
    by (auto simp: PostVisitList_def instantiate_type_def spec_InstantiateTypeParams_def
        FreeListType_def dest: fresh_name_inject)
  ultimately show ?thesis by blast
qed

theorem PostVisitList_infers_witness:
  "InstantiateTypeParams (collab example_visitor) = spec_InstantiateTypeParams
   \<and> types (PostVisitList example_visitor (Expr 9 9 (ListExpr [])) [] example_state) 9
       = Some (ListType (TypeParamType ''T%''))
   \<and> next_var (inference_context
        (PostVisitList example_visitor (Expr 9 9 (ListExpr [])) [] example_state)) = 1
   \<and> types (PostVisitList example_visitor (Expr 9 9 (ListExpr []))
        [ListExprElement (int_literal 1) False, ListExprElement (string_literal 2) False,
         ListExprElement (int_literal 3) False]
        (example_state\<lparr>types := [1 \<mapsto> IntType, 2 \<mapsto> StringType, 3 \<mapsto> IntType]\<rparr>)) 9
       = Some (ListType DynType)"
  using PostVisitList_infers [where V = example_visitor and e = "Expr 9 9 (ListExpr [])"
      and el = "ListExprElement (int_literal 1) False"
      and rest = "[ListExprElement (string_literal 2) False,
                   ListExprElement (int_literal 3) False]"
      and s = "example_state\<lparr>types := [1 \<mapsto> IntType, 2 \<mapsto> StringType, 3 \<mapsto> IntType]\<rparr>"
      and W = example_visitor and sw = example_state and k = 0]
  by (simp add: example_visitor_def spec_collaborators_def example_state_def initial_state_def
      fresh_name_def element_type_def peel_optional_def GetTypeOrDyn_def int_literal_def
      string_literal_def)

lemma entry_key_type_add_issue [simp]:
  "entry_key_type (add_issue i s) entry = entry_key_type s entry"
  by (simp add: entry_key_type_def GetTypeOrDyn_def add_issue_def)

lemma entry_value_type_add_issue [simp]:
  "entry_value_type (add_issue i s) entry = entry_value_type s entry"
  by (simp add: entry_value_type_def GetTypeOrDyn_def add_issue_def)

lemma IsSupportedKeyType_kind:
  "IsSupportedKeyType t = (kind t \<in> {kBool, kInt, kUint, kString, kDyn})"
  by (cases t) simp_all

lemma map_entries_loop_eq:
  "map_entries_loop V entries ok ov s =
     (foldl widen ok (map (entry_key_type s) entries),
      foldl widen ov (map (entry_value_type s) entries),
      s\<lparr>issues := issues s
         @ map (\<lambda>entry. unsupported_key V (entry_key entry) (entry_key_type s entry))
             (filter (\<lambda>entry. \<not> IsSupportedKeyType (entry_key_type s entry)) entries)\<rparr>)"
proof (induction entries arbitrary: ok ov s)
  case Nil
  then show ?case by simp
next
  case (Cons entry rest)
  show ?case
  proof (cases "IsSupportedKeyType (entry_key_type s entry)")
    case True
    then show ?thesis by (simp add: Cons.IH Let_def)
  next
    case False
    then show ?thesis
      by (simp add: Cons.IH Let_def add_issue_def entry_key_type_def entry_value_type_def
          GetTypeOrDyn_def)
  qed
qed

text \<open>
  Claim C9. \<open>PostVisitMap\<close> adds to the issues exactly one issue for every entry whose key
  type has a kind other than bool, int, uint, string and dyn, in the order of the entries;
  the key type of an entry is the type recorded for its key expression, dyn when none is
  recorded; that issue has warning severity, the location of the key and a message that
  names the key type. The typing of the map does not depend on these entries being there:
  the status stays as it is, a map with a first entry gets the type \<open>map(K, V)\<close> widened
  over all keys and all values, and the empty map gets the instantiated type
  \<open>map(key_type, value_type)\<close>.
\<close>

theorem PostVisitMap_unsupported_key_warning:
  "issues (PostVisitMap V e entries s) =
     issues s
     @ map (\<lambda>entry. unsupported_key V (entry_key entry) (entry_key_type s entry))
         (filter (\<lambda>entry. kind (entry_key_type s entry) \<notin> {kBool, kInt, kUint, kString, kDyn})
            entries)
   \<and> entry_key_type s (MapExprEntry i key val opt) = GetTypeOrDyn s key
   \<and> GetTypeOrDyn s key = (case types s (addr key) of Some t \<Rightarrow> t | None \<Rightarrow> DynType)
   \<and> entry_value_type s (MapExprEntry i key val opt) =
       (if opt \<and> IsOptional (GetTypeOrDyn s val) then GetOptionalParameter (GetTypeOrDyn s val)
        else GetTypeOrDyn s val)
   \<and> issue_severity (unsupported_key V key key_type) = kWarning
   \<and> issue_location (unsupported_key V key key_type) =
       ComputeSourceLocation (ast_source_info V) (expr_id key)
   \<and> issue_message (unsupported_key V key key_type) =
       ''unsupported map key type: '' @ DebugString (collab V) key_type
   \<and> status (PostVisitMap V e entries s) = status s
   \<and> types (PostVisitMap V e (entry # rest) s) =
       (types s)(addr e \<mapsto>
          MapType
            (if list_all (\<lambda>x. entry_key_type s x = entry_key_type s entry) rest
             then entry_key_type s entry else DynType)
            (if list_all (\<lambda>x. entry_value_type s x = entry_value_type s entry) rest
             then entry_value_type s entry else DynType))
   \<and> types (PostVisitMap V e [] s) = types (instantiate_type V e FreeMapType s)"
proof -
  have 1: "issues (PostVisitMap V e entries s) =
     issues s
     @ map (\<lambda>entry. unsupported_key V (entry_key entry) (entry_key_type s entry))
         (filter (\<lambda>entry. kind (entry_key_type s entry) \<notin> {kBool, kInt, kUint, kString, kDyn})
            entries)"
    by (cases entries)
      (simp_all add: PostVisitMap_def map_entries_loop_eq instantiate_type_def widen_def
        foldl_widen_Some IsSupportedKeyType_kind split: prod.splits)
  have 2: "entry_key_type s (MapExprEntry i key val opt) = GetTypeOrDyn s key"
    by (simp add: entry_key_type_def)
  have 3: "GetTypeOrDyn s key = (case types s (addr key) of Some t \<Rightarrow> t | None \<Rightarrow> DynType)"
    by (simp add: GetTypeOrDyn_def)
  have 4: "entry_value_type s (MapExprEntry i key val opt) =
       (if opt \<and> IsOptional (GetTypeOrDyn s val) then GetOptionalParameter (GetTypeOrDyn s val)
        else GetTypeOrDyn s val)"
    by (simp add: entry_value_type_def peel_optional_def)
  have 5: "issue_severity (unsupported_key V key key_type) = kWarning"
    and 6: "issue_location (unsupported_key V key key_type) =
       ComputeSourceLocation (ast_source_info V) (expr_id key)"
    and 7: "issue_message (unsupported_key V key key_type) =
       ''unsupported map key type: '' @ DebugString (collab V) key_type"
    by (simp_all add: unsupported_key_def TypeCheckIssue_def)
  have 8: "status (PostVisitMap V e entries s) = status s"
    by (cases entries)
      (simp_all add: PostVisitMap_def map_entries_loop_eq instantiate_type_def widen_def
        foldl_widen_Some split: prod.splits)
  have 9: "types (PostVisitMap V e (entry # rest) s) =
       (types s)(addr e \<mapsto>
          MapType
            (if list_all (\<lambda>x. entry_key_type s x = entry_key_type s entry) rest
             then entry_key_type s entry else DynType)
            (if list_all (\<lambda>x. entry_value_type s x = entry_value_type s entry) rest
             then entry_value_type s entry else DynType))"
    by (simp add: PostVisitMap_def map_entries_loop_eq widen_def foldl_widen_Some list_all_iff)
  have 10: "types (PostVisitMap V e [] s) = types (instantiate_type V e FreeMapType s)"
    by (simp add: PostVisitMap_def)
  show ?thesis
    using 1 2 3 4 5 6 7 8 9 10 by (intro conjI)
qed

theorem PostVisitMap_unsupported_key_warning_witness:
  "map issue_severity
     (issues (PostVisitMap example_visitor map_double_key [double_key_entry] double_key_state))
     = [kWarning]
   \<and> map issue_message
       (issues (PostVisitMap example_visitor map_double_key [double_key_entry] double_key_state))
       = [''unsupported map key type: double'']
   \<and> types (PostVisitMap example_visitor map_double_key [double_key_entry] double_key_state) 3
       = Some (MapType DoubleType StringType)
   \<and> issues (PostVisitMap example_visitor map_int_key [int_key_entry] int_key_state) = []
   \<and> types (PostVisitMap example_visitor map_int_key [int_key_entry] int_key_state) 3
       = Some (MapType IntType StringType)
   \<and> map issue_severity (issues (traverse example_visitor map_double_key example_state))
       = [kWarning]"
proof -
  note d = PostVisitMap_unsupported_key_warning [where V = example_visitor
      and e = map_double_key and entries = "[double_key_entry]" and s = double_key_state
      and entry = double_key_entry and rest = "[]"]
  note n = PostVisitMap_unsupported_key_warning [where V = example_visitor
      and e = map_int_key and entries = "[int_key_entry]" and s = int_key_state
      and entry = int_key_entry and rest = "[]"]
  have ev: "issues double_key_state = []" "issues int_key_state = []"
    "entry_key_type double_key_state double_key_entry = DoubleType"
    "entry_value_type double_key_state double_key_entry = StringType"
    "entry_key_type int_key_state int_key_entry = IntType"
    "entry_value_type int_key_state int_key_entry = StringType"
    "addr map_double_key = 3" "addr map_int_key = 3"
    "map issue_severity (issues (traverse example_visitor map_double_key example_state))
       = [kWarning]"
    "issue_message (unsupported_key example_visitor (entry_key double_key_entry) DoubleType)
       = ''unsupported map key type: double''"
    by code_simp+
  have 1: "issues (PostVisitMap example_visitor map_double_key [double_key_entry]
                     double_key_state)
             = [unsupported_key example_visitor (entry_key double_key_entry) DoubleType]"
    using d [THEN conjunct1] by (simp add: ev)
  have 2: "issue_severity (unsupported_key example_visitor (entry_key double_key_entry)
             DoubleType) = kWarning"
    using d by blast
  have 3: "types (PostVisitMap example_visitor map_double_key [double_key_entry]
                    double_key_state) 3 = Some (MapType DoubleType StringType)"
    using d by (simp add: ev)
  have 4: "issues (PostVisitMap example_visitor map_int_key [int_key_entry] int_key_state) = []"
    using n [THEN conjunct1] by (simp add: ev)
  have 5: "types (PostVisitMap example_visitor map_int_key [int_key_entry] int_key_state) 3
             = Some (MapType IntType StringType)"
    using n by (simp add: ev)
  show ?thesis
    using 1 2 3 4 5 ev(9,10) by simp
qed

section \<open>Select operations, resolved\<close>

lemma select_impl_other:
  "kind t \<notin> {kDyn, kAny, kStruct, kMap} \<Longrightarrow>
   select_impl V e f t s = (None, unsupported_operand V e t s)"
  by (cases t) simp_all

lemma select_impl_dyn:
  "kind t = kDyn \<or> kind t = kAny \<Longrightarrow> select_impl V e f t s = (Some DynType, s)"
  by (cases t) simp_all

text \<open>
  Claim C5, as amended. Let \<open>T\<close> be the type of the operand of a select that is resolved,
  with an optional peeled once. If \<open>T\<close> is dyn or any the select gets the type dyn; if \<open>T\<close>
  is \<open>struct(n)\<close> the environment is asked for the field of \<open>n\<close>, a hit gives the
  declared type of the field and a miss an undefined-field error; if \<open>T\<close> is \<open>map(K, V)\<close>
  and string is assignable to \<open>K\<close> the select gets the type \<open>V\<close>, otherwise, and for every
  other \<open>T\<close>, an unsupported-operand error is emitted. Where these rules give a type, a
  test-only select records bool in its place; where they emit an error no type is
  recorded for the select, test-only or not.
\<close>

theorem ResolveSelectOperation_rules:
  assumes "operand_type = GetTypeOrDyn s operand"
    and "T = (if IsOptional operand_type then GetOptionalParameter operand_type
              else operand_type)"
    and "s' = ResolveSelectOperation V e field operand s"
    and "recorded = (\<lambda>t. (types s)(addr e \<mapsto> (if select_test_only e then BoolType else t)))"
  shows
    "(kind T = kDyn \<or> kind T = kAny \<longrightarrow> s' = s\<lparr>types := recorded DynType\<rparr>)
     \<and> (T = StructType n \<and> LookupStructField (env V) n field = Inr (Some fi) \<longrightarrow>
          s' = s\<lparr>types := recorded (stf_type fi)\<rparr>)
     \<and> (T = StructType n \<and> LookupStructField (env V) n field = Inr None \<longrightarrow>
          s' = ReportUndefinedField V (expr_id e) field n s)
     \<and> (T = MapType K Vt \<and> IsAssignable (collab V) StringType K (inference_context s) = (True, c)
          \<longrightarrow> s' = s\<lparr>inference_context := c, types := recorded Vt\<rparr>)
     \<and> (T = MapType K Vt \<and> IsAssignable (collab V) StringType K (inference_context s) = (False, c)
          \<longrightarrow> s' = unsupported_operand V e T (s\<lparr>inference_context := c\<rparr>))
     \<and> (kind T \<notin> {kDyn, kAny, kStruct, kMap} \<longrightarrow> s' = unsupported_operand V e T s)
     \<and> types (ReportUndefinedField V (expr_id e) field n s) = types s
     \<and> issues (ReportUndefinedField V (expr_id e) field n s) =
         issues s @ [CreateError (ComputeSourceLocation (ast_source_info V) (expr_id e))
           (''undefined field '' @ quote @ field @ quote @ '' not found in struct '' @ quote
              @ n @ quote)]
     \<and> types (unsupported_operand V e T s) = types s
     \<and> issues (unsupported_operand V e T s) =
         issues s @ [CreateError (ComputeSourceLocation (ast_source_info V) (expr_id e))
           (''expression of type '' @ quote @ DebugString (collab V) T @ quote
              @ '' cannot be the operand of a select operation'')]"
proof -
  have sel: "s' = (case select_impl V e field T s of
                     (None, s1) \<Rightarrow> s1
                   | (Some t, s1) \<Rightarrow>
                       s1\<lparr>types := (types s1)(addr e \<mapsto>
                             (if select_test_only e then BoolType else t))\<rparr>)"
    using assms(1,2,3)
    by (auto simp: ResolveSelectOperation_def Let_def split: prod.splits option.splits)
  have 1: "kind T = kDyn \<or> kind T = kAny \<longrightarrow> s' = s\<lparr>types := recorded DynType\<rparr>"
    using sel assms(4) by (auto simp: select_impl_dyn)
  have 2: "T = StructType n \<and> LookupStructField (env V) n field = Inr (Some fi) \<longrightarrow>
          s' = s\<lparr>types := recorded (stf_type fi)\<rparr>"
    using sel assms(4) by auto
  have 3: "T = StructType n \<and> LookupStructField (env V) n field = Inr None \<longrightarrow>
          s' = ReportUndefinedField V (expr_id e) field n s"
    using sel by auto
  have 4: "T = MapType K Vt
       \<and> IsAssignable (collab V) StringType K (inference_context s) = (True, c)
          \<longrightarrow> s' = s\<lparr>inference_context := c, types := recorded Vt\<rparr>"
    using sel assms(4) by auto
  have 5: "T = MapType K Vt
       \<and> IsAssignable (collab V) StringType K (inference_context s) = (False, c)
          \<longrightarrow> s' = unsupported_operand V e T (s\<lparr>inference_context := c\<rparr>)"
    using sel by auto
  have 6: "kind T \<notin> {kDyn, kAny, kStruct, kMap} \<longrightarrow> s' = unsupported_operand V e T s"
    using sel by (auto simp: select_impl_other)
  have 7: "types (ReportUndefinedField V (expr_id e) field n s) = types s
     \<and> issues (ReportUndefinedField V (expr_id e) field n s) =
         issues s @ [CreateError (ComputeSourceLocation (ast_source_info V) (expr_id e))
           (''undefined field '' @ quote @ field @ quote @ '' not found in struct '' @ quote
              @ n @ quote)]"
    by (simp add: ReportUndefinedField_def add_issue_def)
  have 8: "types (unsupported_operand V e T s) = types s
     \<and> issues (unsupported_operand V e T s) =
         issues s @ [CreateError (ComputeSourceLocation (ast_source_info V) (expr_id e))
           (''expression of type '' @ quote @ DebugString (collab V) T @ quote
              @ '' cannot be the operand of a select operation'')]"
    by (simp add: unsupported_operand_def add_issue_def)
  from 1 2 3 4 5 6 7 8 show ?thesis by blast
qed

theorem ResolveSelectOperation_rules_witness:
  "types (ResolveSelectOperation example_visitor has_msg_f ''f'' (ident 1 ''msg'')
              (example_state\<lparr>types := [1 \<mapsto> StructType ''pkg.M'']\<rparr>)) (addr has_msg_f)
     = Some BoolType
   \<and> types (ResolveSelectOperation example_visitor has_msg_f ''g'' (ident 1 ''msg'')
              (example_state\<lparr>types := [1 \<mapsto> StructType ''pkg.M'']\<rparr>)) (addr has_msg_f)
     = None"
  using ResolveSelectOperation_rules [where s = "example_state\<lparr>types := [1 \<mapsto> StructType ''pkg.M'']\<rparr>"
      and operand = "ident 1 ''msg''" and V = example_visitor and e = has_msg_f
      and field = "''f''" and n = "''pkg.M''" and fi = "\<lparr>stf_name = ''f'', stf_type = IntType\<rparr>",
      OF refl refl refl refl]
    ResolveSelectOperation_rules [where s = "example_state\<lparr>types := [1 \<mapsto> StructType ''pkg.M'']\<rparr>"
      and operand = "ident 1 ''msg''" and V = example_visitor and e = has_msg_f
      and field = "''g''" and n = "''pkg.M''", OF refl refl refl refl]
  by (simp add: has_msg_f_def GetTypeOrDyn_def ident_def example_visitor_def example_env_def
      ReportUndefinedField_def add_issue_def)

text \<open>
  The claim C5 as it is worded (a test-only select yields bool regardless) fails for
  \<open>has(1.f)\<close>: the operand has type int, an error is emitted and no type is recorded.
\<close>

theorem test_only_select_counterexample:
  "select_test_only has_int
   \<and> types (ResolveSelectOperation example_visitor has_int ''f'' (int_literal 1)
              (example_state\<lparr>types := [1 \<mapsto> IntType]\<rparr>)) (addr has_int) = None
   \<and> map issue_severity
        (issues (ResolveSelectOperation example_visitor has_int ''f'' (int_literal 1)
                   (example_state\<lparr>types := [1 \<mapsto> IntType]\<rparr>))) = [kError]"
  by (simp add: has_int_def ResolveSelectOperation_def GetTypeOrDyn_def int_literal_def
      example_state_def initial_state_def unsupported_operand_def add_issue_def
      CreateError_def TypeCheckIssue_def)

section \<open>What the callbacks leave unchanged\<close>

lemma add_issue_frame [simp]:
  "expr_stack (add_issue i s) = expr_stack s"
  "comprehension_scopes (add_issue i s) = comprehension_scopes s"
  "current_scope (add_issue i s) = current_scope s"
  "scopes (add_issue i s) = scopes s"
  by (simp_all add: add_issue_def)

lemma ReportMissingReference_frame [simp]:
  "expr_stack (ReportMissingReference V e n s) = expr_stack s"
  "comprehension_scopes (ReportMissingReference V e n s) = comprehension_scopes s"
  "current_scope (ReportMissingReference V e n s) = current_scope s"
  "scopes (ReportMissingReference V e n s) = scopes s"
  by (simp_all add: ReportMissingReference_def)

lemma ReportUndefinedField_frame [simp]:
  "expr_stack (ReportUndefinedField V i f n s) = expr_stack s"
  "comprehension_scopes (ReportUndefinedField V i f n s) = comprehension_scopes s"
  "current_scope (ReportUndefinedField V i f n s) = current_scope s"
  "scopes (ReportUndefinedField V i f n s) = scopes s"
  by (simp_all add: ReportUndefinedField_def)

lemma unsupported_operand_frame [simp]:
  "expr_stack (unsupported_operand V e t s) = expr_stack s"
  "comprehension_scopes (unsupported_operand V e t s) = comprehension_scopes s"
  "current_scope (unsupported_operand V e t s) = current_scope s"
  "scopes (unsupported_operand V e t s) = scopes s"
  by (simp_all add: unsupported_operand_def)

lemma select_impl_frame:
  "select_impl V e f t s = (r, s1) \<Longrightarrow>
     expr_stack s1 = expr_stack s \<and> comprehension_scopes s1 = comprehension_scopes s
     \<and> current_scope s1 = current_scope s \<and> scopes s1 = scopes s"
  by (cases t) (auto split: sum.splits option.splits prod.splits bool.splits)

lemma ResolveSelectOperation_frame [simp]:
  "expr_stack (ResolveSelectOperation V e f operand s) = expr_stack s"
  "comprehension_scopes (ResolveSelectOperation V e f operand s) = comprehension_scopes s"
  "current_scope (ResolveSelectOperation V e f operand s) = current_scope s"
  "scopes (ResolveSelectOperation V e f operand s) = scopes s"
  by (auto simp: ResolveSelectOperation_def Let_def dest: select_impl_frame
      split: prod.splits option.splits if_splits)

lemma PostVisitSelect_frame [simp]:
  "expr_stack (PostVisitSelect V e s) = expr_stack s"
  "comprehension_scopes (PostVisitSelect V e s) = comprehension_scopes s"
  "current_scope (PostVisitSelect V e s) = current_scope s"
  "scopes (PostVisitSelect V e s) = scopes s"
  by (simp_all add: PostVisitSelect_def)

lemma ResolveSimpleIdentifier_frame [simp]:
  "expr_stack (ResolveSimpleIdentifier V e n s) = expr_stack s"
  "comprehension_scopes (ResolveSimpleIdentifier V e n s) = comprehension_scopes s"
  "current_scope (ResolveSimpleIdentifier V e n s) = current_scope s"
  "scopes (ResolveSimpleIdentifier V e n s) = scopes s"
  by (simp_all add: ResolveSimpleIdentifier_def split: option.splits prod.splits)

lemma resolve_selects_frame [simp]:
  "expr_stack (resolve_selects V es s) = expr_stack s"
  "comprehension_scopes (resolve_selects V es s) = comprehension_scopes s"
  "current_scope (resolve_selects V es s) = current_scope s"
  "scopes (resolve_selects V es s) = scopes s"
  by (induction es arbitrary: s; simp)+

lemma ResolveQualifiedIdentifier_frame [simp]:
  "expr_stack (ResolveQualifiedIdentifier V e qs s) = expr_stack s"
  "comprehension_scopes (ResolveQualifiedIdentifier V e qs s) = comprehension_scopes s"
  "current_scope (ResolveQualifiedIdentifier V e qs s) = current_scope s"
  "scopes (ResolveQualifiedIdentifier V e qs s) = scopes s"
  by (simp_all add: ResolveQualifiedIdentifier_def Let_def split: option.splits prod.splits)

lemma PostVisitIdent_frame [simp]:
  "expr_stack (PostVisitIdent V e n s) = expr_stack s"
  "comprehension_scopes (PostVisitIdent V e n s) = comprehension_scopes s"
  "current_scope (PostVisitIdent V e n s) = current_scope s"
  "scopes (PostVisitIdent V e n s) = scopes s"
  by (simp_all add: PostVisitIdent_def split: list.splits option.splits prod.splits)

lemma PostVisitConst_frame [simp]:
  "expr_stack (PostVisitConst V e c s) = expr_stack s"
  "comprehension_scopes (PostVisitConst V e c s) = comprehension_scopes s"
  "current_scope (PostVisitConst V e c s) = current_scope s"
  "scopes (PostVisitConst V e c s) = scopes s"
  by (simp_all add: PostVisitConst_def split: option.splits)

lemma instantiate_type_frame [simp]:
  "expr_stack (instantiate_type V e t s) = expr_stack s"
  "comprehension_scopes (instantiate_type V e t s) = comprehension_scopes s"
  "current_scope (instantiate_type V e t s) = current_scope s"
  "scopes (instantiate_type V e t s) = scopes s"
  by (simp_all add: instantiate_type_def split: prod.splits)

lemma PostVisitList_frame [simp]:
  "expr_stack (PostVisitList V e els s) = expr_stack s"
  "comprehension_scopes (PostVisitList V e els s) = comprehension_scopes s"
  "current_scope (PostVisitList V e els s) = current_scope s"
  "scopes (PostVisitList V e els s) = scopes s"
  by (simp_all add: PostVisitList_def split: option.splits)

lemma map_entries_loop_frame:
  "map_entries_loop V entries ok ov s = (ok', ov', s1) \<Longrightarrow>
     expr_stack s1 = expr_stack s \<and> comprehension_scopes s1 = comprehension_scopes s
     \<and> current_scope s1 = current_scope s \<and> scopes s1 = scopes s"
proof (induction entries arbitrary: ok ov s)
  case Nil
  then show ?case by simp
next
  case (Cons entry rest)
  from Cons.prems Cons.IH show ?case
    by (fastforce simp: Let_def split: if_splits)
qed

lemma PostVisitMap_frame [simp]:
  "expr_stack (PostVisitMap V e entries s) = expr_stack s"
  "comprehension_scopes (PostVisitMap V e entries s) = comprehension_scopes s"
  "current_scope (PostVisitMap V e entries s) = current_scope s"
  "scopes (PostVisitMap V e entries s) = scopes s"
  by (auto simp: PostVisitMap_def dest: map_entries_loop_frame split: prod.splits option.splits)

lemma CheckFieldAssignments_frame:
  "CheckFieldAssignments V fs n s = (st, s1) \<Longrightarrow>
     expr_stack s1 = expr_stack s \<and> comprehension_scopes s1 = comprehension_scopes s
     \<and> current_scope s1 = current_scope s \<and> scopes s1 = scopes s"
proof (induction fs arbitrary: s)
  case Nil
  then show ?case by simp
next
  case (Cons f fs)
  from Cons.prems Cons.IH show ?case
    by (fastforce simp: Let_def split: sum.splits option.splits prod.splits bool.splits)
qed

lemma PostVisitStruct_frame [simp]:
  "expr_stack (PostVisitStruct V e n fs s) = expr_stack s"
  "comprehension_scopes (PostVisitStruct V e n fs s) = comprehension_scopes s"
  "current_scope (PostVisitStruct V e n fs s) = current_scope s"
  "scopes (PostVisitStruct V e n fs s) = scopes s"
  by (auto simp: PostVisitStruct_def dest: CheckFieldAssignments_frame split: prod.splits)

lemma ResolveFunctionOverloads_frame [simp]:
  "expr_stack (ResolveFunctionOverloads V e d n r ns s) = expr_stack s"
  "comprehension_scopes (ResolveFunctionOverloads V e d n r ns s) = comprehension_scopes s"
  "current_scope (ResolveFunctionOverloads V e d n r ns s) = current_scope s"
  "scopes (ResolveFunctionOverloads V e d n r ns s) = scopes s"
  by (simp_all add: ResolveFunctionOverloads_def Let_def split: prod.splits option.splits)

lemma resolve_call_frame [simp]:
  "expr_stack (resolve_call V e s) = expr_stack s"
  "comprehension_scopes (resolve_call V e s) = comprehension_scopes s"
  "current_scope (resolve_call V e s) = current_scope s"
  "scopes (resolve_call V e s) = scopes s"
  by (simp_all add: resolve_call_def Let_def split: option.splits)

lemma PostVisitCall_frame [simp]:
  "expr_stack (PostVisitCall V e s) = expr_stack s"
  "comprehension_scopes (PostVisitCall V e s) = comprehension_scopes s"
  "current_scope (PostVisitCall V e s) = current_scope s"
  "scopes (PostVisitCall V e s) = scopes s"
  by (simp_all add: PostVisitCall_def Let_def split: option.splits)

lemma add_issue_tables [simp]:
  "maybe_namespaced_functions (add_issue i s) = maybe_namespaced_functions s"
  "deferred_select_operations (add_issue i s) = deferred_select_operations s"
  by (simp_all add: add_issue_def)

lemma ReportMissingReference_tables [simp]:
  "maybe_namespaced_functions (ReportMissingReference V e n s) = maybe_namespaced_functions s"
  "deferred_select_operations (ReportMissingReference V e n s) = deferred_select_operations s"
  by (simp_all add: ReportMissingReference_def)

lemma ReportUndefinedField_tables [simp]:
  "maybe_namespaced_functions (ReportUndefinedField V i f n s) = maybe_namespaced_functions s"
  "deferred_select_operations (ReportUndefinedField V i f n s) = deferred_select_operations s"
  by (simp_all add: ReportUndefinedField_def)

lemma unsupported_operand_tables [simp]:
  "maybe_namespaced_functions (unsupported_operand V e t s) = maybe_namespaced_functions s"
  "deferred_select_operations (unsupported_operand V e t s) = deferred_select_operations s"
  by (simp_all add: unsupported_operand_def)

lemma select_impl_tables:
  "select_impl V e f t s = (r, s1) \<Longrightarrow>
     maybe_namespaced_functions s1 = maybe_namespaced_functions s
     \<and> deferred_select_operations s1 = deferred_select_operations s"
  by (cases t) (auto split: sum.splits option.splits prod.splits bool.splits)

lemma ResolveSelectOperation_tables [simp]:
  "maybe_namespaced_functions (ResolveSelectOperation V e f operand s) = maybe_namespaced_functions s"
  "deferred_select_operations (ResolveSelectOperation V e f operand s) = deferred_select_operations s"
  by (auto simp: ResolveSelectOperation_def Let_def dest: select_impl_tables
      split: prod.splits option.splits if_splits)

lemma ResolveSimpleIdentifier_tables [simp]:
  "maybe_namespaced_functions (ResolveSimpleIdentifier V e n s) = maybe_namespaced_functions s"
  "deferred_select_operations (ResolveSimpleIdentifier V e n s) = deferred_select_operations s"
  by (simp_all add: ResolveSimpleIdentifier_def split: option.splits prod.splits)

lemma resolve_selects_tables [simp]:
  "maybe_namespaced_functions (resolve_selects V es s) = maybe_namespaced_functions s"
  "deferred_select_operations (resolve_selects V es s) = deferred_select_operations s"
  by (induction es arbitrary: s; simp)+

lemma ResolveQualifiedIdentifier_tables [simp]:
  "maybe_namespaced_functions (ResolveQualifiedIdentifier V e qs s) = maybe_namespaced_functions s"
  "deferred_select_operations (ResolveQualifiedIdentifier V e qs s) = deferred_select_operations s"
  by (simp_all add: ResolveQualifiedIdentifier_def Let_def split: option.splits prod.splits)

section \<open>The frame of a traversal\<close>

lemma frame_refl [simp]: "frame s s"
  by (simp add: frame_def)

lemma take_eq_length: "take n xs = ys \<Longrightarrow> length ys = n \<Longrightarrow> n \<le> length xs"
  by (induction xs arbitrary: n ys) (auto simp: take_Cons split: nat.splits)

lemma frame_length: "frame s s' \<Longrightarrow> length (scopes s) \<le> length (scopes s')"
  by (simp add: frame_def take_eq_length [where ys = "scopes s"])

lemma frame_trans: "frame s s' \<Longrightarrow> frame s' s'' \<Longrightarrow> frame s s''"
proof -
  assume a: "frame s s'" and b: "frame s' s''"
  have len: "length (scopes s) \<le> length (scopes s')"
    using a by (rule frame_length)
  have "take (length (scopes s)) (scopes s'') =
        take (length (scopes s)) (take (length (scopes s')) (scopes s''))"
    using len by (simp add: min_def)
  also have "\<dots> = take (length (scopes s)) (scopes s')"
    using b by (simp add: frame_def)
  also have "\<dots> = scopes s" using a by (simp add: frame_def)
  finally show ?thesis using a b by (simp add: frame_def)
qed

lemma frame_same:
  "expr_stack s' = expr_stack s \<Longrightarrow> comprehension_scopes s' = comprehension_scopes s \<Longrightarrow>
   current_scope s' = current_scope s \<Longrightarrow> scopes s' = scopes s \<Longrightarrow> frame s s'"
  by (simp add: frame_def)

lemma InsertVariableIfAbsent_length [simp]:
  "length (InsertVariableIfAbsent d p scs) = length scs"
  by (simp add: InsertVariableIfAbsent_def)

lemma InsertVariableIfAbsent_take:
  "n \<le> p \<Longrightarrow> take n (InsertVariableIfAbsent d p scs) = take n scs"
  by (simp add: InsertVariableIfAbsent_def)

lemma PreVisitComprehensionSubexpression_in:
  "in_comprehension E s0 s \<Longrightarrow> comprehension_expr E = addr e \<Longrightarrow>
   in_comprehension E s0 (PreVisitComprehensionSubexpression V e arg s)
   \<and> current_scope (PreVisitComprehensionSubexpression V e arg s) = scope_for arg E"
  by (simp add: in_comprehension_def PreVisitComprehensionSubexpression_def)

lemma PostVisitComprehensionSubexpression_in:
  "in_comprehension E s0 s \<Longrightarrow> comprehension_expr E = addr e \<Longrightarrow>
   length (scopes s0) \<le> accu_scope E \<Longrightarrow> length (scopes s0) \<le> iter_scope E \<Longrightarrow>
   in_comprehension E s0 (PostVisitComprehensionSubexpression V e arg s)
   \<and> current_scope (PostVisitComprehensionSubexpression V e arg s) = parent E"
  by (cases arg)
    (simp_all add: in_comprehension_def PostVisitComprehensionSubexpression_def Let_def
      InsertVariableIfAbsent_take split: option.splits)

lemma frame_in_comprehension:
  "in_comprehension E s0 s \<Longrightarrow> frame s s' \<Longrightarrow> in_comprehension E s0 s'"
proof -
  assume a: "in_comprehension E s0 s" and b: "frame s s'"
  have len: "length (scopes s0) \<le> length (scopes s)"
    using a by (simp add: in_comprehension_def take_eq_length [where ys = "scopes s0"])
  have "take (length (scopes s0)) (scopes s') =
        take (length (scopes s0)) (take (length (scopes s)) (scopes s'))"
    using len by (simp add: min_def)
  also have "\<dots> = scopes s0" using a b by (simp add: frame_def in_comprehension_def)
  finally show ?thesis using a b by (simp add: frame_def in_comprehension_def)
qed

lemma subexpression_in:
  assumes "in_comprehension E s0 s" "comprehension_expr E = addr e"
    "length (scopes s0) \<le> accu_scope E" "length (scopes s0) \<le> iter_scope E"
    "frame (PreVisitComprehensionSubexpression V e arg s)
       (traverse V x (PreVisitComprehensionSubexpression V e arg s))"
  shows "in_comprehension E s0
           (PostVisitComprehensionSubexpression V e arg
              (traverse V x (PreVisitComprehensionSubexpression V e arg s)))
         \<and> current_scope (PostVisitComprehensionSubexpression V e arg
              (traverse V x (PreVisitComprehensionSubexpression V e arg s))) = parent E"
proof -
  have 1: "in_comprehension E s0 (PreVisitComprehensionSubexpression V e arg s)"
    using assms(1,2) PreVisitComprehensionSubexpression_in by blast
  have 2: "in_comprehension E s0
             (traverse V x (PreVisitComprehensionSubexpression V e arg s))"
    using frame_in_comprehension [OF 1 assms(5)] .
  show ?thesis
    using PostVisitComprehensionSubexpression_in [OF 2 assms(2,3,4)] .
qed

lemma PreVisitComprehension_in:
  "in_comprehension
     \<lparr>comprehension_expr = addr e, parent = current_scope s,
      accu_scope = length (scopes s), iter_scope = Suc (length (scopes s))\<rparr>
     s (PreVisitComprehension V e s)"
  by (simp add: in_comprehension_def PreVisitComprehension_def Let_def)

lemma traverse_frame:
  "frame s (traverse V t s)"
  "frame s (traverse_kind V e k s)"
  "frame s (traverse_exprs V ts s)"
  "frame s (traverse_elements V els s)"
  "frame s (traverse_fields V fs s)"
  "frame s (traverse_entries V ens s)"
proof (induction V t s and V e k s and V ts s and V els s and V fs s and V ens s
    rule: traverse_traverse_kind_traverse_exprs_traverse_elements_traverse_fields_traverse_entries.induct)
  case (1 V a i k s)
  have "frame (PreVisitExpr (Expr a i k) s)
          (traverse_kind V (Expr a i k) k (PreVisitExpr (Expr a i k) s))"
    by (rule 1)
  then show ?case
    by (simp add: frame_def PreVisitExpr_def PostVisitExpr_def)
next
  case (11 V e iv ir av ai lc ls r s)
  define E where "E = \<lparr>comprehension_expr = addr e, parent = current_scope s,
      accu_scope = length (scopes s), iter_scope = Suc (length (scopes s))\<rparr>"
  define p1 where "p1 = PostVisitComprehensionSubexpression V e ITER_RANGE
       (traverse V ir (PreVisitComprehensionSubexpression V e ITER_RANGE
          (PreVisitComprehension V e s)))"
  define p2 where "p2 = PostVisitComprehensionSubexpression V e ACCU_INIT
       (traverse V ai (PreVisitComprehensionSubexpression V e ACCU_INIT p1))"
  define p3 where "p3 = PostVisitComprehensionSubexpression V e LOOP_CONDITION
       (traverse V lc (PreVisitComprehensionSubexpression V e LOOP_CONDITION p2))"
  define p4 where "p4 = PostVisitComprehensionSubexpression V e LOOP_STEP
       (traverse V ls (PreVisitComprehensionSubexpression V e LOOP_STEP p3))"
  define p5 where "p5 = PostVisitComprehensionSubexpression V e RESULT
       (traverse V r (PreVisitComprehensionSubexpression V e RESULT p4))"
  have E: "comprehension_expr E = addr e" "length (scopes s) \<le> accu_scope E"
    "length (scopes s) \<le> iter_scope E" "parent E = current_scope s"
    by (simp_all add: E_def)
  have 0: "in_comprehension E s (PreVisitComprehension V e s)"
    unfolding E_def by (rule PreVisitComprehension_in)
  have 1: "in_comprehension E s p1 \<and> current_scope p1 = parent E"
    unfolding p1_def using 11(1) by (intro subexpression_in [OF 0 E(1,2,3)])
  have 2: "in_comprehension E s p2 \<and> current_scope p2 = parent E"
    unfolding p2_def using 1 11(2) by (intro subexpression_in [OF _ E(1,2,3)]) (simp_all add: p1_def)
  have 3: "in_comprehension E s p3 \<and> current_scope p3 = parent E"
    unfolding p3_def using 2 11(3)
    by (intro subexpression_in [OF _ E(1,2,3)]) (simp_all add: p1_def p2_def)
  have 4: "in_comprehension E s p4 \<and> current_scope p4 = parent E"
    unfolding p4_def using 3 11(4)
    by (intro subexpression_in [OF _ E(1,2,3)]) (simp_all add: p1_def p2_def p3_def)
  have 5: "in_comprehension E s p5 \<and> current_scope p5 = parent E"
    unfolding p5_def using 4 11(5)
    by (intro subexpression_in [OF _ E(1,2,3)]) (simp_all add: p1_def p2_def p3_def p4_def)
  have "traverse_kind V e (ComprehensionExpr iv ir av ai lc ls r) s
          = PostVisitComprehension V e p5"
    by (simp add: p5_def p4_def p3_def p2_def p1_def)
  then show ?case
    using 5 E(4) by (simp add: frame_def in_comprehension_def PostVisitComprehension_def)
next
  case (2 V e s)
  then show ?case by simp
next
  case (3 V e c s)
  then show ?case by (simp add: frame_def)
next
  case (4 V e n s)
  then show ?case by (simp add: frame_def)
next
  case (5 V e operand field test_only s)
  then show ?case by (simp add: frame_def)
next
  case (6 V e f args s)
  then show ?case by (simp add: frame_def)
next
  case (7 V e f target args s)
  have "frame s (traverse_exprs V args (traverse V target s))"
    using 7 by (blast intro: frame_trans)
  then show ?case by (simp add: frame_def)
next
  case (8 V e elements s)
  then show ?case by (simp add: frame_def)
next
  case (9 V e n struct_fields s)
  then show ?case by (simp add: frame_def)
next
  case (10 V e entries s)
  then show ?case by (simp add: frame_def)
next
  case (12 V s)
  then show ?case by simp
next
  case (13 V x xs s)
  then show ?case using frame_trans by fastforce
next
  case (14 V s)
  then show ?case by simp
next
  case (15 V x opt xs s)
  then show ?case using frame_trans by fastforce
next
  case (16 V s)
  then show ?case by simp
next
  case (17 V fid fname x opt xs s)
  then show ?case using frame_trans by fastforce
next
  case (18 V s)
  then show ?case by simp
next
  case (19 V eid key val opt xs s)
  have "frame s (traverse V val (traverse V key s))"
    using 19(1,2) by (blast intro: frame_trans)
  then show ?case using 19(3) frame_trans by fastforce
qed

section \<open>Qualifier chains\<close>

lemma select_not_call: "has_select_expr p \<Longrightarrow> \<not> has_call_expr p"
  by (cases p rule: has_select_expr.cases) simp_all

lemma walk_up_selects:
  "list_all (\<lambda>p. has_select_expr p \<and> \<not> select_test_only p) sels \<Longrightarrow>
   has_select_expr t_sel \<Longrightarrow> select_test_only t_sel \<Longrightarrow>
   walk_up (sels @ t_sel # rest) root_candidate qs d =
     (None, t_sel, qs @ map select_field sels @ [select_field t_sel],
      d \<union> addr ` set (sels @ [t_sel]))"
proof (induction sels arbitrary: root_candidate qs d)
  case Nil
  then show ?case by (simp add: select_not_call)
next
  case (Cons p sels)
  then show ?case by (simp add: select_not_call insert_commute)
qed

text \<open>
  Claim C10. When the parents of an identifier are select operations that are not
  test-only, followed by a test-only select, \<open>PostVisitIdent\<close> stops at that select: its
  field is the last qualifier, the selects up to it and no others are added to the deferred
  select operations, and the chain is resolved by \<open>ResolveQualifiedIdentifier\<close> at the
  test-only select. Nothing is recorded in the table of maybe-namespaced functions,
  whatever the expressions above the test-only select are, a call with the select as its
  target included.
\<close>

theorem PostVisitIdent_test_only:
  assumes "expr_stack s = x # sels @ t_sel # rest"
    and "list_all (\<lambda>p. has_select_expr p \<and> \<not> select_test_only p) sels"
    and "has_select_expr t_sel" and "select_test_only t_sel"
  shows "PostVisitIdent V e n s =
           ResolveQualifiedIdentifier V t_sel (n # map select_field sels @ [select_field t_sel])
             (s\<lparr>deferred_select_operations :=
                  deferred_select_operations s \<union> addr ` set (sels @ [t_sel])\<rparr>)
         \<and> maybe_namespaced_functions (PostVisitIdent V e n s) = maybe_namespaced_functions s
         \<and> deferred_select_operations (PostVisitIdent V e n s) =
             deferred_select_operations s \<union> addr ` set (sels @ [t_sel])"
proof -
  have eq: "PostVisitIdent V e n s =
           ResolveQualifiedIdentifier V t_sel (n # map select_field sels @ [select_field t_sel])
             (s\<lparr>deferred_select_operations :=
                  deferred_select_operations s \<union> addr ` set (sels @ [t_sel])\<rparr>)"
    using assms(1) walk_up_selects [OF assms(2,3,4), of rest x "[n]" "deferred_select_operations s"]
    by (simp add: PostVisitIdent_def)
  show ?thesis
    unfolding eq by simp
qed

theorem PostVisitIdent_test_only_witness:
  "has_select_expr has_msg_f \<and> select_test_only has_msg_f
   \<and> has_call_expr has_msg_f_size \<and> is_call_target has_msg_f_size has_msg_f
   \<and> maybe_namespaced_functions
        (PostVisitIdent example_visitor (ident 1 ''msg'') ''msg''
           (example_state\<lparr>expr_stack := [ident 1 ''msg'', has_msg_f, has_msg_f_size]\<rparr>)) 3 = None
   \<and> deferred_select_operations
        (PostVisitIdent example_visitor (ident 1 ''msg'') ''msg''
           (example_state\<lparr>expr_stack := [ident 1 ''msg'', has_msg_f, has_msg_f_size]\<rparr>)) = {2}
   \<and> PostVisitIdent example_visitor (ident 1 ''msg'') ''msg''
           (example_state\<lparr>expr_stack := [ident 1 ''msg'', has_msg_f, has_msg_f_size]\<rparr>)
       = ResolveQualifiedIdentifier example_visitor has_msg_f [''msg'', ''f'']
           (example_state\<lparr>expr_stack := [ident 1 ''msg'', has_msg_f, has_msg_f_size],
              deferred_select_operations := {2}\<rparr>)"
  using PostVisitIdent_test_only [where s = "example_state\<lparr>expr_stack := [ident 1 ''msg'', has_msg_f, has_msg_f_size]\<rparr>"
      and x = "ident 1 ''msg''" and sels = "[]" and t_sel = has_msg_f and rest = "[has_msg_f_size]"
      and V = example_visitor and e = "ident 1 ''msg''" and n = "''msg''"]
  by (simp add: has_msg_f_def has_msg_f_size_def example_state_def initial_state_def ident_def)

section \<open>Calls\<close>

lemma call_shape_candidates_Some:
  "call_shape_candidates E cs k r = Some d \<Longrightarrow>
     (\<exists>c\<in>set cs. LookupFunction E c = Some d) \<and> shape_matches d k r"
  by (induction cs) (auto split: option.splits if_splits)

lemma call_shape_candidates_None:
  "(call_shape_candidates E cs k r = None) =
     list_all (\<lambda>c. case LookupFunction E c of None \<Rightarrow> True
                    | Some d \<Rightarrow> \<not> shape_matches d k r) cs"
  by (induction cs) (auto split: option.splits if_splits)

lemma rewrite_reference_namespaced:
  "functions_map vs (addr e) = Some fr \<Longrightarrow> namespace_rewrite fr \<Longrightarrow>
   attributes vs (addr e) = None \<Longrightarrow>
   \<not> call_has_target (fst (rewrite_reference vs e rs))
   \<and> call_function (fst (rewrite_reference vs e rs)) = fn_name (decl fr)"
proof -
  assume a: "functions_map vs (addr e) = Some fr" "namespace_rewrite fr"
    "attributes vs (addr e) = None"
  obtain a' i k where e: "e = Expr a' i k" by (cases e)
  have 1: "\<not> call_has_target (clear_call_target x)" for x
    by (cases x rule: clear_call_target.cases) simp_all
  have 2: "call_function (clear_call_target x) = call_function x" for x
    by (cases x rule: clear_call_target.cases) simp_all
  have 3: "call_function (set_call_function n (Expr a' i k)) = n" for n
    by (cases k) simp_all
  show ?thesis
    using a 1 2 3 by (simp add: rewrite_reference_def Let_def e)
qed

lemma PostVisitRewrite_fst:
  "fst (PostVisitRewrite K vs e rs) = fst (rewrite_reference vs e rs)"
  by (simp add: PostVisitRewrite_def split: prod.splits option.splits sum.splits)

text \<open>
  Claim C3. For a call recorded as maybe-namespaced with the qualifiers \<open>q\<close>, the function
  named \<open>dotjoin(q).function\<close> is looked up first, as a non-member function of as many
  parameters as the call has arguments. On a hit (a candidate of the generator is declared
  with an overload of that shape) the call is resolved by \<open>ResolveFunctionOverloads\<close> as
  a namespaced call: no attribute is recorded, and when an overload matches, the function
  table holds the narrowed declaration with \<open>namespace_rewrite\<close> set; for such an entry
  the rewriter clears the target of the call and writes the name of the declaration. On a
  miss the qualifiers are resolved as a variable at the target and the call is resolved
  as a receiver call, its arity one more than its number of arguments.
\<close>

theorem PostVisitCall_maybe_namespaced:
  assumes "maybe_namespaced_functions s (addr e) = Some qualifiers"
    and "namespaced_name = StrJoin qualifiers ''.'' @ ''.'' @ call_function e"
    and "lookup = ResolveFunctionCallShape V namespaced_name (length (call_args e)) False"
  shows
    "(lookup = Some fdecl \<longrightarrow>
        (\<exists>c\<in>set (GenerateCandidates (generator V) namespaced_name).
            LookupFunction (env V) c = Some fdecl)
        \<and> list_ex (\<lambda>ovl. \<not> ovl_member ovl \<and> length (ovl_args ovl) = length (call_args e))
            (fn_overloads fdecl)
        \<and> PostVisitCall V e s =
            ResolveFunctionOverloads V e fdecl (length (call_args e)) False True s
        \<and> attributes (PostVisitCall V e s) = attributes s
        \<and> (fst (ResolveOverload (collab V) fdecl (map (GetTypeOrDyn s) (call_args e)) False
                  (inference_context s)) \<noteq> None \<longrightarrow>
             (\<exists>d. functions_map (PostVisitCall V e s) (addr e)
                    = Some \<lparr>decl = d, namespace_rewrite = True\<rparr>)))
     \<and> (functions_map vs (addr e) = Some fr \<and> namespace_rewrite fr
          \<and> attributes vs (addr e) = None \<longrightarrow>
          \<not> call_has_target (fst (PostVisitRewrite K vs e rs))
          \<and> call_function (fst (PostVisitRewrite K vs e rs)) = fn_name (decl fr))
     \<and> (lookup = None \<longrightarrow>
          PostVisitCall V e s =
            resolve_call V e (ResolveQualifiedIdentifier V (call_target e) qualifiers s))
     \<and> (call_has_target e \<longrightarrow>
          resolve_call V e sr =
            (case ResolveFunctionCallShape V (call_function e) (Suc (length (call_args e)))
                    True of
               Some d \<Rightarrow>
                 ResolveFunctionOverloads V e d (Suc (length (call_args e))) True False sr
             | None \<Rightarrow> ReportMissingReference V e (call_function e) sr))"
proof -
  have hit: "lookup = Some fdecl \<longrightarrow>
        PostVisitCall V e s =
          ResolveFunctionOverloads V e fdecl (length (call_args e)) False True s"
    using assms by (simp add: PostVisitCall_def FormatCandidate_def Let_def)
  have shape: "lookup = Some fdecl \<longrightarrow>
        (\<exists>c\<in>set (GenerateCandidates (generator V) namespaced_name).
            LookupFunction (env V) c = Some fdecl)
        \<and> list_ex (\<lambda>ovl. \<not> ovl_member ovl \<and> length (ovl_args ovl) = length (call_args e))
            (fn_overloads fdecl)"
    using assms(3) call_shape_candidates_Some [of "env V" _ "length (call_args e)" False fdecl]
    by (auto simp: ResolveFunctionCallShape_def shape_matches_def)
  have attrs: "attributes (ResolveFunctionOverloads V e fdecl k r ns s) = attributes s"
    for k r ns
    by (simp add: ResolveFunctionOverloads_def Let_def add_issue_def
        split: prod.splits option.splits)
  have fm: "fst (ResolveOverload (collab V) fdecl (map (GetTypeOrDyn s) (call_args e)) False
                  (inference_context s)) \<noteq> None \<longrightarrow>
             (\<exists>d. functions_map
                    (ResolveFunctionOverloads V e fdecl (length (call_args e)) False True s)
                    (addr e) = Some \<lparr>decl = d, namespace_rewrite = True\<rparr>)"
    by (auto simp: ResolveFunctionOverloads_def Let_def call_arg_types_def
        split: prod.splits option.splits)
  have rw: "functions_map vs (addr e) = Some fr \<and> namespace_rewrite fr
          \<and> attributes vs (addr e) = None \<longrightarrow>
          \<not> call_has_target (fst (PostVisitRewrite K vs e rs))
          \<and> call_function (fst (PostVisitRewrite K vs e rs)) = fn_name (decl fr)"
    using rewrite_reference_namespaced [of vs e fr rs] by (simp add: PostVisitRewrite_fst)
  have miss: "lookup = None \<longrightarrow>
          PostVisitCall V e s =
            resolve_call V e (ResolveQualifiedIdentifier V (call_target e) qualifiers s)"
    using assms by (simp add: PostVisitCall_def FormatCandidate_def Let_def)
  have recv: "call_has_target e \<longrightarrow>
          resolve_call V e sr =
            (case ResolveFunctionCallShape V (call_function e) (Suc (length (call_args e)))
                    True of
               Some d \<Rightarrow>
                 ResolveFunctionOverloads V e d (Suc (length (call_args e))) True False sr
             | None \<Rightarrow> ReportMissingReference V e (call_function e) sr)"
    by (auto simp: resolve_call_def Let_def split: option.splits)
  from hit shape attrs fm rw miss recv show ?thesis by simp
qed

theorem PostVisitCall_maybe_namespaced_witness:
  "maybe_namespaced_functions a_b_c_state (addr call_a_b_c) = Some [''a'', ''b'']
   \<and> functions_map (PostVisitCall example_visitor call_a_b_c a_b_c_state) 4
       = Some \<lparr>decl = \<lparr>fn_name = ''a.b.c'',
            fn_overloads =
              [\<lparr>ovl_id = ''a_b_c_int'', ovl_member = False, ovl_args = [IntType],
                ovl_result = IntType\<rparr>]\<rparr>, namespace_rewrite = True\<rparr>
   \<and> \<not> call_has_target (fst (PostVisitRewrite spec_collaborators
      (PostVisitCall example_visitor call_a_b_c a_b_c_state) call_a_b_c
      \<lparr>rw_status = OkStatus, rw_reference_map = Map.empty, rw_type_map = Map.empty\<rparr>))
   \<and> maybe_namespaced_functions xs_size_state (addr call_xs_size) = Some [''xs'']
   \<and> ResolveFunctionCallShape example_visitor ''xs.size'' 0 False = None
   \<and> functions_map (PostVisitCall example_visitor call_xs_size xs_size_state) 2
       = Some \<lparr>decl = \<lparr>fn_name = ''size'',
            fn_overloads =
              [\<lparr>ovl_id = ''list_size'', ovl_member = True,
                ovl_args = [ListType (TypeParamType ''T'')], ovl_result = IntType\<rparr>]\<rparr>,
            namespace_rewrite = False\<rparr>
   \<and> attributes (PostVisitCall example_visitor call_xs_size xs_size_state) 1
       = Some (None, MakeVariableDecl ''xs'' (ListType IntType))
   \<and> PostVisitCall example_visitor call_xs_size xs_size_state =
       resolve_call example_visitor call_xs_size
         (ResolveQualifiedIdentifier example_visitor (call_target call_xs_size) [''xs'']
            xs_size_state)"
proof -
  have ev: "maybe_namespaced_functions a_b_c_state (addr call_a_b_c) = Some [''a'', ''b'']
   \<and> functions_map (PostVisitCall example_visitor call_a_b_c a_b_c_state) 4
       = Some \<lparr>decl = \<lparr>fn_name = ''a.b.c'',
            fn_overloads =
              [\<lparr>ovl_id = ''a_b_c_int'', ovl_member = False, ovl_args = [IntType],
                ovl_result = IntType\<rparr>]\<rparr>, namespace_rewrite = True\<rparr>
   \<and> \<not> call_has_target (fst (PostVisitRewrite spec_collaborators
      (PostVisitCall example_visitor call_a_b_c a_b_c_state) call_a_b_c
      \<lparr>rw_status = OkStatus, rw_reference_map = Map.empty, rw_type_map = Map.empty\<rparr>))
   \<and> maybe_namespaced_functions xs_size_state (addr call_xs_size) = Some [''xs'']
   \<and> ResolveFunctionCallShape example_visitor ''xs.size'' 0 False = None
   \<and> functions_map (PostVisitCall example_visitor call_xs_size xs_size_state) 2
       = Some \<lparr>decl = \<lparr>fn_name = ''size'',
            fn_overloads =
              [\<lparr>ovl_id = ''list_size'', ovl_member = True,
                ovl_args = [ListType (TypeParamType ''T'')], ovl_result = IntType\<rparr>]\<rparr>,
            namespace_rewrite = False\<rparr>
   \<and> attributes (PostVisitCall example_visitor call_xs_size xs_size_state) 1
       = Some (None, MakeVariableDecl ''xs'' (ListType IntType))"
    by code_simp
  have hyp: "maybe_namespaced_functions xs_size_state (addr call_xs_size) = Some [''xs'']"
    "ResolveFunctionCallShape example_visitor
       (StrJoin [''xs''] ''.'' @ ''.'' @ call_function call_xs_size)
       (length (call_args call_xs_size)) False = None"
    by code_simp+
  have miss: "PostVisitCall example_visitor call_xs_size xs_size_state =
       resolve_call example_visitor call_xs_size
         (ResolveQualifiedIdentifier example_visitor (call_target call_xs_size) [''xs'']
            xs_size_state)"
    using PostVisitCall_maybe_namespaced [where s = xs_size_state and e = call_xs_size
        and V = example_visitor and fdecl = undefined and vs = xs_size_state
        and fr = undefined and K = spec_collaborators and rs = undefined
        and sr = xs_size_state, OF hyp(1) refl refl] hyp(2)
    by blast
  show ?thesis using ev miss by blast
qed

section \<open>The iteration variable\<close>

lemma range_iter_type_other:
  "kind t \<notin> {kList, kMap, kDyn} \<Longrightarrow> range_iter_type t = None"
  by (cases t) simp_all

lemma take_nth_eq: "take m xs = ys \<Longrightarrow> j < length ys \<Longrightarrow> xs ! j = ys ! j"
  by (metis length_take min_less_iff_conj nth_take)

text \<open>
  Claim C7. In the traversal of a comprehension, entered in the state \<open>s\<close>, let \<open>s1\<close>
  be the state after the range was visited and \<open>s2\<close> the state after the hook that
  follows it. Then the iteration variable is declared in the iteration scope of the
  comprehension, with the element type when the range has the type \<open>list(t)\<close>, the key
  type when it has the type \<open>map(k, v)\<close>, and dyn when it has the type dyn; for a range
  type of any other kind it is declared with dyn and the error that the range must be
  list, map, or dynamic is added to the issues.
\<close>

theorem iter_var_type:
  assumes "e = Expr a i (ComprehensionExpr iv ir av ai lc ls r)"
    and "s1 = traverse V ir
                (PreVisitComprehensionSubexpression V e ITER_RANGE (PreVisitComprehension V e s))"
    and "s2 = PostVisitComprehensionSubexpression V e ITER_RANGE s1"
    and "range_type = GetTypeOrDyn s1 ir"
    and "iter_scope_ptr = Suc (length (scopes s))"
    and "declared = (\<lambda>t. LookupVariable (env V) (scopes s2) iter_scope_ptr iv
                          = Some (Some iter_scope_ptr, MakeVariableDecl iv t))"
  shows "(range_type = ListType t \<longrightarrow> declared t \<and> issues s2 = issues s1)
       \<and> (range_type = MapType k v \<longrightarrow> declared k \<and> issues s2 = issues s1)
       \<and> (range_type = DynType \<longrightarrow> declared DynType \<and> issues s2 = issues s1)
       \<and> (kind range_type \<notin> {kList, kMap, kDyn} \<longrightarrow>
            declared DynType \<and> issues s2 = issues s1 @ [unsupported_range V e range_type])
       \<and> issue_severity (unsupported_range V e range_type) = kError
       \<and> issue_message (unsupported_range V e range_type) =
           ''expression of type '' @ quote @ DebugString (collab V) range_type @ quote
             @ '' cannot be the range of a comprehension (must be list, map, or dynamic)''
       \<and> hd (comprehension_scopes s1) =
           \<lparr>comprehension_expr = a, parent = current_scope s,
            accu_scope = length (scopes s), iter_scope = iter_scope_ptr\<rparr>"
proof -
  define E where "E = \<lparr>comprehension_expr = a, parent = current_scope s,
            accu_scope = length (scopes s), iter_scope = iter_scope_ptr\<rparr>"
  define sA where
    "sA = PreVisitComprehensionSubexpression V e ITER_RANGE (PreVisitComprehension V e s)"
  have sA: "comprehension_scopes sA = E # comprehension_scopes s"
    "scopes sA = scopes s @ [MakeNestedScope (current_scope s),
                             MakeNestedScope (length (scopes s))]"
    by (simp_all add: sA_def E_def assms(1,5) PreVisitComprehensionSubexpression_def
        PreVisitComprehension_def Let_def)
  have fr: "frame sA s1"
    unfolding assms(2) sA_def [symmetric] by (rule traverse_frame)
  have cs: "comprehension_scopes s1 = E # comprehension_scopes s"
    using fr sA by (simp add: frame_def)
  have tk: "take (length (scopes s) + 2) (scopes s1) = scopes sA"
    using fr sA by (simp add: frame_def)
  have len: "iter_scope_ptr < length (scopes s1)"
    using frame_length [OF fr] sA by (simp add: assms(5))
  have nth: "scopes s1 ! iter_scope_ptr = MakeNestedScope (length (scopes s))"
    using take_nth_eq [OF tk, of iter_scope_ptr] sA
    by (simp add: assms(5) nth_append)
  have ins: "LookupVariable (env V)
               (InsertVariableIfAbsent (MakeVariableDecl iv t') iter_scope_ptr (scopes s1))
               iter_scope_ptr iv
             = Some (Some iter_scope_ptr, MakeVariableDecl iv t')" for t'
    using len nth
    by (simp add: LookupVariable.simps [of _ _ iter_scope_ptr] InsertVariableIfAbsent_def
        MakeNestedScope_def MakeVariableDecl_def)
  have rt: "GetTypeOrDyn (s1\<lparr>current_scope := c\<rparr>) (iter_range e) = range_type" for c
    by (simp add: assms(1,4) GetTypeOrDyn_def)
  have some: "scopes s2 = InsertVariableIfAbsent (MakeVariableDecl iv t') iter_scope_ptr
                            (scopes s1) \<and> issues s2 = issues s1"
    if "range_iter_type range_type = Some t'" for t'
    using cs that
    by (simp add: assms(3) PostVisitComprehensionSubexpression_def E_def Let_def rt)
      (simp add: assms(1))
  have none: "scopes s2 = InsertVariableIfAbsent (MakeVariableDecl iv DynType) iter_scope_ptr
                            (scopes s1)
                \<and> issues s2 = issues s1 @ [unsupported_range V e range_type]"
    if "range_iter_type range_type = None"
    using cs that
    by (simp add: assms(3) PostVisitComprehensionSubexpression_def E_def Let_def rt
        add_issue_def)
      (simp add: assms(1))
  have 1: "range_type = ListType t \<longrightarrow> declared t \<and> issues s2 = issues s1"
    using ins some [of t] by (simp add: assms(6))
  have 2: "range_type = MapType k v \<longrightarrow> declared k \<and> issues s2 = issues s1"
    using ins some [of k] by (simp add: assms(6))
  have 3: "range_type = DynType \<longrightarrow> declared DynType \<and> issues s2 = issues s1"
    using ins some [of DynType] by (simp add: assms(6))
  have 4: "kind range_type \<notin> {kList, kMap, kDyn} \<longrightarrow>
            declared DynType \<and> issues s2 = issues s1 @ [unsupported_range V e range_type]"
    using ins none by (auto simp: assms(6) range_iter_type_other)
  have 5: "issue_severity (unsupported_range V e range_type) = kError
       \<and> issue_message (unsupported_range V e range_type) =
           ''expression of type '' @ quote @ DebugString (collab V) range_type @ quote
             @ '' cannot be the range of a comprehension (must be list, map, or dynamic)''"
    by (simp add: unsupported_range_def CreateError_def TypeCheckIssue_def)
  have 6: "hd (comprehension_scopes s1) = E" by (simp add: cs)
  from 1 2 3 4 5 6 show ?thesis unfolding E_def by blast
qed

theorem iter_var_type_witness:
  "GetTypeOrDyn after_range comp_range = ListType IntType
   \<and> LookupVariable (env example_visitor)
        (scopes (PostVisitComprehensionSubexpression example_visitor comp_example ITER_RANGE
                   after_range))
        2 ''x''
       = Some (Some 2, MakeVariableDecl ''x'' IntType)
   \<and> issues (PostVisitComprehensionSubexpression example_visitor comp_example ITER_RANGE
               after_range) = []"
proof -
  have ev: "GetTypeOrDyn after_range comp_range = ListType IntType"
    "issues after_range = []" "length (scopes example_state) = 1"
    by code_simp+
  show ?thesis
    using iter_var_type [where V = example_visitor and s = example_state and t = IntType,
        OF comp_example_def refl refl refl refl refl]
    by (simp add: after_range_def [symmetric] ev numeral_2_eq_2)
qed

section \<open>Undeclared functions and unmatched overloads\<close>

text \<open>
  Claim C4, as amended. A call that was recorded as possibly namespaced
  (its target is a chain \<open>q\<close> of an identifier and selects) is first looked up as the
  function \<open>q.f\<close> in the non-member style with the arity of its arguments; when a candidate
  is declared with an overload of that shape, the call is resolved against it, and when
  overload resolution fails the error \<open>found no matching overload\<close> is emitted with the
  debug strings of the types of the arguments. Every other call, and a recorded call with
  no such declaration after its target is resolved as an attribute, is resolved by name
  and by shape together: when no candidate of the function name is declared with an
  overload of the style (member or not) and the arity of the call, counting the target,
  an undeclared-reference error naming the function is emitted, also when a declaration
  of that name exists; when a candidate is declared with an overload of that shape and
  overload resolution finds no overload for the argument types, the error
  \<open>found no matching overload\<close> is emitted with the debug strings of the argument types.
  With that error neither a type nor a function is recorded for the call, and a call whose
  overload resolution succeeds adds no issue.
\<close>

theorem PostVisitCall_errors:
  assumes "is_receiver = call_has_target e"
    and "arg_count = length (call_args e) + (if is_receiver then 1 else 0)"
    and "namespaced =
           (case maybe_namespaced_functions s (addr e) of
              None \<Rightarrow> None
            | Some qualifiers \<Rightarrow>
                ResolveFunctionCallShape V (FormatCandidate qualifiers @ ''.'' @ call_function e)
                  (length (call_args e)) False)"
    and "sr = (case maybe_namespaced_functions s (addr e) of
                 None \<Rightarrow> s
               | Some qualifiers \<Rightarrow> ResolveQualifiedIdentifier V (call_target e) qualifiers s)"
    and "arg_types = (if is_receiver then [GetTypeOrDyn sr (call_target e)] else [])
                       @ map (GetTypeOrDyn sr) (call_args e)"
    and "plain_types = map (GetTypeOrDyn s) (call_args e)"
    and "shape = ResolveFunctionCallShape V (call_function e) arg_count is_receiver"
  shows
    "(namespaced = Some ndecl
        \<and> fst (ResolveOverload (collab V) ndecl plain_types False (inference_context s)) = None
       \<longrightarrow> issues (PostVisitCall V e s) = issues s @ [no_matching_overload V e ndecl plain_types]
           \<and> types (PostVisitCall V e s) = types s
           \<and> functions_map (PostVisitCall V e s) = functions_map s)
     \<and> (namespaced = Some ndecl
        \<and> fst (ResolveOverload (collab V) ndecl plain_types False (inference_context s)) \<noteq> None
       \<longrightarrow> issues (PostVisitCall V e s) = issues s)
     \<and> (namespaced = None \<and> shape = None
       \<longrightarrow> PostVisitCall V e s = ReportMissingReference V e (call_function e) sr)
     \<and> (namespaced = None \<and> shape = Some fdecl
        \<and> fst (ResolveOverload (collab V) fdecl arg_types is_receiver (inference_context sr))
            = None
       \<longrightarrow> issues (PostVisitCall V e s) = issues sr @ [no_matching_overload V e fdecl arg_types]
           \<and> types (PostVisitCall V e s) = types sr
           \<and> functions_map (PostVisitCall V e s) = functions_map sr)
     \<and> (namespaced = None \<and> shape = Some fdecl
        \<and> fst (ResolveOverload (collab V) fdecl arg_types is_receiver (inference_context sr))
            \<noteq> None
       \<longrightarrow> issues (PostVisitCall V e s) = issues sr)
     \<and> (ResolveFunctionCallShape V n k r = None) =
         list_all (\<lambda>c. case LookupFunction (env V) c of
                          None \<Rightarrow> True
                        | Some d \<Rightarrow>
                            \<not> list_ex (\<lambda>ovl. ovl_member ovl = r \<and> length (ovl_args ovl) = k)
                                (fn_overloads d))
           (GenerateCandidates (generator V) n)
     \<and> (ResolveFunctionCallShape V n k r = Some d
        \<longrightarrow> (\<exists>c\<in>set (GenerateCandidates (generator V) n). LookupFunction (env V) c = Some d)
            \<and> list_ex (\<lambda>ovl. ovl_member ovl = r \<and> length (ovl_args ovl) = k)
                (fn_overloads d))
     \<and> issues (ReportMissingReference V e (call_function e) sr) =
         issues sr @ [CreateError (ComputeSourceLocation (ast_source_info V) (expr_id e))
           (''undeclared reference to '' @ quote @ call_function e @ quote
              @ '' (in container '' @ quote @ container (env V) @ quote @ '')'')]
     \<and> no_matching_overload V e fdecl arg_types =
         CreateError (ComputeSourceLocation (ast_source_info V) (expr_id e))
           (''found no matching overload for '' @ quote @ fn_name fdecl @ quote
              @ '' applied to ('' @ StrJoin (map (DebugString (collab V)) arg_types) '', ''
              @ '')'')"
proof -
  have pv: "PostVisitCall V e s =
      (case namespaced of
         Some nd \<Rightarrow> ResolveFunctionOverloads V e nd (length (call_args e)) False True s
       | None \<Rightarrow> resolve_call V e sr)"
    by (simp add: PostVisitCall_def Let_def assms(3,4) split: option.splits)
  have rc: "resolve_call V e sr =
      (case shape of
         Some fd \<Rightarrow> ResolveFunctionOverloads V e fd arg_count is_receiver False sr
       | None \<Rightarrow> ReportMissingReference V e (call_function e) sr)"
    by (cases "call_has_target e")
      (simp_all add: resolve_call_def Let_def assms(1,2,7) split: option.splits)
  have fail: "issues (ResolveFunctionOverloads V e fd cnt rcv ns st)
                = issues st @ [no_matching_overload V e fd (call_arg_types st e rcv)]
              \<and> types (ResolveFunctionOverloads V e fd cnt rcv ns st) = types st
              \<and> functions_map (ResolveFunctionOverloads V e fd cnt rcv ns st) = functions_map st"
    if "fst (ResolveOverload (collab V) fd (call_arg_types st e rcv) rcv (inference_context st))
          = None"
    for fd cnt rcv ns st
    using that
    by (auto simp: ResolveFunctionOverloads_def Let_def add_issue_def split: prod.splits)
  have ok: "issues (ResolveFunctionOverloads V e fd cnt rcv ns st) = issues st"
    if "fst (ResolveOverload (collab V) fd (call_arg_types st e rcv) rcv (inference_context st))
          \<noteq> None"
    for fd cnt rcv ns st
    using that
    by (auto simp: ResolveFunctionOverloads_def Let_def split: prod.splits option.splits)
  have pt: "call_arg_types s e False = plain_types"
    by (simp add: call_arg_types_def assms(6))
  have at: "call_arg_types sr e is_receiver = arg_types"
    by (simp add: call_arg_types_def assms(5))
  have 1: "namespaced = Some ndecl
        \<and> fst (ResolveOverload (collab V) ndecl plain_types False (inference_context s)) = None
       \<longrightarrow> issues (PostVisitCall V e s) = issues s @ [no_matching_overload V e ndecl plain_types]
           \<and> types (PostVisitCall V e s) = types s
           \<and> functions_map (PostVisitCall V e s) = functions_map s"
    using fail [of ndecl s False "length (call_args e)" True] by (simp add: pv pt)
  have 2: "namespaced = Some ndecl
        \<and> fst (ResolveOverload (collab V) ndecl plain_types False (inference_context s)) \<noteq> None
       \<longrightarrow> issues (PostVisitCall V e s) = issues s"
    using ok [of ndecl s False "length (call_args e)" True] by (simp add: pv pt)
  have 3: "namespaced = None \<and> shape = None
       \<longrightarrow> PostVisitCall V e s = ReportMissingReference V e (call_function e) sr"
    by (simp add: pv rc)
  have 4: "namespaced = None \<and> shape = Some fdecl
        \<and> fst (ResolveOverload (collab V) fdecl arg_types is_receiver (inference_context sr))
            = None
       \<longrightarrow> issues (PostVisitCall V e s) = issues sr @ [no_matching_overload V e fdecl arg_types]
           \<and> types (PostVisitCall V e s) = types sr
           \<and> functions_map (PostVisitCall V e s) = functions_map sr"
    using fail [of fdecl sr is_receiver arg_count False] by (simp add: pv rc at)
  have 5: "namespaced = None \<and> shape = Some fdecl
        \<and> fst (ResolveOverload (collab V) fdecl arg_types is_receiver (inference_context sr))
            \<noteq> None
       \<longrightarrow> issues (PostVisitCall V e s) = issues sr"
    using ok [of fdecl sr is_receiver arg_count False] by (simp add: pv rc at)
  have 6: "(ResolveFunctionCallShape V n k r = None) =
         list_all (\<lambda>c. case LookupFunction (env V) c of
                          None \<Rightarrow> True
                        | Some d \<Rightarrow>
                            \<not> list_ex (\<lambda>ovl. ovl_member ovl = r \<and> length (ovl_args ovl) = k)
                                (fn_overloads d))
           (GenerateCandidates (generator V) n)"
    using call_shape_candidates_None [of "env V" "GenerateCandidates (generator V) n" k r,
        unfolded shape_matches_def]
    by (simp add: ResolveFunctionCallShape_def)
  have 7: "ResolveFunctionCallShape V n k r = Some d
        \<longrightarrow> (\<exists>c\<in>set (GenerateCandidates (generator V) n). LookupFunction (env V) c = Some d)
            \<and> list_ex (\<lambda>ovl. ovl_member ovl = r \<and> length (ovl_args ovl) = k)
                (fn_overloads d)"
    using call_shape_candidates_Some [of "env V" "GenerateCandidates (generator V) n" k r d]
    by (auto simp: ResolveFunctionCallShape_def shape_matches_def)
  have 8: "issues (ReportMissingReference V e (call_function e) sr) =
         issues sr @ [CreateError (ComputeSourceLocation (ast_source_info V) (expr_id e))
           (''undeclared reference to '' @ quote @ call_function e @ quote
              @ '' (in container '' @ quote @ container (env V) @ quote @ '')'')]"
    by (simp add: ReportMissingReference_def add_issue_def)
  have 9: "no_matching_overload V e fdecl arg_types =
         CreateError (ComputeSourceLocation (ast_source_info V) (expr_id e))
           (''found no matching overload for '' @ quote @ fn_name fdecl @ quote
              @ '' applied to ('' @ StrJoin (map (DebugString (collab V)) arg_types) '', ''
              @ '')'')"
    by (simp add: no_matching_overload_def)
  show ?thesis
    using 1 2 3 4 5 6 7 8 9 by (intro conjI)
qed

theorem PostVisitCall_errors_witness:
  "map issue_message (issues (PostVisitCall example_visitor call_a_b_c a_b_c_string_state))
     = [''found no matching overload for '' @ quote @ ''a.b.c'' @ quote
          @ '' applied to (string)'']
   \<and> types (PostVisitCall example_visitor call_a_b_c a_b_c_string_state) 4 = None
   \<and> map issue_message (issues (PostVisitCall example_visitor call_x_f x_receiver_state))
       = [''undeclared reference to '' @ quote @ ''f'' @ quote @ '' (in container '' @ quote
            @ ''pkg'' @ quote @ '')'']
   \<and> map issue_message (issues (PostVisitCall example_visitor call_x_size x_receiver_state))
       = [''found no matching overload for '' @ quote @ ''size'' @ quote
            @ '' applied to (int)'']
   \<and> issues (PostVisitCall example_visitor call_xs_size xs_size_state) = []"
proof -
  note abc = PostVisitCall_errors [where V = example_visitor and e = call_a_b_c
      and s = a_b_c_string_state and ndecl = a_b_c_decl, OF refl refl refl refl refl refl refl]
  note xf = PostVisitCall_errors [where V = example_visitor and e = call_x_f
      and s = x_receiver_state, OF refl refl refl refl refl refl refl]
  note xsize = PostVisitCall_errors [where V = example_visitor and e = call_x_size
      and s = x_receiver_state and fdecl = size_decl, OF refl refl refl refl refl refl refl]
  note xssize = PostVisitCall_errors [where V = example_visitor and e = call_xs_size
      and s = xs_size_state and fdecl = size_decl, OF refl refl refl refl refl refl refl]
  have abc_hyp:
    "(case maybe_namespaced_functions a_b_c_string_state (addr call_a_b_c) of
        None \<Rightarrow> None
      | Some qualifiers \<Rightarrow>
          ResolveFunctionCallShape example_visitor
            (FormatCandidate qualifiers @ ''.'' @ call_function call_a_b_c)
            (length (call_args call_a_b_c)) False) = Some a_b_c_decl
     \<and> fst (ResolveOverload (collab example_visitor) a_b_c_decl
              (map (GetTypeOrDyn a_b_c_string_state) (call_args call_a_b_c)) False
              (inference_context a_b_c_string_state)) = None"
    by code_simp
  have abc_ev: "issues a_b_c_string_state = []" "types a_b_c_string_state 4 = None"
    "map issue_message
       [no_matching_overload example_visitor call_a_b_c a_b_c_decl
          (map (GetTypeOrDyn a_b_c_string_state) (call_args call_a_b_c))]
     = [''found no matching overload for '' @ quote @ ''a.b.c'' @ quote
          @ '' applied to (string)'']"
    by code_simp+
  have 1: "map issue_message (issues (PostVisitCall example_visitor call_a_b_c a_b_c_string_state))
     = [''found no matching overload for '' @ quote @ ''a.b.c'' @ quote
          @ '' applied to (string)'']
     \<and> types (PostVisitCall example_visitor call_a_b_c a_b_c_string_state) 4 = None"
    using abc [THEN conjunct1, THEN mp, OF abc_hyp] abc_ev by simp
  let ?nsf = "case maybe_namespaced_functions x_receiver_state (addr call_x_f) of
        None \<Rightarrow> None
      | Some qualifiers \<Rightarrow>
          ResolveFunctionCallShape example_visitor
            (FormatCandidate qualifiers @ ''.'' @ call_function call_x_f)
            (length (call_args call_x_f)) False"
  let ?srf = "case maybe_namespaced_functions x_receiver_state (addr call_x_f) of
        None \<Rightarrow> x_receiver_state
      | Some qualifiers \<Rightarrow>
          ResolveQualifiedIdentifier example_visitor (call_target call_x_f) qualifiers x_receiver_state"
  let ?shapef = "ResolveFunctionCallShape example_visitor (call_function call_x_f)
        (length (call_args call_x_f) + (if call_has_target call_x_f then 1 else 0))
        (call_has_target call_x_f)"
  let ?argsf = "(if call_has_target call_x_f then [GetTypeOrDyn ?srf (call_target call_x_f)]
                  else [])
                 @ map (GetTypeOrDyn ?srf) (call_args call_x_f)"
  have xf_hyp: "?nsf = None \<and> ?shapef = None"
    by code_simp
  have xf_ev: "map issue_message
       (issues (ReportMissingReference example_visitor call_x_f (call_function call_x_f) ?srf))
     = [''undeclared reference to '' @ quote @ ''f'' @ quote @ '' (in container '' @ quote
          @ ''pkg'' @ quote @ '')'']"
    by code_simp
  have 2: "map issue_message (issues (PostVisitCall example_visitor call_x_f x_receiver_state))
       = [''undeclared reference to '' @ quote @ ''f'' @ quote @ '' (in container '' @ quote
            @ ''pkg'' @ quote @ '')'']"
    using xf [THEN conjunct2, THEN conjunct2, THEN conjunct1, THEN mp, OF xf_hyp] xf_ev
    by simp
  let ?nsz = "case maybe_namespaced_functions x_receiver_state (addr call_x_size) of
        None \<Rightarrow> None
      | Some qualifiers \<Rightarrow>
          ResolveFunctionCallShape example_visitor
            (FormatCandidate qualifiers @ ''.'' @ call_function call_x_size)
            (length (call_args call_x_size)) False"
  let ?srz = "case maybe_namespaced_functions x_receiver_state (addr call_x_size) of
        None \<Rightarrow> x_receiver_state
      | Some qualifiers \<Rightarrow>
          ResolveQualifiedIdentifier example_visitor (call_target call_x_size) qualifiers x_receiver_state"
  let ?shapez = "ResolveFunctionCallShape example_visitor (call_function call_x_size)
        (length (call_args call_x_size) + (if call_has_target call_x_size then 1 else 0))
        (call_has_target call_x_size)"
  let ?argsz = "(if call_has_target call_x_size then [GetTypeOrDyn ?srz (call_target call_x_size)]
                  else [])
                 @ map (GetTypeOrDyn ?srz) (call_args call_x_size)"
  have xsize_hyp: "?nsz = None \<and> ?shapez = Some size_decl
     \<and> fst (ResolveOverload (collab example_visitor) size_decl ?argsz
              (call_has_target call_x_size) (inference_context ?srz)) = None"
    by code_simp
  have xsize_ev: "issues ?srz = []"
    "map issue_message [no_matching_overload example_visitor call_x_size size_decl ?argsz]
     = [''found no matching overload for '' @ quote @ ''size'' @ quote
          @ '' applied to (int)'']"
    by code_simp+
  have 3: "map issue_message
        (issues (PostVisitCall example_visitor call_x_size x_receiver_state))
       = [''found no matching overload for '' @ quote @ ''size'' @ quote
            @ '' applied to (int)'']"
    using xsize [THEN conjunct2, THEN conjunct2, THEN conjunct2, THEN conjunct1, THEN mp,
        OF xsize_hyp] xsize_ev
    by simp
  let ?nsl = "case maybe_namespaced_functions xs_size_state (addr call_xs_size) of
        None \<Rightarrow> None
      | Some qualifiers \<Rightarrow>
          ResolveFunctionCallShape example_visitor
            (FormatCandidate qualifiers @ ''.'' @ call_function call_xs_size)
            (length (call_args call_xs_size)) False"
  let ?srl = "case maybe_namespaced_functions xs_size_state (addr call_xs_size) of
        None \<Rightarrow> xs_size_state
      | Some qualifiers \<Rightarrow>
          ResolveQualifiedIdentifier example_visitor (call_target call_xs_size) qualifiers xs_size_state"
  let ?shapel = "ResolveFunctionCallShape example_visitor (call_function call_xs_size)
        (length (call_args call_xs_size) + (if call_has_target call_xs_size then 1 else 0))
        (call_has_target call_xs_size)"
  let ?argsl = "(if call_has_target call_xs_size then [GetTypeOrDyn ?srl (call_target call_xs_size)]
                  else [])
                 @ map (GetTypeOrDyn ?srl) (call_args call_xs_size)"
  have xssize_hyp: "?nsl = None \<and> ?shapel = Some size_decl
     \<and> fst (ResolveOverload (collab example_visitor) size_decl ?argsl
              (call_has_target call_xs_size) (inference_context ?srl)) \<noteq> None"
    by code_simp
  have xssize_ev: "issues ?srl = []"
    by code_simp
  have 4: "issues (PostVisitCall example_visitor call_xs_size xs_size_state) = []"
    using xssize [THEN conjunct2, THEN conjunct2, THEN conjunct2, THEN conjunct2,
        THEN conjunct1, THEN mp, OF xssize_hyp] xssize_ev
    by simp
  show ?thesis
    using 1 2 3 4 by (intro conjI) simp_all
qed

text \<open>
  The claim C4 as it is worded fails for \<open>f(1, 2)\<close>: the declaration of \<open>f\<close> matches by
  name and overload resolution finds no overload for two int arguments, but the issue is
  the undeclared reference to \<open>f\<close>, not \<open>found no matching overload\<close>.
\<close>

theorem name_match_counterexample:
  "LookupFunction (env example_visitor) ''f'' = Some f_decl
   \<and> ''f'' \<in> set (GenerateCandidates (generator example_visitor) (call_function call_f_1_2))
   \<and> fst (ResolveOverload (collab example_visitor) f_decl [IntType, IntType] False
            (inference_context example_state)) = None
   \<and> map issue_message
        (issues (PostVisitCall example_visitor call_f_1_2
                   (example_state\<lparr>types := [1 \<mapsto> IntType, 2 \<mapsto> IntType]\<rparr>)))
       = [''undeclared reference to '' @ quote @ ''f'' @ quote @ '' (in container '' @ quote
            @ ''pkg'' @ quote @ '')'']"
  by code_simp

section \<open>The result of a check\<close>

lemma has_error_iff: "has_error is = (\<exists>i\<in>set is. issue_severity i = kError)"
  by (simp add: has_error_def list_ex_iff)

text \<open>
  Claim C1. Let \<open>vs\<close> be the state of the visitor after the traversal. When \<open>Check\<close>
  returns a result, the result has no AST exactly when one of its issues has error
  severity, and its issues are the accumulated issues. With an issue of error severity the
  result is the issues alone; without one, and when the rewriter succeeds, the result
  carries the rewritten AST with its reference and type maps and \<open>is_checked\<close> set. A
  status error of the visitor or of the rewriter is returned as such, with no result.
\<close>

theorem Check_latches_errors:
  assumes "NamespaceGenerator_Create K (container E) = Inr gen"
    and "vs = traverse (make_visitor K gen E ast) (root_expr ast)
                (initial_state (new_context K))"
    and "rw = AstRewrite K vs (root_expr ast)
                \<lparr>rw_status = OkStatus, rw_reference_map = reference_map ast,
                 rw_type_map = type_map ast\<rparr>"
  shows
    "(Check K E ast = Inr res \<longrightarrow>
        (result_ast res = None) = (\<exists>i\<in>set (result_issues res). issue_severity i = kError)
        \<and> result_issues res = issues vs \<and> status vs = OkStatus)
     \<and> (status vs = OkStatus \<and> (\<exists>i\<in>set (issues vs). issue_severity i = kError) \<longrightarrow>
          Check K E ast = Inr \<lparr>result_ast = None, result_issues = issues vs\<rparr>)
     \<and> (status vs = OkStatus \<and> \<not> (\<exists>i\<in>set (issues vs). issue_severity i = kError)
          \<and> rw_status (snd rw) = OkStatus \<longrightarrow>
          Check K E ast =
            Inr \<lparr>result_ast =
                   Some (ast\<lparr>root_expr := fst rw, reference_map := rw_reference_map (snd rw),
                             type_map := rw_type_map (snd rw), is_checked := True\<rparr>),
                 result_issues = issues vs\<rparr>)
     \<and> (status vs = ErrorStatus err \<longrightarrow> Check K E ast = Inl err)
     \<and> (status vs = OkStatus \<and> \<not> (\<exists>i\<in>set (issues vs). issue_severity i = kError)
          \<and> rw_status (snd rw) = ErrorStatus err \<longrightarrow> Check K E ast = Inl err)"
proof -
  have c: "Check K E ast =
     (case status vs of
        ErrorStatus err \<Rightarrow> Inl err
      | OkStatus \<Rightarrow>
          (if has_error (issues vs)
           then Inr \<lparr>result_ast = None, result_issues = issues vs\<rparr>
           else
             (case rw_status (snd rw) of
                ErrorStatus err \<Rightarrow> Inl err
              | OkStatus \<Rightarrow>
                  Inr \<lparr>result_ast =
                         Some (ast\<lparr>root_expr := fst rw,
                                   reference_map := rw_reference_map (snd rw),
                                   type_map := rw_type_map (snd rw),
                                   is_checked := True\<rparr>),
                       result_issues = issues vs\<rparr>)))"
    using assms by (simp add: Check_def Let_def split: prod.splits status.splits)
  show ?thesis
    unfolding c has_error_iff
    by (cases "status vs"; cases "rw_status (snd rw)") auto
qed

theorem Check_latches_errors_witness:
  "NamespaceGenerator_Create spec_collaborators (container example_env)
     = Inr (spec_generator ''pkg'')
   \<and> (case Check spec_collaborators example_env (example_ast (int_literal 1)) of
      Inl err \<Rightarrow> False
    | Inr res \<Rightarrow>
        (case result_ast res of
           None \<Rightarrow> False
         | Some a \<Rightarrow> is_checked a \<and> type_map a 1 = Some (AstPrimitiveType kPrimInt64))
        \<and> result_issues res = [])
   \<and> (case Check spec_collaborators example_env (example_ast (ident 1 ''nope'')) of
        Inl err \<Rightarrow> False
      | Inr res \<Rightarrow>
          result_ast res = None \<and> map issue_severity (result_issues res) = [kError])"
proof -
  have g: "NamespaceGenerator_Create spec_collaborators (container example_env)
             = Inr (spec_generator ''pkg'')"
    by (simp add: spec_collaborators_def example_env_def)
  have good: "case Check spec_collaborators example_env (example_ast (int_literal 1)) of
      Inl err \<Rightarrow> False
    | Inr res \<Rightarrow>
        (case result_ast res of
           None \<Rightarrow> False
         | Some a \<Rightarrow> is_checked a \<and> type_map a 1 = Some (AstPrimitiveType kPrimInt64))
        \<and> result_issues res = []"
    by code_simp
  have bad: "case Check spec_collaborators example_env (example_ast (ident 1 ''nope'')) of
        Inl err \<Rightarrow> False
      | Inr res \<Rightarrow>
          result_ast res = None \<and> map issue_severity (result_issues res) = [kError]"
    by code_simp
  show ?thesis
    using Check_latches_errors [where K = spec_collaborators and E = example_env
        and ast = "example_ast (int_literal 1)" and res = undefined and err = undefined,
        OF g refl refl] g good bad
    by blast
qed

section \<open>Scope hygiene of comprehensions\<close>

subsection \<open>The scopes a lookup walks through\<close>

lemma reach_le: "k \<in> reach links p \<Longrightarrow> k \<le> p"
proof (induction links p rule: reach.induct)
  case (1 links p)
  from "1.prems" show ?case
    by (subst (asm) reach.simps) (auto split: if_splits option.splits dest!: "1.IH")
qed

lemma reach_append: "p < length links \<Longrightarrow> reach (links @ extra) p = reach links p"
proof (induction links p rule: reach.induct)
  case (1 links p)
  show ?case
  proof (cases "links ! p")
    case None
    then show ?thesis using "1.prems"
      by (simp add: reach.simps [of _ p] nth_append)
  next
    case (Some q)
    show ?thesis
    proof (cases "q < p")
      case True
      then have "reach (links @ extra) q = reach links q"
        using "1.IH" [OF "1.prems" Some True] "1.prems" by simp
      then show ?thesis using "1.prems" Some True
        by (simp add: reach.simps [of _ p] nth_append)
    next
      case False
      then show ?thesis using "1.prems" Some
        by (simp add: reach.simps [of _ p] nth_append)
    qed
  qed
qed

lemma reach_self: "p < length links \<Longrightarrow> p \<in> reach links p"
  by (subst reach.simps) simp

lemma LookupVariable_owner:
  "LookupVariable E scs p n = Some (Some k, d) \<Longrightarrow> k \<in> reach (map parent_scope scs) p"
proof (induction E scs p n rule: LookupVariable.induct)
  case (1 E scs p n)
  show ?case
  proof (cases "p < length scs")
    case False
    then show ?thesis using "1.prems" by (simp add: LookupVariable.simps [of _ _ p])
  next
    case True
    show ?thesis
    proof (cases "variables (scs ! p) n")
      case (Some d')
      then show ?thesis using "1.prems" True reach_self [of p "map parent_scope scs"]
        by (auto simp: LookupVariable.simps [of _ _ p])
    next
      case None
      show ?thesis
      proof (cases "parent_scope (scs ! p)")
        case None': None
        then show ?thesis using "1.prems" True None
          by (simp add: LookupVariable.simps [of _ _ p] split: option.splits)
      next
        case (Some q)
        show ?thesis
        proof (cases "q < p")
          case qp: True
          have "LookupVariable E scs q n = Some (Some k, d)"
            using "1.prems" True None Some qp by (simp add: LookupVariable.simps [of _ _ p])
          then have "k \<in> reach (map parent_scope scs) q"
            using "1.IH" [OF True None Some qp] by simp
          then show ?thesis using True Some qp
            by (simp add: reach.simps [of _ p])
        next
          case False
          then show ?thesis using "1.prems" True None Some
            by (simp add: LookupVariable.simps [of _ _ p])
        qed
      qed
    qed
  qed
qed

lemma first_candidate_Some:
  "first_candidate look cs = Some d \<Longrightarrow> \<exists>c. look c = Some d"
  by (induction cs) (auto split: option.splits)

lemma first_qualified_candidate_Some:
  "first_qualified_candidate look cs = Some (d, j) \<Longrightarrow> \<exists>c. look c = Some d"
  by (induction cs) (auto split: option.splits)

lemma addr_in_addr_list [simp]: "addr e \<in> set (addr_list e)"
  by (cases e) simp

lemma select_operand_addrs:
  "set (addr_list (select_operand e)) \<subseteq> insert 0 (set (addr_list e))"
  by (cases e rule: select_operand.cases) (auto simp: default_expr_def)

lemma select_chain_addrs:
  "set (addr_list (snd (select_chain k e))) \<subseteq> insert 0 (set (addr_list e))"
proof (induction k arbitrary: e)
  case 0
  then show ?case by auto
next
  case (Suc k)
  have "set (addr_list (snd (select_chain k (select_operand e))))
          \<subseteq> insert 0 (set (addr_list (select_operand e)))"
    by (rule Suc.IH)
  then show ?case using select_operand_addrs [of e]
    by (auto split: prod.splits)
qed

lemma call_target_addrs:
  "set (addr_list (call_target e)) \<subseteq> insert 0 (set (addr_list e))"
  by (cases e rule: call_target.cases) (auto simp: default_expr_def)

lemma walk_up_root:
  "walk_up (path @ st0) e' qs d = (rc, root, qs', d') \<Longrightarrow> barrier st0 \<Longrightarrow>
   root \<in> set (e' # path)"
proof (induction path arbitrary: e' qs d)
  case Nil
  then show ?case
    by (cases st0) (auto simp: barrier_def split: if_splits)
next
  case (Cons p path)
  from Cons.prems Cons.IH [of p] show ?case
    by (auto split: if_splits)
qed

subsection \<open>The recorded references of the callbacks\<close>

lemma add_issue_attributes [simp]:
  "attributes (add_issue i s) = attributes s"
  by (simp add: add_issue_def)

lemma ReportMissingReference_attributes [simp]:
  "attributes (ReportMissingReference V e n s) = attributes s"
  by (simp add: ReportMissingReference_def)

lemma ReportUndefinedField_attributes [simp]:
  "attributes (ReportUndefinedField V i f n s) = attributes s"
  by (simp add: ReportUndefinedField_def)

lemma unsupported_operand_attributes [simp]:
  "attributes (unsupported_operand V e t s) = attributes s"
  by (simp add: unsupported_operand_def)

lemma select_impl_attributes:
  "select_impl V e f t s = (r, s') \<Longrightarrow> attributes s' = attributes s"
  by (cases t) (auto split: sum.splits option.splits prod.splits bool.splits)

lemma ResolveSelectOperation_attributes [simp]:
  "attributes (ResolveSelectOperation V e f operand s) = attributes s"
  by (auto simp: ResolveSelectOperation_def Let_def dest: select_impl_attributes
      split: prod.splits option.splits if_splits)

lemma PostVisitSelect_attributes [simp]:
  "attributes (PostVisitSelect V e s) = attributes s"
  by (simp add: PostVisitSelect_def)

lemma resolve_selects_attributes [simp]:
  "attributes (resolve_selects V es s) = attributes s"
  by (induction es arbitrary: s) simp_all

lemma PostVisitConst_attributes [simp]:
  "attributes (PostVisitConst V e c s) = attributes s"
  by (simp add: PostVisitConst_def split: option.splits)

lemma instantiate_type_attributes [simp]:
  "attributes (instantiate_type V e t s) = attributes s"
  by (simp add: instantiate_type_def split: prod.splits)

lemma PostVisitList_attributes [simp]:
  "attributes (PostVisitList V e els s) = attributes s"
  by (simp add: PostVisitList_def split: option.splits)

lemma PostVisitMap_attributes [simp]:
  "attributes (PostVisitMap V e entries s) = attributes s"
  by (simp add: PostVisitMap_def map_entries_loop_eq instantiate_type_def split: option.splits prod.splits)

lemma CheckFieldAssignments_attributes:
  "CheckFieldAssignments V fs n s = (st, s') \<Longrightarrow> attributes s' = attributes s"
proof (induction fs arbitrary: s)
  case Nil
  then show ?case by simp
next
  case (Cons f fs)
  from Cons.prems Cons.IH show ?case
    by (fastforce simp: Let_def split: sum.splits option.splits prod.splits bool.splits)
qed

lemma PostVisitStruct_attributes [simp]:
  "attributes (PostVisitStruct V e n fs s) = attributes s"
  by (auto simp: PostVisitStruct_def dest: CheckFieldAssignments_attributes split: prod.splits)

lemma ResolveFunctionOverloads_attributes [simp]:
  "attributes (ResolveFunctionOverloads V e d n r ns s) = attributes s"
  by (simp add: ResolveFunctionOverloads_def Let_def split: prod.splits option.splits)

lemma resolve_call_attributes [simp]:
  "attributes (resolve_call V e s) = attributes s"
  by (simp add: resolve_call_def Let_def split: option.splits)

lemma PreVisitComprehension_attributes [simp]:
  "attributes (PreVisitComprehension V e s) = attributes s"
  by (simp add: PreVisitComprehension_def Let_def)

lemma PostVisitComprehension_attributes [simp]:
  "attributes (PostVisitComprehension V e s) = attributes s"
  by (simp add: PostVisitComprehension_def)

lemma PreVisitComprehensionSubexpression_attributes [simp]:
  "attributes (PreVisitComprehensionSubexpression V e arg s) = attributes s"
  by (simp add: PreVisitComprehensionSubexpression_def split: list.splits)

lemma PostVisitComprehensionSubexpression_attributes [simp]:
  "attributes (PostVisitComprehensionSubexpression V e arg s) = attributes s"
  by (cases arg)
    (simp_all add: PostVisitComprehensionSubexpression_def Let_def
      split: list.splits option.splits)

lemma PreVisitExpr_attributes [simp]:
  "attributes (PreVisitExpr e s) = attributes s"
  by (simp add: PreVisitExpr_def)

lemma PostVisitExpr_attributes [simp]:
  "attributes (PostVisitExpr e s) = attributes s"
  by (simp add: PostVisitExpr_def split: list.splits)

lemma good_attributes_cong:
  "attributes s' = attributes s \<Longrightarrow> good_attributes F s' = good_attributes F s"
  by (simp add: good_attributes_def)

lemma hygienic_good: "hygienic F s \<Longrightarrow> good_attributes F s"
  by (simp add: hygienic_def)

lemma hygienic_owner:
  "hygienic F s \<Longrightarrow> LookupVariable E (scopes s) (current_scope s) c = Some (Some k, d) \<Longrightarrow>
   k \<notin> F"
  using LookupVariable_owner [of E "scopes s" "current_scope s" c k d]
  by (auto simp: hygienic_def scope_links_def)

lemma ResolveSimpleIdentifier_other:
  "a \<noteq> addr e \<Longrightarrow> attributes (ResolveSimpleIdentifier V e n s) a = attributes s a"
  by (simp add: ResolveSimpleIdentifier_def split: option.splits prod.splits)

lemma good_attributes_update:
  "good_attributes F s \<Longrightarrow> \<forall>k d'. d = (Some k, d') \<longrightarrow> k \<notin> F \<Longrightarrow>
   attributes s' = (attributes s)(a \<mapsto> d) \<Longrightarrow> good_attributes F s'"
  by (auto simp: good_attributes_def)

lemma ResolveSimpleIdentifier_good:
  "hygienic F s \<Longrightarrow> good_attributes F (ResolveSimpleIdentifier V e n s)"
proof -
  assume h: "hygienic F s"
  show ?thesis
  proof (cases "first_candidate (LookupVariable (env V) (scopes s) (current_scope s))
                  (GenerateCandidates (generator V) n)")
    case None
    then have "attributes (ResolveSimpleIdentifier V e n s) = attributes s"
      by (simp add: ResolveSimpleIdentifier_def)
    from good_attributes_cong [OF this] show ?thesis using hygienic_good [OF h] by simp
  next
    case (Some d)
    obtain c where c: "LookupVariable (env V) (scopes s) (current_scope s) c = Some d"
      using first_candidate_Some [OF Some] by blast
    have o: "\<forall>k d'. d = (Some k, d') \<longrightarrow> k \<notin> F"
    proof (intro allI impI)
      fix k d'
      assume "d = (Some k, d')"
      with c have "LookupVariable (env V) (scopes s) (current_scope s) c = Some (Some k, d')"
        by simp
      then show "k \<notin> F" by (rule hygienic_owner [OF h])
    qed
    have "attributes (ResolveSimpleIdentifier V e n s) = (attributes s)(addr e \<mapsto> d)"
      using Some by (simp add: ResolveSimpleIdentifier_def split: prod.splits)
    then show ?thesis
      by (rule good_attributes_update [OF hygienic_good [OF h] o])
  qed
qed

lemma ResolveQualifiedIdentifier_other:
  "a \<noteq> 0 \<Longrightarrow> a \<notin> set (addr_list e) \<Longrightarrow>
   attributes (ResolveQualifiedIdentifier V e qs s) a = attributes s a"
proof -
  assume a: "a \<noteq> 0" "a \<notin> set (addr_list e)"
  have ne: "a \<noteq> addr e" using a(2) addr_in_addr_list [of e] by blast
  have c: "a \<noteq> addr (snd (select_chain k e))" for k
  proof -
    have "addr (snd (select_chain k e)) \<in> insert 0 (set (addr_list e))"
      by (meson addr_in_addr_list subsetD select_chain_addrs)
    then show ?thesis using a by auto
  qed
  show ?thesis
  proof (cases "length qs = 1")
    case True
    then show ?thesis using ne
      by (simp add: ResolveQualifiedIdentifier_def ResolveSimpleIdentifier_other)
  next
    case False
    have "a \<noteq> addr x2" if "select_chain k e = (x1, x2)" for k x1 x2
      using c [of k] that by simp
    then show ?thesis using False
      by (simp add: ResolveQualifiedIdentifier_def Let_def split: option.splits prod.splits)
  qed
qed

lemma ResolveQualifiedIdentifier_good:
  "hygienic F s \<Longrightarrow> good_attributes F (ResolveQualifiedIdentifier V e qs s)"
proof -
  assume h: "hygienic F s"
  show ?thesis
  proof (cases "length qs = 1")
    case True
    then show ?thesis using ResolveSimpleIdentifier_good [OF h]
      by (simp add: ResolveQualifiedIdentifier_def)
  next
    case False
    show ?thesis
    proof (cases "first_qualified_candidate
                    (LookupVariable (env V) (scopes s) (current_scope s))
                    (GenerateQualifiedCandidates (generator V) qs)")
      case None
      then have "attributes (ResolveQualifiedIdentifier V e qs s) = attributes s"
        using False by (simp add: ResolveQualifiedIdentifier_def)
      from good_attributes_cong [OF this] show ?thesis using hygienic_good [OF h] by simp
    next
      case (Some dj)
      obtain d j where dj: "dj = (d, j)" by (cases dj)
      have "first_qualified_candidate
              (LookupVariable (env V) (scopes s) (current_scope s))
              (GenerateQualifiedCandidates (generator V) qs) = Some (d, j)"
        using Some dj by simp
      from first_qualified_candidate_Some [OF this]
      obtain c where c: "LookupVariable (env V) (scopes s) (current_scope s) c = Some d"
        by blast
      have o: "\<forall>k d'. d = (Some k, d') \<longrightarrow> k \<notin> F"
      proof (intro allI impI)
        fix k d'
        assume "d = (Some k, d')"
        with c have "LookupVariable (env V) (scopes s) (current_scope s) c = Some (Some k, d')"
          by simp
        then show "k \<notin> F" by (rule hygienic_owner [OF h])
      qed
      have "attributes (ResolveQualifiedIdentifier V e qs s) =
              (attributes s)(addr (snd (select_chain (length qs - j - 1) e)) \<mapsto> d)"
        using Some dj False
        by (simp add: ResolveQualifiedIdentifier_def Let_def split: prod.splits)
      then show ?thesis
        by (rule good_attributes_update [OF hygienic_good [OF h] o])
    qed
  qed
qed

lemma hygienic_deferred [simp]:
  "hygienic F (s\<lparr>deferred_select_operations := d\<rparr>) = hygienic F s"
  by (simp add: hygienic_def scope_links_def good_attributes_def)

lemma PostVisitIdent_good:
  "hygienic F s \<Longrightarrow> good_attributes F (PostVisitIdent V e n s)"
proof -
  assume h: "hygienic F s"
  have q: "good_attributes F
             (ResolveQualifiedIdentifier V r qs (s\<lparr>deferred_select_operations := d\<rparr>))"
    for r qs d
    using ResolveQualifiedIdentifier_good [of F "s\<lparr>deferred_select_operations := d\<rparr>"] h
    by simp
  show ?thesis
    using q ResolveSimpleIdentifier_good [OF h] hygienic_good [OF h]
    by (auto simp: PostVisitIdent_def good_attributes_def
        split: list.splits prod.splits option.splits)
qed

lemma hygienic_frame_same:
  "hygienic F s \<Longrightarrow> scopes s' = scopes s \<Longrightarrow> current_scope s' = current_scope s \<Longrightarrow>
   good_attributes F s' \<Longrightarrow> hygienic F s'"
  by (simp add: hygienic_def scope_links_def)

lemma PostVisitCall_good:
  "hygienic F s \<Longrightarrow> good_attributes F (PostVisitCall V e s)"
proof -
  assume h: "hygienic F s"
  have "good_attributes F (ResolveQualifiedIdentifier V t qs s)" for t qs
    by (rule ResolveQualifiedIdentifier_good [OF h])
  then show ?thesis using hygienic_good [OF h]
    by (auto simp: PostVisitCall_def Let_def good_attributes_def split: option.splits)
qed

lemma PostVisitCall_other:
  "a \<noteq> 0 \<Longrightarrow> a \<notin> set (addr_list e) \<Longrightarrow>
   attributes (PostVisitCall V e s) a = attributes s a"
proof -
  assume a: "a \<noteq> 0" "a \<notin> set (addr_list e)"
  have "a \<notin> set (addr_list (call_target e))"
    using call_target_addrs [of e] a by blast
  then show ?thesis using a(1)
    by (simp add: PostVisitCall_def Let_def ResolveQualifiedIdentifier_other
        split: option.splits)
qed

lemma PostVisitIdent_other:
  assumes "expr_stack s = e' # path @ st0" "barrier st0"
    "\<forall>p\<in>set (e' # path). set (addr_list p) \<subseteq> A"
    "addr e \<in> A" "a \<notin> A" "a \<noteq> 0"
  shows "attributes (PostVisitIdent V e n s) a = attributes s a"
proof (cases "length (expr_stack s) = 1")
  case True
  have "a \<noteq> addr e" using assms(4,5) by blast
  then show ?thesis using True
    by (simp add: PostVisitIdent_def ResolveSimpleIdentifier_other)
next
  case False
  obtain rc root qs d where w:
    "walk_up (path @ st0) e' [n] (deferred_select_operations s) = (rc, root, qs, d)"
    by (cases "walk_up (path @ st0) e' [n] (deferred_select_operations s)") auto
  have "root \<in> set (e' # path)" using walk_up_root [OF w assms(2)] .
  then have "set (addr_list root) \<subseteq> A" using assms(3) by blast
  then have "a \<notin> set (addr_list root)" using assms(5) by blast
  then have r: "attributes (ResolveQualifiedIdentifier V root qs s') a = attributes s' a"
    for s'
    using ResolveQualifiedIdentifier_other assms(6) by blast
  have pv: "PostVisitIdent V e n s =
        (case walk_up (path @ st0) e' [n] (deferred_select_operations s) of
           (None, root_candidate, qualifiers, deferred) \<Rightarrow>
             ResolveQualifiedIdentifier V root_candidate qualifiers
               (s\<lparr>deferred_select_operations := deferred\<rparr>)
         | (Some receiver_call, root_candidate, qualifiers, deferred) \<Rightarrow>
             s\<lparr>deferred_select_operations := deferred,
               maybe_namespaced_functions :=
                 (maybe_namespaced_functions s)(addr receiver_call \<mapsto> qualifiers)\<rparr>)"
    using False assms(1)
    apply (simp add: PostVisitIdent_def)
    apply blast
    done
  show ?thesis
    unfolding pv w by (cases rc) (simp_all add: r)
qed

subsection \<open>States from which the scopes of a comprehension cannot be reached\<close>

lemma reach_take:
  "p < n \<Longrightarrow> n \<le> length links \<Longrightarrow> reach (take n links) p = reach links p"
  using reach_append [of p "take n links" "drop n links"] by simp

lemma reach_nested:
  assumes "cur < length links"
  shows "reach (links @ [Some cur, Some (length links)]) cur = reach links cur"
    "reach (links @ [Some cur, Some (length links)]) (length links)
       = insert (length links) (reach links cur)"
    "reach (links @ [Some cur, Some (length links)]) (Suc (length links))
       = insert (Suc (length links)) (insert (length links) (reach links cur))"
proof -
  show 1: "reach (links @ [Some cur, Some (length links)]) cur = reach links cur"
    using assms by (rule reach_append)
  show 2: "reach (links @ [Some cur, Some (length links)]) (length links)
       = insert (length links) (reach links cur)"
    using assms 1 by (subst reach.simps) (simp add: nth_append)
  show "reach (links @ [Some cur, Some (length links)]) (Suc (length links))
       = insert (Suc (length links)) (insert (length links) (reach links cur))"
    using assms 2 by (subst reach.simps) (simp add: nth_append)
qed

lemma scope_links_length [simp]: "length (scope_links s) = length (scopes s)"
  by (simp add: scope_links_def)

lemma InsertVariableIfAbsent_links [simp]:
  "map parent_scope (InsertVariableIfAbsent d p scs) = map parent_scope scs"
  by (simp add: InsertVariableIfAbsent_def map_update list_update_same_conv)

lemma hygienic_same:
  "hygienic F s \<Longrightarrow> scopes s' = scopes s \<Longrightarrow> current_scope s' = current_scope s \<Longrightarrow>
   attributes s' = attributes s \<Longrightarrow> hygienic F s'"
  by (simp add: hygienic_def scope_links_def good_attributes_def)

lemma take_links:
  "take n (scopes s') = scopes s \<Longrightarrow> take n (scope_links s') = scope_links s"
  by (simp add: scope_links_def take_map)

lemma hygienic_extend:
  assumes "hygienic F s" "take (length (scopes s)) (scopes s') = scopes s"
    "current_scope s' = current_scope s" "good_attributes F s'"
  shows "hygienic F s'"
proof -
  have len: "length (scopes s) \<le> length (scopes s')"
    using assms(2) by (rule take_eq_length) simp
  have cur: "current_scope s < length (scopes s)"
    using assms(1) by (simp add: hygienic_def)
  have "reach (take (length (scopes s)) (scope_links s')) (current_scope s)
          = reach (scope_links s') (current_scope s)"
    using cur len by (intro reach_take) simp_all
  then have "reach (scope_links s') (current_scope s) = reach (scope_links s) (current_scope s)"
    using take_links [OF assms(2)] by simp
  then show ?thesis
    using assms len cur by (auto simp: hygienic_def)
qed

lemma hygienic_frame:
  "hygienic F s \<Longrightarrow> frame s s' \<Longrightarrow> good_attributes F s' \<Longrightarrow> hygienic F s'"
  by (rule hygienic_extend) (simp_all add: frame_def)

lemma PreVisitComprehensionSubexpression_scopes [simp]:
  "scopes (PreVisitComprehensionSubexpression V e arg s) = scopes s"
  by (simp add: PreVisitComprehensionSubexpression_def split: list.splits)

lemma PostVisitComprehensionSubexpression_links [simp]:
  "scope_links (PostVisitComprehensionSubexpression V e arg s) = scope_links s"
  by (cases arg)
    (simp_all add: PostVisitComprehensionSubexpression_def scope_links_def Let_def
      split: list.splits option.splits)

lemma PreVisitComprehension_links:
  "scope_links (PreVisitComprehension V e s)
     = scope_links s @ [Some (current_scope s), Some (length (scopes s))]"
  by (simp add: PreVisitComprehension_def scope_links_def Let_def MakeNestedScope_def)

text \<open>Between the hooks of a comprehension, with its two scopes linked as they were made.\<close>

lemma phase_hygienic:
  assumes inc: "in_comprehension E s0 sx"
    and E: "comprehension_expr E = addr e" "accu_scope E = length (scopes s0)"
      "iter_scope E = Suc (length (scopes s0))" "parent E = current_scope s0"
    and lk: "take (Suc (Suc (length (scopes s0)))) (scope_links sx)
               = scope_links s0 @ [Some (current_scope s0), Some (length (scopes s0))]"
    and h0: "hygienic F s0"
    and g: "good_attributes F sx"
    and IH: "hygienic F (PreVisitComprehensionSubexpression V e arg sx) \<Longrightarrow>
             hygienic F (traverse V x (PreVisitComprehensionSubexpression V e arg sx))"
  shows "in_comprehension E s0
           (PostVisitComprehensionSubexpression V e arg
              (traverse V x (PreVisitComprehensionSubexpression V e arg sx)))"
    "current_scope (PostVisitComprehensionSubexpression V e arg
              (traverse V x (PreVisitComprehensionSubexpression V e arg sx))) = current_scope s0"
    "take (Suc (Suc (length (scopes s0))))
       (scope_links (PostVisitComprehensionSubexpression V e arg
              (traverse V x (PreVisitComprehensionSubexpression V e arg sx))))
       = scope_links s0 @ [Some (current_scope s0), Some (length (scopes s0))]"
    "good_attributes F (PostVisitComprehensionSubexpression V e arg
              (traverse V x (PreVisitComprehensionSubexpression V e arg sx)))"
proof -
  define A where "A = PreVisitComprehensionSubexpression V e arg sx"
  define B where "B = traverse V x A"
  define n where "n = length (scopes s0)"
  have cur: "current_scope s0 < n"
    using h0 by (simp add: hygienic_def n_def)
  have Fb: "\<forall>k\<in>F. k < n"
    using h0 by (simp add: hygienic_def n_def)
  have r0: "reach (scope_links s0) (current_scope s0) \<inter> F = {}"
    using h0 by (simp add: hygienic_def)
  have lenx: "Suc (Suc n) \<le> length (scopes sx)"
  proof -
    have "length (take (Suc (Suc n)) (scope_links sx)) = Suc (Suc n)"
      using lk by (simp add: n_def)
    then show ?thesis by simp
  qed
  have inA: "in_comprehension E s0 A" and curA: "current_scope A = scope_for arg E"
    using PreVisitComprehensionSubexpression_in [OF inc E(1)] by (simp_all add: A_def)
  have scA: "scopes A = scopes sx" by (simp add: A_def)
  have lkA: "take (Suc (Suc n)) (scope_links A)
               = scope_links s0 @ [Some (current_scope s0), Some n]"
    using lk by (simp add: scope_links_def scA n_def)
  have sf: "scope_for arg E = current_scope s0 \<or> scope_for arg E = n
            \<or> scope_for arg E = Suc n"
    by (cases arg) (simp_all add: scope_for_def E n_def)
  have below: "scope_for arg E < Suc (Suc n)"
    using sf cur by auto
  have "reach (take (Suc (Suc n)) (scope_links A)) (scope_for arg E)
          = reach (scope_links A) (scope_for arg E)"
    using below lenx scA by (intro reach_take) simp_all
  then have rA: "reach (scope_links A) (scope_for arg E)
          = reach (scope_links s0 @ [Some (current_scope s0), Some n]) (scope_for arg E)"
    using lkA by simp
  have cur': "current_scope s0 < length (scope_links s0)"
    using cur by (simp add: n_def)
  have nl: "n = length (scope_links s0)" by (simp add: n_def)
  have "reach (scope_links A) (scope_for arg E)
          \<subseteq> insert (Suc n) (insert n (reach (scope_links s0) (current_scope s0)))"
    using sf rA reach_nested [OF cur'] nl by auto
  moreover have "n \<notin> F" "Suc n \<notin> F"
    using Fb by auto
  ultimately have rF: "reach (scope_links A) (scope_for arg E) \<inter> F = {}"
    using r0 by blast
  have gA: "good_attributes F A"
    using g by (simp add: good_attributes_def A_def)
  have hA: "hygienic F A"
    using below lenx scA curA rF Fb gA
    by (auto simp: hygienic_def)
  have hB: "hygienic F B"
    using IH hA by (simp add: A_def B_def)
  have fr: "frame A B"
    unfolding B_def by (rule traverse_frame(1))
  have inB: "in_comprehension E s0 B"
    using frame_in_comprehension [OF inA fr] .
  have "take (length (scopes A)) (scope_links B) = scope_links A"
    using fr by (intro take_links) (simp add: frame_def)
  then have "take (Suc (Suc n)) (scope_links B) = take (Suc (Suc n)) (scope_links A)"
    using lenx scA
    by (metis min.absorb1 take_take)
  then have lkB: "take (Suc (Suc n)) (scope_links B)
               = scope_links s0 @ [Some (current_scope s0), Some n]"
    using lkA by simp
  have le: "length (scopes s0) \<le> accu_scope E" "length (scopes s0) \<le> iter_scope E"
    using E by simp_all
  have post: "in_comprehension E s0 (PostVisitComprehensionSubexpression V e arg B)
     \<and> current_scope (PostVisitComprehensionSubexpression V e arg B) = parent E"
    using PostVisitComprehensionSubexpression_in [OF inB E(1) le] .
  show "in_comprehension E s0
           (PostVisitComprehensionSubexpression V e arg
              (traverse V x (PreVisitComprehensionSubexpression V e arg sx)))"
    using post by (simp add: A_def B_def)
  show "current_scope (PostVisitComprehensionSubexpression V e arg
              (traverse V x (PreVisitComprehensionSubexpression V e arg sx))) = current_scope s0"
    using post E(4) by (simp add: A_def B_def)
  show "take (Suc (Suc (length (scopes s0))))
       (scope_links (PostVisitComprehensionSubexpression V e arg
              (traverse V x (PreVisitComprehensionSubexpression V e arg sx))))
       = scope_links s0 @ [Some (current_scope s0), Some (length (scopes s0))]"
    using lkB by (simp add: A_def B_def n_def)
  have "good_attributes F B" using hB by (rule hygienic_good)
  then show "good_attributes F (PostVisitComprehensionSubexpression V e arg
              (traverse V x (PreVisitComprehensionSubexpression V e arg sx)))"
    by (simp add: good_attributes_def A_def B_def)
qed

lemma PreVisitExpr_hygienic:
  assumes "hygienic F s"
  shows "hygienic F (PreVisitExpr e s)"
  using assms by (rule hygienic_same) (simp_all add: PreVisitExpr_def)

lemma PostVisitExpr_hygienic:
  assumes "hygienic F s"
  shows "hygienic F (PostVisitExpr e s)"
  using assms by (rule hygienic_same) (simp_all add: PostVisitExpr_def split: list.splits)

lemma traverse_hygienic:
  "hygienic F s \<Longrightarrow> hygienic F (traverse V t s)"
  "hygienic F s \<Longrightarrow> hygienic F (traverse_kind V e k s)"
  "hygienic F s \<Longrightarrow> hygienic F (traverse_exprs V ts s)"
  "hygienic F s \<Longrightarrow> hygienic F (traverse_elements V els s)"
  "hygienic F s \<Longrightarrow> hygienic F (traverse_fields V fs s)"
  "hygienic F s \<Longrightarrow> hygienic F (traverse_entries V ens s)"
proof (induction V t s and V e k s and V ts s and V els s and V fs s and V ens s
    rule: traverse_traverse_kind_traverse_exprs_traverse_elements_traverse_fields_traverse_entries.induct)
  case (1 V a i k s)
  have "hygienic F (PreVisitExpr (Expr a i k) s)"
    using "1.prems" by (rule PreVisitExpr_hygienic)
  then have "hygienic F (traverse_kind V (Expr a i k) k (PreVisitExpr (Expr a i k) s))"
    by (rule "1.IH")
  then show ?case by (simp add: PostVisitExpr_hygienic)
next
  case (2 V e s)
  then show ?case by simp
next
  case (3 V e c s)
  then show ?case by (simp add: hygienic_same [where s = s])
next
  case (4 V e n s)
  have "hygienic F (PostVisitIdent V e n s)"
    using "4.prems" by (rule hygienic_frame_same) (simp_all add: PostVisitIdent_good "4.prems")
  then show ?case by simp
next
  case (5 V e operand field test_only s)
  have "hygienic F (traverse V operand s)" using 5 by simp
  then have "hygienic F (PostVisitSelect V e (traverse V operand s))"
    by (rule hygienic_same) simp_all
  then show ?case by simp
next
  case (6 V e f args s)
  have h: "hygienic F (traverse_exprs V args s)" using 6 by simp
  have "hygienic F (PostVisitCall V e (traverse_exprs V args s))"
    using h by (rule hygienic_frame_same) (simp_all add: PostVisitCall_good h)
  then show ?case by simp
next
  case (7 V e f target args s)
  have h: "hygienic F (traverse_exprs V args (traverse V target s))" using 7 by simp
  have "hygienic F (PostVisitCall V e (traverse_exprs V args (traverse V target s)))"
    using h by (rule hygienic_frame_same) (simp_all add: PostVisitCall_good h)
  then show ?case by simp
next
  case (8 V e elements s)
  have "hygienic F (traverse_elements V elements s)" using 8 by simp
  then have "hygienic F (PostVisitList V e elements (traverse_elements V elements s))"
    by (rule hygienic_same) simp_all
  then show ?case by simp
next
  case (9 V e n struct_fields s)
  have "hygienic F (traverse_fields V struct_fields s)" using 9 by simp
  then have "hygienic F (PostVisitStruct V e n struct_fields (traverse_fields V struct_fields s))"
    by (rule hygienic_same) simp_all
  then show ?case by simp
next
  case (10 V e entries s)
  have "hygienic F (traverse_entries V entries s)" using 10 by simp
  then have "hygienic F (PostVisitMap V e entries (traverse_entries V entries s))"
    by (rule hygienic_same) simp_all
  then show ?case by simp
next
  case (11 V e iv ir av ai lc ls r s)
  define E where "E = \<lparr>comprehension_expr = addr e, parent = current_scope s,
      accu_scope = length (scopes s), iter_scope = Suc (length (scopes s))\<rparr>"
  define p0 where "p0 = PreVisitComprehension V e s"
  define p1 where "p1 = PostVisitComprehensionSubexpression V e ITER_RANGE
       (traverse V ir (PreVisitComprehensionSubexpression V e ITER_RANGE p0))"
  define p2 where "p2 = PostVisitComprehensionSubexpression V e ACCU_INIT
       (traverse V ai (PreVisitComprehensionSubexpression V e ACCU_INIT p1))"
  define p3 where "p3 = PostVisitComprehensionSubexpression V e LOOP_CONDITION
       (traverse V lc (PreVisitComprehensionSubexpression V e LOOP_CONDITION p2))"
  define p4 where "p4 = PostVisitComprehensionSubexpression V e LOOP_STEP
       (traverse V ls (PreVisitComprehensionSubexpression V e LOOP_STEP p3))"
  define p5 where "p5 = PostVisitComprehensionSubexpression V e RESULT
       (traverse V r (PreVisitComprehensionSubexpression V e RESULT p4))"
  note h0 = "11.prems"
  have E: "comprehension_expr E = addr e" "accu_scope E = length (scopes s)"
    "iter_scope E = Suc (length (scopes s))" "parent E = current_scope s"
    by (simp_all add: E_def)
  have i0: "in_comprehension E s p0"
    unfolding E_def p0_def by (rule PreVisitComprehension_in)
  have l0: "take (Suc (Suc (length (scopes s)))) (scope_links p0)
              = scope_links s @ [Some (current_scope s), Some (length (scopes s))]"
    by (simp add: p0_def PreVisitComprehension_links)
  have g0: "good_attributes F p0"
    using hygienic_good [OF h0] by (simp add: good_attributes_def p0_def)
  have ih1: "hygienic F (PreVisitComprehensionSubexpression V e ITER_RANGE p0) \<Longrightarrow>
      hygienic F (traverse V ir (PreVisitComprehensionSubexpression V e ITER_RANGE p0))"
    using 11(1) by (simp add: p0_def)
  note ph1 = phase_hygienic [OF i0 E l0 h0 g0 ih1, folded p1_def]
  have 1: "in_comprehension E s p1"
    "take (Suc (Suc (length (scopes s)))) (scope_links p1)
              = scope_links s @ [Some (current_scope s), Some (length (scopes s))]"
    "good_attributes F p1"
    by (simp_all add: ph1)
  have ih2: "hygienic F (PreVisitComprehensionSubexpression V e ACCU_INIT p1) \<Longrightarrow>
      hygienic F (traverse V ai (PreVisitComprehensionSubexpression V e ACCU_INIT p1))"
    using 11(2) by (simp add: p0_def p1_def)
  note ph2 = phase_hygienic [OF 1(1) E 1(2) h0 1(3) ih2, folded p2_def]
  have 2: "in_comprehension E s p2"
    "take (Suc (Suc (length (scopes s)))) (scope_links p2)
              = scope_links s @ [Some (current_scope s), Some (length (scopes s))]"
    "good_attributes F p2"
    by (simp_all add: ph2)
  have ih3: "hygienic F (PreVisitComprehensionSubexpression V e LOOP_CONDITION p2) \<Longrightarrow>
      hygienic F (traverse V lc (PreVisitComprehensionSubexpression V e LOOP_CONDITION p2))"
    using 11(3) by (simp add: p0_def p1_def p2_def)
  note ph3 = phase_hygienic [OF 2(1) E 2(2) h0 2(3) ih3, folded p3_def]
  have 3: "in_comprehension E s p3"
    "take (Suc (Suc (length (scopes s)))) (scope_links p3)
              = scope_links s @ [Some (current_scope s), Some (length (scopes s))]"
    "good_attributes F p3"
    by (simp_all add: ph3)
  have ih4: "hygienic F (PreVisitComprehensionSubexpression V e LOOP_STEP p3) \<Longrightarrow>
      hygienic F (traverse V ls (PreVisitComprehensionSubexpression V e LOOP_STEP p3))"
    using 11(4) by (simp add: p0_def p1_def p2_def p3_def)
  note ph4 = phase_hygienic [OF 3(1) E 3(2) h0 3(3) ih4, folded p4_def]
  have 4: "in_comprehension E s p4"
    "take (Suc (Suc (length (scopes s)))) (scope_links p4)
              = scope_links s @ [Some (current_scope s), Some (length (scopes s))]"
    "good_attributes F p4"
    by (simp_all add: ph4)
  have ih5: "hygienic F (PreVisitComprehensionSubexpression V e RESULT p4) \<Longrightarrow>
      hygienic F (traverse V r (PreVisitComprehensionSubexpression V e RESULT p4))"
    using 11(5) by (simp add: p0_def p1_def p2_def p3_def p4_def)
  note ph5 = phase_hygienic [OF 4(1) E 4(2) h0 4(3) ih5, folded p5_def]
  have 5: "in_comprehension E s p5" "current_scope p5 = current_scope s"
    "good_attributes F p5"
    by (simp_all add: ph5)
  have eq: "traverse_kind V e (ComprehensionExpr iv ir av ai lc ls r) s
          = PostVisitComprehension V e p5"
    by (simp add: p5_def p4_def p3_def p2_def p1_def p0_def)
  have "hygienic F (PostVisitComprehension V e p5)"
    using h0
  proof (rule hygienic_extend)
    show "take (length (scopes s)) (scopes (PostVisitComprehension V e p5)) = scopes s"
      using 5(1) by (simp add: in_comprehension_def PostVisitComprehension_def)
    show "current_scope (PostVisitComprehension V e p5) = current_scope s"
      using 5(2) by (simp add: PostVisitComprehension_def)
    show "good_attributes F (PostVisitComprehension V e p5)"
      using 5(3) by (simp add: good_attributes_def)
  qed
  then show ?case by (simp only: eq)
next
  case (12 V s)
  then show ?case by simp
next
  case (13 V x xs s)
  then show ?case by simp
next
  case (14 V s)
  then show ?case by simp
next
  case (15 V x opt xs s)
  then show ?case by simp
next
  case (16 V s)
  then show ?case by simp
next
  case (17 V fid fname x opt xs s)
  then show ?case by simp
next
  case (18 V s)
  then show ?case by simp
next
  case (19 V eid key val opt xs s)
  then show ?case by simp
qed

subsection \<open>The references a traversal leaves as they were\<close>

lemma addr_list_exprs_mem:
  "p \<in> set path \<Longrightarrow> set (addr_list p) \<subseteq> set (addr_list_exprs path)"
  by (induction path) auto

lemma traverse_stack [simp]: "expr_stack (traverse V t s) = expr_stack s"
  using traverse_frame(1) [of s V t] by (simp add: frame_def)

lemma traverse_exprs_stack [simp]: "expr_stack (traverse_exprs V ts s) = expr_stack s"
  using traverse_frame(3) [of s V ts] by (simp add: frame_def)

lemma phase_stack:
  assumes "in_comprehension E s0 sx" "comprehension_expr E = addr e"
    "length (scopes s0) \<le> accu_scope E" "length (scopes s0) \<le> iter_scope E"
  shows "expr_stack (PreVisitComprehensionSubexpression V e arg sx) = expr_stack s0"
    "in_comprehension E s0
       (PostVisitComprehensionSubexpression V e arg
          (traverse V x (PreVisitComprehensionSubexpression V e arg sx)))"
    "current_scope (PreVisitComprehensionSubexpression V e arg sx) = scope_for arg E"
proof -
  show "expr_stack (PreVisitComprehensionSubexpression V e arg sx) = expr_stack s0"
    using PreVisitComprehensionSubexpression_in [OF assms(1,2), of V arg]
    by (simp add: in_comprehension_def)
  show "in_comprehension E s0
       (PostVisitComprehensionSubexpression V e arg
          (traverse V x (PreVisitComprehensionSubexpression V e arg sx)))"
    using subexpression_in [OF assms traverse_frame(1)] by simp
  show "current_scope (PreVisitComprehensionSubexpression V e arg sx) = scope_for arg E"
    using PreVisitComprehensionSubexpression_in [OF assms(1,2), of V arg] by simp
qed

lemma traverse_attributes:
  assumes "barrier st0" "x \<notin> A" "x \<noteq> 0"
  shows
    "\<forall>path. expr_stack s = path @ st0 \<and> set (addr_list_exprs path) \<subseteq> A
        \<and> set (addr_list t) \<subseteq> A
      \<longrightarrow> attributes (traverse V t s) x = attributes s x"
    "\<forall>path. expr_stack s = e # path @ st0 \<and> set (addr_list_exprs (e # path)) \<subseteq> A
        \<and> set (addr_list_kind k) \<subseteq> A
      \<longrightarrow> attributes (traverse_kind V e k s) x = attributes s x"
    "\<forall>path. expr_stack s = path @ st0 \<and> set (addr_list_exprs path) \<subseteq> A
        \<and> set (addr_list_exprs ts) \<subseteq> A
      \<longrightarrow> attributes (traverse_exprs V ts s) x = attributes s x"
    "\<forall>path. expr_stack s = path @ st0 \<and> set (addr_list_exprs path) \<subseteq> A
        \<and> set (addr_list_elements els) \<subseteq> A
      \<longrightarrow> attributes (traverse_elements V els s) x = attributes s x"
    "\<forall>path. expr_stack s = path @ st0 \<and> set (addr_list_exprs path) \<subseteq> A
        \<and> set (addr_list_fields fs) \<subseteq> A
      \<longrightarrow> attributes (traverse_fields V fs s) x = attributes s x"
    "\<forall>path. expr_stack s = path @ st0 \<and> set (addr_list_exprs path) \<subseteq> A
        \<and> set (addr_list_entries ens) \<subseteq> A
      \<longrightarrow> attributes (traverse_entries V ens s) x = attributes s x"
proof (induction V t s and V e k s and V ts s and V els s and V fs s and V ens s
    rule: traverse_traverse_kind_traverse_exprs_traverse_elements_traverse_fields_traverse_entries.induct)
  case (1 V a i k s)
  show ?case
  proof (intro allI impI, elim conjE)
    fix path
    assume st: "expr_stack s = path @ st0" and pa: "set (addr_list_exprs path) \<subseteq> A"
      and ta: "set (addr_list (Expr a i k)) \<subseteq> A"
    have "attributes (traverse_kind V (Expr a i k) k (PreVisitExpr (Expr a i k) s)) x
            = attributes (PreVisitExpr (Expr a i k) s) x"
      using 1 [rule_format, of path] st pa ta by (simp add: PreVisitExpr_def)
    then show "attributes (traverse V (Expr a i k) s) x = attributes s x"
      by simp
  qed
next
  case (2 V e s)
  then show ?case by simp
next
  case (3 V e c s)
  then show ?case by simp
next
  case (4 V e n s)
  show ?case
  proof (intro allI impI, elim conjE)
    fix path
    assume st: "expr_stack s = e # path @ st0"
      and pa: "set (addr_list_exprs (e # path)) \<subseteq> A"
    have all: "\<forall>p\<in>set (e # path). set (addr_list p) \<subseteq> A"
      using pa addr_list_exprs_mem [of _ "e # path"] by blast
    have "addr e \<in> A" using pa addr_in_addr_list [of e] by auto
    then have "attributes (PostVisitIdent V e n s) x = attributes s x"
      using PostVisitIdent_other [OF st assms(1) all _ assms(2,3)] by simp
    then show "attributes (traverse_kind V e (IdentExpr n) s) x = attributes s x"
      by simp
  qed
next
  case (5 V e operand field test_only s)
  show ?case
  proof (intro allI impI, elim conjE)
    fix path
    assume st: "expr_stack s = e # path @ st0"
      and pa: "set (addr_list_exprs (e # path)) \<subseteq> A"
      and ka: "set (addr_list_kind (SelectExpr operand field test_only)) \<subseteq> A"
    have "attributes (traverse V operand s) x = attributes s x"
      using 5 [rule_format, of "e # path"] st pa ka by simp
    then show "attributes (traverse_kind V e (SelectExpr operand field test_only) s) x
                 = attributes s x"
      by simp
  qed
next
  case (6 V e f args s)
  show ?case
  proof (intro allI impI, elim conjE)
    fix path
    assume st: "expr_stack s = e # path @ st0"
      and pa: "set (addr_list_exprs (e # path)) \<subseteq> A"
      and ka: "set (addr_list_kind (CallExpr f None args)) \<subseteq> A"
    have 1: "attributes (traverse_exprs V args s) x = attributes s x"
      using 6 [rule_format, of "e # path"] st pa ka by simp
    have "x \<notin> set (addr_list e)" using pa assms(2) by auto
    then show "attributes (traverse_kind V e (CallExpr f None args) s) x = attributes s x"
      using 1 assms(3) by (simp add: PostVisitCall_other)
  qed
next
  case (7 V e f target args s)
  show ?case
  proof (intro allI impI, elim conjE)
    fix path
    assume st: "expr_stack s = e # path @ st0"
      and pa: "set (addr_list_exprs (e # path)) \<subseteq> A"
      and ka: "set (addr_list_kind (CallExpr f (Some target) args)) \<subseteq> A"
    have 1: "attributes (traverse V target s) x = attributes s x"
      using 7(1) [rule_format, of "e # path"] st pa ka by simp
    have 2: "attributes (traverse_exprs V args (traverse V target s)) x
               = attributes (traverse V target s) x"
      using 7(2) [rule_format, of "e # path"] st pa ka by simp
    have "x \<notin> set (addr_list e)" using pa assms(2) by auto
    then show "attributes (traverse_kind V e (CallExpr f (Some target) args) s) x
                 = attributes s x"
      using 1 2 assms(3) by (simp add: PostVisitCall_other)
  qed
next
  case (8 V e elements s)
  show ?case
  proof (intro allI impI, elim conjE)
    fix path
    assume st: "expr_stack s = e # path @ st0"
      and pa: "set (addr_list_exprs (e # path)) \<subseteq> A"
      and ka: "set (addr_list_kind (ListExpr elements)) \<subseteq> A"
    have "attributes (traverse_elements V elements s) x = attributes s x"
      using 8 [rule_format, of "e # path"] st pa ka by simp
    then show "attributes (traverse_kind V e (ListExpr elements) s) x = attributes s x"
      by simp
  qed
next
  case (9 V e n struct_fields s)
  show ?case
  proof (intro allI impI, elim conjE)
    fix path
    assume st: "expr_stack s = e # path @ st0"
      and pa: "set (addr_list_exprs (e # path)) \<subseteq> A"
      and ka: "set (addr_list_kind (StructExpr n struct_fields)) \<subseteq> A"
    have "attributes (traverse_fields V struct_fields s) x = attributes s x"
      using 9 [rule_format, of "e # path"] st pa ka by simp
    then show "attributes (traverse_kind V e (StructExpr n struct_fields) s) x = attributes s x"
      by simp
  qed
next
  case (10 V e entries s)
  show ?case
  proof (intro allI impI, elim conjE)
    fix path
    assume st: "expr_stack s = e # path @ st0"
      and pa: "set (addr_list_exprs (e # path)) \<subseteq> A"
      and ka: "set (addr_list_kind (MapExpr entries)) \<subseteq> A"
    have "attributes (traverse_entries V entries s) x = attributes s x"
      using 10 [rule_format, of "e # path"] st pa ka by simp
    then show "attributes (traverse_kind V e (MapExpr entries) s) x = attributes s x"
      by simp
  qed
next
  case (11 V e iv ir av ai lc ls r s)
  show ?case
  proof (intro allI impI, elim conjE)
    fix path
    assume st: "expr_stack s = e # path @ st0"
      and pa: "set (addr_list_exprs (e # path)) \<subseteq> A"
      and ka: "set (addr_list_kind (ComprehensionExpr iv ir av ai lc ls r)) \<subseteq> A"
    define E where "E = \<lparr>comprehension_expr = addr e, parent = current_scope s,
        accu_scope = length (scopes s), iter_scope = Suc (length (scopes s))\<rparr>"
    define p0 where "p0 = PreVisitComprehension V e s"
    define p1 where "p1 = PostVisitComprehensionSubexpression V e ITER_RANGE
         (traverse V ir (PreVisitComprehensionSubexpression V e ITER_RANGE p0))"
    define p2 where "p2 = PostVisitComprehensionSubexpression V e ACCU_INIT
         (traverse V ai (PreVisitComprehensionSubexpression V e ACCU_INIT p1))"
    define p3 where "p3 = PostVisitComprehensionSubexpression V e LOOP_CONDITION
         (traverse V lc (PreVisitComprehensionSubexpression V e LOOP_CONDITION p2))"
    define p4 where "p4 = PostVisitComprehensionSubexpression V e LOOP_STEP
         (traverse V ls (PreVisitComprehensionSubexpression V e LOOP_STEP p3))"
    define p5 where "p5 = PostVisitComprehensionSubexpression V e RESULT
         (traverse V r (PreVisitComprehensionSubexpression V e RESULT p4))"
    have E: "comprehension_expr E = addr e" "length (scopes s) \<le> accu_scope E"
      "length (scopes s) \<le> iter_scope E"
      by (simp_all add: E_def)
    have i0: "in_comprehension E s p0"
      unfolding E_def p0_def by (rule PreVisitComprehension_in)
    note ph1 = phase_stack(1) [OF i0 E, where V = V and arg = ITER_RANGE]
      phase_stack(2) [OF i0 E, where V = V and arg = ITER_RANGE and x = ir, folded p1_def]
    note ph2 = phase_stack(1) [OF ph1(2) E, where V = V and arg = ACCU_INIT]
      phase_stack(2) [OF ph1(2) E, where V = V and arg = ACCU_INIT and x = ai, folded p2_def]
    note ph3 = phase_stack(1) [OF ph2(2) E, where V = V and arg = LOOP_CONDITION]
      phase_stack(2) [OF ph2(2) E, where V = V and arg = LOOP_CONDITION and x = lc, folded p3_def]
    note ph4 = phase_stack(1) [OF ph3(2) E, where V = V and arg = LOOP_STEP]
      phase_stack(2) [OF ph3(2) E, where V = V and arg = LOOP_STEP and x = ls, folded p4_def]
    note ph5 = phase_stack(1) [OF ph4(2) E, where V = V and arg = RESULT]
      phase_stack(2) [OF ph4(2) E, where V = V and arg = RESULT and x = r, folded p5_def]
    have a1: "attributes p1 x = attributes s x"
      using 11(1) [rule_format, of "e # path"] ph1(1) st pa ka
      by (simp add: p1_def p0_def)
    have a2: "attributes p2 x = attributes p1 x"
      using 11(2) [rule_format, of "e # path"] ph2(1) st pa ka
      by (simp add: p2_def p1_def p0_def)
    have a3: "attributes p3 x = attributes p2 x"
      using 11(3) [rule_format, of "e # path"] ph3(1) st pa ka
      by (simp add: p3_def p2_def p1_def p0_def)
    have a4: "attributes p4 x = attributes p3 x"
      using 11(4) [rule_format, of "e # path"] ph4(1) st pa ka
      by (simp add: p4_def p3_def p2_def p1_def p0_def)
    have a5: "attributes p5 x = attributes p4 x"
      using 11(5) [rule_format, of "e # path"] ph5(1) st pa ka
      by (simp add: p5_def p4_def p3_def p2_def p1_def p0_def)
    have eq: "traverse_kind V e (ComprehensionExpr iv ir av ai lc ls r) s
            = PostVisitComprehension V e p5"
      by (simp add: p5_def p4_def p3_def p2_def p1_def p0_def)
    show "attributes (traverse_kind V e (ComprehensionExpr iv ir av ai lc ls r) s) x
            = attributes s x"
      unfolding eq using a1 a2 a3 a4 a5 by simp
  qed
next
  case (12 V s)
  then show ?case by simp
next
  case (13 V t ts s)
  show ?case
  proof (intro allI impI, elim conjE)
    fix path
    assume st: "expr_stack s = path @ st0" and pa: "set (addr_list_exprs path) \<subseteq> A"
      and ka: "set (addr_list_exprs (t # ts)) \<subseteq> A"
    have 1: "attributes (traverse V t s) x = attributes s x"
      using 13(1) [rule_format, of path] st pa ka by simp
    have 2: "attributes (traverse_exprs V ts (traverse V t s)) x
               = attributes (traverse V t s) x"
      using 13(2) [rule_format, of path] st pa ka by simp
    show "attributes (traverse_exprs V (t # ts) s) x = attributes s x"
      using 1 2 by simp
  qed
next
  case (14 V s)
  then show ?case by simp
next
  case (15 V t opt ts s)
  show ?case
  proof (intro allI impI, elim conjE)
    fix path
    assume st: "expr_stack s = path @ st0" and pa: "set (addr_list_exprs path) \<subseteq> A"
      and ka: "set (addr_list_elements (ListExprElement t opt # ts)) \<subseteq> A"
    have 1: "attributes (traverse V t s) x = attributes s x"
      using 15(1) [rule_format, of path] st pa ka by simp
    have 2: "attributes (traverse_elements V ts (traverse V t s)) x
               = attributes (traverse V t s) x"
      using 15(2) [rule_format, of path] st pa ka by simp
    show "attributes (traverse_elements V (ListExprElement t opt # ts) s) x = attributes s x"
      using 1 2 by simp
  qed
next
  case (16 V s)
  then show ?case by simp
next
  case (17 V fid fname t opt ts s)
  show ?case
  proof (intro allI impI, elim conjE)
    fix path
    assume st: "expr_stack s = path @ st0" and pa: "set (addr_list_exprs path) \<subseteq> A"
      and ka: "set (addr_list_fields (StructExprField fid fname t opt # ts)) \<subseteq> A"
    have 1: "attributes (traverse V t s) x = attributes s x"
      using 17(1) [rule_format, of path] st pa ka by simp
    have 2: "attributes (traverse_fields V ts (traverse V t s)) x
               = attributes (traverse V t s) x"
      using 17(2) [rule_format, of path] st pa ka by simp
    show "attributes (traverse_fields V (StructExprField fid fname t opt # ts) s) x
            = attributes s x"
      using 1 2 by simp
  qed
next
  case (18 V s)
  then show ?case by simp
next
  case (19 V eid key val opt ts s)
  show ?case
  proof (intro allI impI, elim conjE)
    fix path
    assume st: "expr_stack s = path @ st0" and pa: "set (addr_list_exprs path) \<subseteq> A"
      and ka: "set (addr_list_entries (MapExprEntry eid key val opt # ts)) \<subseteq> A"
    have 1: "attributes (traverse V key s) x = attributes s x"
      using 19(1) [rule_format, of path] st pa ka by simp
    have 2: "attributes (traverse V val (traverse V key s)) x
               = attributes (traverse V key s) x"
      using 19(2) [rule_format, of path] st pa ka by simp
    have 3: "attributes (traverse_entries V ts (traverse V val (traverse V key s))) x
               = attributes (traverse V val (traverse V key s)) x"
      using 19(3) [rule_format, of path] st pa ka by simp
    show "attributes (traverse_entries V (MapExprEntry eid key val opt # ts) s) x
            = attributes s x"
      using 1 2 3 by simp
  qed
qed

lemma hygienic_empty: "current_scope s < length (scopes s) \<Longrightarrow> hygienic {} s"
  by (simp add: hygienic_def good_attributes_def)

lemma hygienic_links:
  assumes "hygienic F s" "take (length (scopes s)) (scope_links s') = scope_links s"
    "current_scope s' = current_scope s" "good_attributes F s'"
  shows "hygienic F s'"
proof -
  have "length (scopes s) \<le> length (scope_links s')"
    using assms(2) by (rule take_eq_length) simp
  then have len: "length (scopes s) \<le> length (scopes s')" by simp
  have cur: "current_scope s < length (scopes s)"
    using assms(1) by (simp add: hygienic_def)
  have "reach (take (length (scopes s)) (scope_links s')) (current_scope s)
          = reach (scope_links s') (current_scope s)"
    using cur len by (intro reach_take) simp_all
  then have "reach (scope_links s') (current_scope s) = reach (scope_links s) (current_scope s)"
    using assms(2) by simp
  then show ?thesis
    using assms len cur by (auto simp: hygienic_def)
qed

lemma comprehension_barrier:
  "barrier (Expr a i (ComprehensionExpr iv ir av ai lc ls r) # st)"
  by (simp add: barrier_def)

lemma phase_invariant:
  assumes "in_comprehension E s0 sx"
    and "comprehension_expr E = addr e" "accu_scope E = length (scopes s0)"
      "iter_scope E = Suc (length (scopes s0))" "parent E = current_scope s0"
    and "take (Suc (Suc (length (scopes s0)))) (scope_links sx)
               = scope_links s0 @ [Some (current_scope s0), Some (length (scopes s0))]"
    and "hygienic F s0"
    and "good_attributes F sx"
  shows "in_comprehension E s0
           (PostVisitComprehensionSubexpression V e arg
              (traverse V x (PreVisitComprehensionSubexpression V e arg sx)))"
    "current_scope (PostVisitComprehensionSubexpression V e arg
              (traverse V x (PreVisitComprehensionSubexpression V e arg sx))) = current_scope s0"
    "take (Suc (Suc (length (scopes s0))))
       (scope_links (PostVisitComprehensionSubexpression V e arg
              (traverse V x (PreVisitComprehensionSubexpression V e arg sx))))
       = scope_links s0 @ [Some (current_scope s0), Some (length (scopes s0))]"
    "good_attributes F (PostVisitComprehensionSubexpression V e arg
              (traverse V x (PreVisitComprehensionSubexpression V e arg sx)))"
  using phase_hygienic [OF assms traverse_hygienic(1)] by blast+

lemma traverse_other:
  assumes "expr_stack s = st0" "barrier st0" "x \<notin> set (addr_list t)" "x \<noteq> 0"
  shows "attributes (traverse V t s) x = attributes s x"
  using traverse_attributes(1) [OF assms(2,3,4), rule_format, of s "[]" t V] assms(1)
  by simp

subsection \<open>The scopes of the five subexpressions\<close>

text \<open>
  Claim C6. In the traversal of a comprehension, entered in a state whose current scope
  exists and whose recorded references are to existing scopes, the range and the initial
  accumulator are entered with the scope that was current before the comprehension (the
  parent scope), the loop condition and the result with the accu scope and the loop step
  with the iter scope, where the accu scope and the iter scope are the two scopes that
  \<open>PreVisitComprehension\<close> appends to the store, the first nested in the parent scope and
  the second in the first. When the nodes of the comprehension are distinct objects, none
  of them the default instance, no node of the range or of the initial accumulator has,
  after the traversal of the comprehension, a reference to a variable owned by the accu
  scope or by the iter scope of this comprehension.
\<close>

theorem comprehension_scope_hygiene:
  assumes e: "e = Expr a i (ComprehensionExpr iv ir av ai lc ls r)"
    and cur: "current_scope s < length (scopes s)"
    and own: "\<forall>x k d. attributes s x = Some (Some k, d) \<longrightarrow> k < length (scopes s)"
    and dis: "distinct (addr_list e)"
    and nz: "0 \<notin> set (addr_list e)"
  shows "traverse V e s =
           PostVisitExpr e (PostVisitComprehension V e
             (PostVisitComprehensionSubexpression V e RESULT
                (traverse V r (enter_result V e (PreVisitExpr e s)))))
         \<and> current_scope (enter_iter_range V e (PreVisitExpr e s)) = current_scope s
         \<and> current_scope (enter_accu_init V e (PreVisitExpr e s)) = current_scope s
         \<and> current_scope (enter_loop_condition V e (PreVisitExpr e s)) = length (scopes s)
         \<and> current_scope (enter_loop_step V e (PreVisitExpr e s)) = Suc (length (scopes s))
         \<and> current_scope (enter_result V e (PreVisitExpr e s)) = length (scopes s)
         \<and> parent_scope (scopes (traverse V e s) ! length (scopes s)) = Some (current_scope s)
         \<and> parent_scope (scopes (traverse V e s) ! Suc (length (scopes s)))
             = Some (length (scopes s))
         \<and> (\<forall>x\<in>set (addr_list ir) \<union> set (addr_list ai). \<forall>k d.
               attributes (traverse V e s) x = Some (Some k, d) \<longrightarrow>
                 k \<noteq> length (scopes s) \<and> k \<noteq> Suc (length (scopes s)))"
proof -
  define s0 where "s0 = PreVisitExpr e s"
  define n where "n = length (scopes s)"
  define F where "F = {n, Suc n}"
  define E where "E = \<lparr>comprehension_expr = addr e, parent = current_scope s0,
      accu_scope = length (scopes s0), iter_scope = Suc (length (scopes s0))\<rparr>"
  define p0 where "p0 = PreVisitComprehension V e s0"
  define q1 where "q1 = PreVisitComprehensionSubexpression V e ITER_RANGE p0"
  define p1 where "p1 = PostVisitComprehensionSubexpression V e ITER_RANGE (traverse V ir q1)"
  define q2 where "q2 = PreVisitComprehensionSubexpression V e ACCU_INIT p1"
  define p2 where "p2 = PostVisitComprehensionSubexpression V e ACCU_INIT (traverse V ai q2)"
  define q3 where "q3 = PreVisitComprehensionSubexpression V e LOOP_CONDITION p2"
  define p3 where "p3 = PostVisitComprehensionSubexpression V e LOOP_CONDITION (traverse V lc q3)"
  define q4 where "q4 = PreVisitComprehensionSubexpression V e LOOP_STEP p3"
  define p4 where "p4 = PostVisitComprehensionSubexpression V e LOOP_STEP (traverse V ls q4)"
  define q5 where "q5 = PreVisitComprehensionSubexpression V e RESULT p4"
  define p5 where "p5 = PostVisitComprehensionSubexpression V e RESULT (traverse V r q5)"
  have sc0: "scopes s0 = scopes s" "current_scope s0 = current_scope s"
    "attributes s0 = attributes s" "expr_stack s0 = e # expr_stack s"
    by (simp_all add: s0_def PreVisitExpr_def)
  have n0: "length (scopes s0) = n" by (simp add: sc0 n_def)
  have en: "enter_iter_range V e s0 = q1" "enter_accu_init V e s0 = q2"
    "enter_loop_condition V e s0 = q3" "enter_loop_step V e s0 = q4"
    "enter_result V e s0 = q5"
    by (simp_all add: enter_iter_range_def enter_accu_init_def enter_loop_condition_def
        enter_loop_step_def enter_result_def e q1_def q2_def q3_def q4_def q5_def
        p0_def p1_def p2_def p3_def p4_def)
  have tr: "traverse V e s = PostVisitExpr e (PostVisitComprehension V e p5)"
    by (simp add: e s0_def q1_def q2_def q3_def q4_def q5_def
        p0_def p1_def p2_def p3_def p4_def p5_def)
  have E: "comprehension_expr E = addr e" "accu_scope E = length (scopes s0)"
    "iter_scope E = Suc (length (scopes s0))" "parent E = current_scope s0"
    by (simp_all add: E_def)
  have El: "length (scopes s0) \<le> accu_scope E" "length (scopes s0) \<le> iter_scope E"
    by (simp_all add: E_def)
  have h0: "hygienic {} s0"
    using cur by (intro hygienic_empty) (simp add: sc0)
  have i0: "in_comprehension E s0 p0"
    unfolding E_def p0_def by (rule PreVisitComprehension_in)
  have l0: "take (Suc (Suc (length (scopes s0)))) (scope_links p0)
              = scope_links s0 @ [Some (current_scope s0), Some (length (scopes s0))]"
    by (simp add: p0_def PreVisitComprehension_links)
  have g0: "good_attributes {} sx" for sx :: "'a visitor_state"
    by (simp add: good_attributes_def)
  note ph1 = phase_invariant [OF i0 E l0 h0 g0,
      where V = V and arg = ITER_RANGE and x = ir, folded q1_def, folded p1_def]
  note ph2 = phase_invariant [OF ph1(1) E ph1(3) h0 g0,
      where V = V and arg = ACCU_INIT and x = ai, folded q2_def, folded p2_def]
  note ph3 = phase_invariant [OF ph2(1) E ph2(3) h0 g0,
      where V = V and arg = LOOP_CONDITION and x = lc, folded q3_def, folded p3_def]
  note ph4 = phase_invariant [OF ph3(1) E ph3(3) h0 g0,
      where V = V and arg = LOOP_STEP and x = ls, folded q4_def, folded p4_def]
  note ph5 = phase_invariant [OF ph4(1) E ph4(3) h0 g0,
      where V = V and arg = RESULT and x = r, folded q5_def, folded p5_def]
  note st1 = phase_stack(1,3) [OF i0 E(1) El, where V = V and arg = ITER_RANGE, folded q1_def]
  note st2 = phase_stack(1,3) [OF ph1(1) E(1) El, where V = V and arg = ACCU_INIT, folded q2_def]
  note st3 = phase_stack(1,3) [OF ph2(1) E(1) El, where V = V and arg = LOOP_CONDITION,
      folded q3_def]
  note st4 = phase_stack(1,3) [OF ph3(1) E(1) El, where V = V and arg = LOOP_STEP, folded q4_def]
  note st5 = phase_stack(1,3) [OF ph4(1) E(1) El, where V = V and arg = RESULT, folded q5_def]
  have c1: "current_scope q1 = current_scope s" "current_scope q2 = current_scope s"
    "current_scope q3 = n" "current_scope q4 = Suc n" "current_scope q5 = n"
    using st1(2) st2(2) st3(2) st4(2) st5(2)
    by (simp_all add: scope_for_def E_def sc0 n_def)
  have lk5: "take (Suc (Suc n)) (scope_links p5)
               = scope_links s0 @ [Some (current_scope s), Some n]"
    using ph5(3) by (simp add: sc0 n_def)
  have fin: "scopes (traverse V e s) = scopes p5"
    "attributes (traverse V e s) = attributes p5"
    by (simp_all add: tr PostVisitComprehension_def PostVisitExpr_def split: list.splits)
  have len5: "Suc (Suc n) \<le> length (scopes p5)"
  proof -
    have "length (take (Suc (Suc n)) (scope_links p5)) = Suc (Suc n)"
      unfolding lk5 by (simp add: n0)
    then show ?thesis by simp
  qed
  have nth5: "scope_links p5 ! k = (scope_links s0 @ [Some (current_scope s), Some n]) ! k"
    if "k < Suc (Suc n)" for k
    using that nth_take [of k "Suc (Suc n)" "scope_links p5"] lk5 by simp
  have par: "parent_scope (scopes p5 ! n) = Some (current_scope s)"
    "parent_scope (scopes p5 ! Suc n) = Some n"
    using nth5 [of n] nth5 [of "Suc n"] len5
    by (simp_all add: scope_links_def nth_append n0)
  have hyg: "\<forall>x\<in>set (addr_list ir) \<union> set (addr_list ai). \<forall>k d.
               attributes p5 x = Some (Some k, d) \<longrightarrow> k \<noteq> n \<and> k \<noteq> Suc n"
  proof (intro ballI allI impI)
    fix x k d
    assume x: "x \<in> set (addr_list ir) \<union> set (addr_list ai)"
      and at: "attributes p5 x = Some (Some k, d)"
    have "x \<in> set (addr_list e)" using x by (auto simp: e)
    then have xz: "x \<noteq> 0" using nz by (intro notI) simp
    have xo: "x \<notin> set (addr_list lc)" "x \<notin> set (addr_list ls)" "x \<notin> set (addr_list r)"
      using x dis by (auto simp: e)
    have lq1: "scope_links q1 = scope_links s0 @ [Some (current_scope s), Some n]"
      by (simp add: q1_def scope_links_def p0_def PreVisitComprehension_def Let_def
          MakeNestedScope_def sc0 n_def)
    have cur0: "current_scope s < length (scope_links s0)"
      using cur by (simp add: sc0)
    have "reach (scope_links q1) (current_scope q1) = reach (scope_links s0) (current_scope s)"
      using reach_append [OF cur0] by (simp add: lq1 c1)
    moreover have "k' \<le> current_scope s" if "k' \<in> reach (scope_links s0) (current_scope s)"
      for k'
      using that by (rule reach_le)
    ultimately have r1: "reach (scope_links q1) (current_scope q1) \<inter> F = {}"
      using cur by (fastforce simp: F_def n_def)
    have lenq1: "length (scopes q1) = Suc (Suc n)"
      using arg_cong [OF lq1, of length] by (simp add: n0)
    have "k' \<notin> F" if "attributes s y = Some (Some k', d')" for y k' d'
    proof -
      have "k' < n" using own that by (simp add: n_def) blast
      then show ?thesis by (simp add: F_def)
    qed
    then have gq1: "good_attributes F q1"
      by (simp add: good_attributes_def q1_def p0_def sc0)
    have hq1: "hygienic F q1"
      using r1 lenq1 gq1 cur by (auto simp: hygienic_def c1 F_def n_def)
    have "hygienic F (traverse V ir q1)"
      using hq1 by (rule traverse_hygienic(1))
    then have g1: "good_attributes F p1"
      by (simp add: hygienic_def good_attributes_def p1_def)
    have hq2: "hygienic F q2"
      using hq1
    proof (rule hygienic_links)
      have "scope_links q2 = scope_links p1"
        by (simp add: q2_def scope_links_def)
      then show "take (length (scopes q1)) (scope_links q2) = scope_links q1"
        using ph1(3) by (simp add: lenq1 lq1 n0 sc0(2))
      show "current_scope q2 = current_scope q1" by (simp add: c1)
      show "good_attributes F q2" using g1 by (simp add: good_attributes_def q2_def)
    qed
    have "hygienic F (traverse V ai q2)"
      using hq2 by (rule traverse_hygienic(1))
    then have g2: "good_attributes F p2"
      by (simp add: hygienic_def good_attributes_def p2_def)
    have b: "barrier (expr_stack s0)"
      by (simp add: sc0 e comprehension_barrier)
    have "attributes p3 x = attributes p2 x"
      using traverse_other [OF st3(1) b xo(1) xz, of V] by (simp add: p3_def q3_def)
    moreover have "attributes p4 x = attributes p3 x"
      using traverse_other [OF st4(1) b xo(2) xz, of V] by (simp add: p4_def q4_def)
    moreover have "attributes p5 x = attributes p4 x"
      using traverse_other [OF st5(1) b xo(3) xz, of V] by (simp add: p5_def q5_def)
    ultimately have "attributes p2 x = Some (Some k, d)"
      using at by simp
    then have "k \<notin> F" using g2 unfolding good_attributes_def by blast
    then show "k \<noteq> n \<and> k \<noteq> Suc n" by (simp add: F_def)
  qed
  note en' = en [unfolded s0_def]
  have t1: "traverse V e s =
           PostVisitExpr e (PostVisitComprehension V e
             (PostVisitComprehensionSubexpression V e RESULT
                (traverse V r (enter_result V e (PreVisitExpr e s)))))"
    unfolding tr p5_def en'(5) ..
  have t2: "current_scope (enter_iter_range V e (PreVisitExpr e s)) = current_scope s"
    unfolding en'(1) by (rule c1(1))
  have t3: "current_scope (enter_accu_init V e (PreVisitExpr e s)) = current_scope s"
    unfolding en'(2) by (rule c1(2))
  have t4: "current_scope (enter_loop_condition V e (PreVisitExpr e s)) = length (scopes s)"
    unfolding en'(3) n_def [symmetric] by (rule c1(3))
  have t5: "current_scope (enter_loop_step V e (PreVisitExpr e s)) = Suc (length (scopes s))"
    unfolding en'(4) n_def [symmetric] by (rule c1(4))
  have t6: "current_scope (enter_result V e (PreVisitExpr e s)) = length (scopes s)"
    unfolding en'(5) n_def [symmetric] by (rule c1(5))
  have t7: "parent_scope (scopes (traverse V e s) ! length (scopes s)) = Some (current_scope s)"
    unfolding fin(1) n_def [symmetric] by (rule par(1))
  have t8: "parent_scope (scopes (traverse V e s) ! Suc (length (scopes s)))
             = Some (length (scopes s))"
    unfolding fin(1) n_def [symmetric] by (rule par(2))
  have t9: "\<forall>x\<in>set (addr_list ir) \<union> set (addr_list ai). \<forall>k d.
               attributes (traverse V e s) x = Some (Some k, d) \<longrightarrow>
                 k \<noteq> length (scopes s) \<and> k \<noteq> Suc (length (scopes s))"
    unfolding fin(2) n_def [symmetric] by (rule hyg)
  show ?thesis
    using t1 t2 t3 t4 t5 t6 t7 t8 t9 by (intro conjI)
qed

theorem comprehension_scope_hygiene_witness:
  "distinct (addr_list comp_example) \<and> 0 \<notin> set (addr_list comp_example)
   \<and> current_scope example_state < length (scopes example_state)
   \<and> current_scope (enter_iter_range example_visitor comp_example
        (PreVisitExpr comp_example example_state)) = 0
   \<and> current_scope (enter_accu_init example_visitor comp_example
        (PreVisitExpr comp_example example_state)) = 0
   \<and> current_scope (enter_loop_condition example_visitor comp_example
        (PreVisitExpr comp_example example_state)) = 1
   \<and> current_scope (enter_loop_step example_visitor comp_example
        (PreVisitExpr comp_example example_state)) = 2
   \<and> current_scope (enter_result example_visitor comp_example
        (PreVisitExpr comp_example example_state)) = 1
   \<and> attributes (traverse example_visitor comp_example example_state) 1
       = Some (None, MakeVariableDecl ''x'' IntType)
   \<and> attributes (traverse example_visitor comp_example example_state) 5
       = Some (Some 2, MakeVariableDecl ''x'' IntType)"
proof -
  have dis: "distinct (addr_list comp_example)"
    and nz: "0 \<notin> set (addr_list comp_example)"
    and cur: "current_scope example_state < length (scopes example_state)"
    by code_simp+
  have own: "\<forall>x k d. attributes example_state x = Some (Some k, d) \<longrightarrow>
               k < length (scopes example_state)"
    by (simp add: example_state_def initial_state_def)
  have ev: "current_scope example_state = 0" "length (scopes example_state) = 1"
    "attributes (traverse example_visitor comp_example example_state) 1
       = Some (None, MakeVariableDecl ''x'' IntType)"
    "attributes (traverse example_visitor comp_example example_state) 5
       = Some (Some 2, MakeVariableDecl ''x'' IntType)"
    by code_simp+
  show ?thesis
    using comprehension_scope_hygiene [where V = example_visitor and s = example_state,
        OF comp_example_def cur own dis nz] dis nz ev
    by (simp add: numeral_2_eq_2)
qed

end
